theory Spec2Isabelle
  imports Complex_Main "HOL-Library.AList"
begin

section \<open>Common modelling conventions\<close>

text \<open>
  A JavaScript \<open>Map\<close> with string keys is an association list in insertion order:
  \<open>get\<close> is \<open>map_of\<close>, \<open>set\<close> is \<open>AList.update\<close> (it overwrites in place or
  appends), \<open>delete\<close> is \<open>AList.delete\<close>, \<open>size\<close> is \<open>length\<close>.
  Every reading of \<open>Date.now()\<close> is an explicit integer argument (milliseconds).
  A value is falsy in the source when a string is empty or a reference is missing.
\<close>

type_synonym 'v jsmap = "(string \<times> 'v) list"

subsection \<open>Decimal rendering of a number inside a template string\<close>

definition digit_char :: "nat \<Rightarrow> char" where
  "digit_char d = ''0123456789'' ! d"

function string_of_nat :: "nat \<Rightarrow> string" where
  "string_of_nat n =
     (if n < 10 then [digit_char n]
      else string_of_nat (n div 10) @ [digit_char (n mod 10)])"
  by pat_completeness auto
termination
  by (relation "measure id") auto

definition string_of_int :: "int \<Rightarrow> string" where
  "string_of_int i =
     (if i < 0 then CHR ''-'' # string_of_nat (nat (- i)) else string_of_nat (nat i))"

section \<open>Session manager (session/manager.ts)\<close>

subsection \<open>Message de-duplication\<close>

definition MESSAGE_DEDUP_TTL :: int where
  "MESSAGE_DEDUP_TTL = 5 * 60 * 1000"

definition isMessageProcessed :: "string \<Rightarrow> int jsmap \<Rightarrow> bool" where
  "isMessageProcessed messageId processedMessages =
     (if messageId = [] then False
      else map_of processedMessages messageId \<noteq> None)"

text \<open>The sweep reads the clock once and deletes every entry older than the window.\<close>

definition cleanupProcessedMessages :: "int \<Rightarrow> int jsmap \<Rightarrow> int jsmap" where
  "cleanupProcessedMessages now processedMessages =
     filter (\<lambda>(msgId, timestamp). \<not> (now - timestamp > MESSAGE_DEDUP_TTL)) processedMessages"

text \<open>
  \<open>markMessageProcessed\<close> reads the clock for the insertion (\<open>now\<close>) and, when the
  map has reached 100 entries, the sweep reads it again (\<open>now2\<close>).
\<close>

definition markMessageProcessed :: "int \<Rightarrow> int \<Rightarrow> string \<Rightarrow> int jsmap \<Rightarrow> int jsmap" where
  "markMessageProcessed now now2 messageId processedMessages =
     (if messageId = [] then processedMessages
      else
        (let pm = AList.update messageId now processedMessages
         in if length pm \<ge> 100 then cleanupProcessedMessages now2 pm else pm))"

text \<open>The operations that touch the de-duplication map, with their clock readings.\<close>

datatype dedup_op = Mark int int string | Sweep int

fun dedup_step :: "int jsmap \<Rightarrow> dedup_op \<Rightarrow> int jsmap" where
  "dedup_step pm (Mark now now2 messageId) = markMessageProcessed now now2 messageId pm"
| "dedup_step pm (Sweep now) = cleanupProcessedMessages now pm"

definition dedup_run :: "int jsmap \<Rightarrow> dedup_op list \<Rightarrow> int jsmap" where
  "dedup_run pm ops = foldl dedup_step pm ops"

fun marks :: "string \<Rightarrow> dedup_op \<Rightarrow> bool" where
  "marks messageId (Mark now now2 m) = (m = messageId)"
| "marks messageId (Sweep now) = False"

text \<open>Every clock reading of an operation lies in the closed interval from \<open>lo\<close> to \<open>hi\<close>.\<close>

fun clock_within :: "int \<Rightarrow> int \<Rightarrow> dedup_op \<Rightarrow> bool" where
  "clock_within lo hi (Mark now now2 m) = (lo \<le> now \<and> now \<le> hi \<and> lo \<le> now2 \<and> now2 \<le> hi)"
| "clock_within lo hi (Sweep now) = (lo \<le> now \<and> now \<le> hi)"

text \<open>The entry of \<open>k\<close> exists and was stamped at or after \<open>lo\<close>.\<close>

definition fresh_in :: "int \<Rightarrow> string \<Rightarrow> int jsmap \<Rightarrow> bool" where
  "fresh_in lo k pm = (\<exists>t. map_of pm k = Some t \<and> lo \<le> t)"

subsection \<open>Sessions\<close>

record UserSession =
  lastActivity :: int
  sessionId :: string

record SessionContext =
  sessionKey :: string
  isNew :: bool
  forceNew :: bool

definition getSessionKey ::
  "int \<Rightarrow> string \<Rightarrow> bool \<Rightarrow> int \<Rightarrow> UserSession jsmap \<Rightarrow> SessionContext \<times> UserSession jsmap" where
  "getSessionKey now senderId force sessionTimeout userSessions =
     (let existing = map_of userSessions senderId
      in if force then
           (let sid = ''dingtalk:'' @ senderId @ '':'' @ string_of_int now
            in (\<lparr>sessionKey = sid, isNew = True, forceNew = True\<rparr>,
                AList.update senderId \<lparr>lastActivity = now, sessionId = sid\<rparr> userSessions))
         else
           (case existing of
              Some ex \<Rightarrow>
                (let elapsed = now - lastActivity ex
                 in if elapsed > sessionTimeout then
                      (let sid = ''dingtalk:'' @ senderId @ '':'' @ string_of_int now
                       in (\<lparr>sessionKey = sid, isNew = True, forceNew = False\<rparr>,
                           AList.update senderId \<lparr>lastActivity = now, sessionId = sid\<rparr> userSessions))
                    else
                      (\<lparr>sessionKey = sessionId ex, isNew = False, forceNew = False\<rparr>,
                       AList.update senderId (ex\<lparr>lastActivity := now\<rparr>) userSessions))
            | None \<Rightarrow>
                (let sid = ''dingtalk:'' @ senderId
                 in (\<lparr>sessionKey = sid, isNew = False, forceNew = False\<rparr>,
                     AList.update senderId \<lparr>lastActivity = now, sessionId = sid\<rparr> userSessions))))"

section \<open>Errors\<close>

text \<open>
  What a rejected request or a failing call throws: an axios error with the HTTP status
  of its response (\<open>None\<close> when there is no response: network failure, timeout), or
  any other \<open>Error\<close> with its message. A thrown value that is not an \<open>Error\<close>
  instance is given by its \<open>String(...)\<close> rendering.
\<close>

datatype error = AxiosError "nat option" | Error string

datatype thrown = IsError error | NotError string

text \<open>\<open>error instanceof Error ? error : new Error(String(error))\<close>\<close>

definition as_error :: "thrown \<Rightarrow> error" where
  "as_error t = (case t of IsError e \<Rightarrow> e | NotError s \<Rightarrow> Error s)"

section \<open>Retry with exponential backoff (utils/retry.ts)\<close>

subsection \<open>Numbers\<close>

text \<open>
  A value of type \<open>number\<close>: a finite number, \<open>Infinity\<close>, \<open>-Infinity\<close> or \<open>NaN\<close>.
  Finite numbers are reals: the rounding of doubles is left out.
\<close>

datatype number = Num real | PosInfinity | NegInfinity | NaN

text \<open>
  A value of type \<open>number | undefined\<close>, which is what an optional property of type
  \<open>number\<close> holds when it is present.
\<close>

datatype optional_number = Undefined | Number number

text \<open>The conversion to a number that the comparisons and the arithmetic apply.\<close>

fun toNumber :: "optional_number \<Rightarrow> number" where
  "toNumber Undefined = NaN"
| "toNumber (Number n) = n"

text \<open>\<open>a <= b\<close> on numbers: false as soon as one side is \<open>NaN\<close>.\<close>

fun lessEq :: "number \<Rightarrow> number \<Rightarrow> bool" where
  "lessEq NaN b = False"
| "lessEq a NaN = False"
| "lessEq NegInfinity b = True"
| "lessEq a PosInfinity = True"
| "lessEq (Num x) (Num y) = (x \<le> y)"
| "lessEq a b = False"

text \<open>\<open>a === b\<close> for a number \<open>a\<close>: false for \<open>undefined\<close> and for \<open>NaN\<close>.\<close>

fun strictEquals :: "number \<Rightarrow> optional_number \<Rightarrow> bool" where
  "strictEquals a Undefined = False"
| "strictEquals NaN (Number b) = False"
| "strictEquals a (Number NaN) = False"
| "strictEquals a (Number b) = (a = b)"

fun sign :: "number \<Rightarrow> real" where
  "sign (Num x) = sgn x"
| "sign PosInfinity = 1"
| "sign NegInfinity = - 1"
| "sign NaN = 0"

text \<open>\<open>a * b\<close>, \<open>a + b\<close> and \<open>Math.min(a, b)\<close> on numbers.\<close>

fun times_number :: "number \<Rightarrow> number \<Rightarrow> number" where
  "times_number NaN b = NaN"
| "times_number a NaN = NaN"
| "times_number (Num x) (Num y) = Num (x * y)"
| "times_number a b =
     (if sign a * sign b = 0 then NaN else if 0 < sign a * sign b then PosInfinity else NegInfinity)"

fun plus_number :: "number \<Rightarrow> number \<Rightarrow> number" where
  "plus_number NaN b = NaN"
| "plus_number a NaN = NaN"
| "plus_number (Num x) (Num y) = Num (x + y)"
| "plus_number PosInfinity NegInfinity = NaN"
| "plus_number NegInfinity PosInfinity = NaN"
| "plus_number (Num x) b = b"
| "plus_number a b = a"

fun Math_min :: "number \<Rightarrow> number \<Rightarrow> number" where
  "Math_min NaN b = NaN"
| "Math_min a NaN = NaN"
| "Math_min a b = (if lessEq a b then a else b)"

subsection \<open>The retry loop\<close>

text \<open>
  The options after the merge with the defaults, and the options as the caller gives
  them: each property is absent (\<open>None\<close>) or present, and a property that is present
  holds a number or \<open>undefined\<close>.
\<close>

record RetryOptions =
  maxRetries :: optional_number
  baseDelay :: optional_number
  maxDelay :: optional_number

record RetryOptionsArg =
  maxRetriesArg :: "optional_number option"
  baseDelayArg :: "optional_number option"
  maxDelayArg :: "optional_number option"

definition DEFAULT_RETRY_OPTIONS :: RetryOptions where
  "DEFAULT_RETRY_OPTIONS =
     \<lparr>maxRetries = Number (Num 3), baseDelay = Number (Num 1000), maxDelay = Number (Num 10000)\<rparr>"

text \<open>
  \<open>{ ...DEFAULT_RETRY_OPTIONS, ...options }\<close>: a property that is present in
  \<open>options\<close> replaces the default, also when its value is \<open>undefined\<close>.
\<close>

definition mergeOptions :: "RetryOptionsArg \<Rightarrow> RetryOptions" where
  "mergeOptions options =
     \<lparr>maxRetries = (case maxRetriesArg options of Some m \<Rightarrow> m | None \<Rightarrow> maxRetries DEFAULT_RETRY_OPTIONS),
      baseDelay = (case baseDelayArg options of Some b \<Rightarrow> b | None \<Rightarrow> baseDelay DEFAULT_RETRY_OPTIONS),
      maxDelay = (case maxDelayArg options of Some d \<Rightarrow> d | None \<Rightarrow> maxDelay DEFAULT_RETRY_OPTIONS)\<rparr>"

text \<open>
  The loop records what it does: each invocation of the operation and each sleep with
  the delay it is given.
\<close>

datatype retry_event = Invoke nat | Sleep number

text \<open>
  \<open>Math.min(opts.baseDelay * Math.pow(2, attempt) + Math.random() * 1000, opts.maxDelay)\<close>,
  where \<open>random attempt\<close> is the value \<open>Math.random()\<close> returns after attempt
  \<open>attempt\<close> has failed.
\<close>

definition backoffDelay :: "RetryOptions \<Rightarrow> (nat \<Rightarrow> real) \<Rightarrow> nat \<Rightarrow> number" where
  "backoffDelay opts random attempt =
     Math_min (plus_number (times_number (toNumber (baseDelay opts)) (Num (2 ^ attempt)))
                 (Num (random attempt * 1000)))
       (toNumber (maxDelay opts))"

text \<open>
  The \<open>for\<close> loop and the \<open>throw\<close> after it. \<open>fn k\<close> is the outcome of the
  invocation made by attempt \<open>k\<close>; \<open>trace\<close> holds the events so far. The loop need
  not end (\<open>maxRetries: Infinity\<close> with an operation that always fails): the result is
  then \<open>None\<close>.
\<close>

partial_function (option) retry_loop ::
  "(nat \<Rightarrow> thrown + 'a) \<Rightarrow> (nat \<Rightarrow> real) \<Rightarrow> RetryOptions \<Rightarrow> nat \<Rightarrow> error option
     \<Rightarrow> retry_event list \<Rightarrow> ((error + 'a) \<times> retry_event list) option" where
  "retry_loop fn random opts attempt lastError trace =
     (if lessEq (Num (real attempt)) (toNumber (maxRetries opts)) then
        (case fn attempt of
           Inr v \<Rightarrow> Some (Inr v, trace @ [Invoke attempt])
         | Inl err \<Rightarrow>
             (if strictEquals (Num (real attempt)) (maxRetries opts)
              then Some (Inl (as_error err), trace @ [Invoke attempt])
              else retry_loop fn random opts (Suc attempt) (Some (as_error err))
                     (trace @ [Invoke attempt, Sleep (backoffDelay opts random attempt)])))
      else Some (Inl (case lastError of Some e \<Rightarrow> e | None \<Rightarrow> Error ''Retry failed''), trace))"

definition retryWithBackoff ::
  "(nat \<Rightarrow> thrown + 'a) \<Rightarrow> (nat \<Rightarrow> real) \<Rightarrow> RetryOptionsArg
     \<Rightarrow> ((error + 'a) \<times> retry_event list) option" where
  "retryWithBackoff fn random options = retry_loop fn random (mergeOptions options) 0 None []"

text \<open>
  The events of the attempts \<open>a .. k\<close> when every attempt before \<open>k\<close> failed and was
  followed by its sleep, and attempt \<open>k\<close> was the last one made.
\<close>

definition attempts_log :: "(nat \<Rightarrow> number) \<Rightarrow> nat \<Rightarrow> nat \<Rightarrow> retry_event list" where
  "attempts_log delay a k =
     concat (map (\<lambda>i. [Invoke i, Sleep (delay i)]) [a..<k]) @ [Invoke k]"

fun is_invoke :: "retry_event \<Rightarrow> bool" where
  "is_invoke (Invoke k) = True"
| "is_invoke (Sleep d) = False"

section \<open>AI card engine (card/ai-card.ts)\<close>

datatype AICardStatus = PROCESSING | INPUTING | FINISHED | EXECUTING | FAILED

record DingTalkConfig =
  clientId :: string
  robotCode :: string
  cardTemplateId :: string

record AICardTarget =
  accountId :: string
  conversationId :: string
  isGroup :: bool
  userId :: "string option"

record AICardInstance =
  cardInstanceId :: string
  accessToken :: string
  conversationId :: string
  accountId :: string
  createdAt :: int
  lastUpdated :: int
  state :: AICardStatus
  config :: DingTalkConfig
  inputingStarted :: bool

definition TOKEN_REFRESH_THRESHOLD :: int where
  "TOKEN_REFRESH_THRESHOLD = 90 * 60 * 1000"

definition isCardInTerminalState :: "AICardStatus \<Rightarrow> bool" where
  "isCardInTerminalState st = (st = FINISHED \<or> st = FAILED)"

subsection \<open>Creation\<close>

text \<open>
  The environment of one \<open>createAICard\<close> call: the outcome of \<open>getAccessToken\<close>, the
  UUID drawn, the outcome of each attempt of the \<open>createAndDeliver\<close> request (made through
  \<open>retryWithBackoff\<close> with \<open>maxRetries: 2\<close>), the random numbers of the backoff, and
  the two clock readings of the instance literal. With \<open>maxRetries: 2\<close> the retry
  returns after at most three attempts (lemma \<open>createAICard_retry_returns\<close>), so its
  result is never \<open>None\<close>.
\<close>

record create_env =
  token_result :: "error + string"
  uuid :: string
  post_result :: "nat \<Rightarrow> thrown + unit"
  backoff_random :: "nat \<Rightarrow> real"
  now_createdAt :: int
  now_lastUpdated :: int

definition createAICard :: "create_env \<Rightarrow> DingTalkConfig \<Rightarrow> AICardTarget \<Rightarrow> AICardInstance option" where
  "createAICard env cfg target =
     (case token_result env of
        Inl e \<Rightarrow> None
      | Inr token \<Rightarrow>
          (case retryWithBackoff (post_result env) (backoff_random env)
                  \<lparr>maxRetriesArg = Some (Number (Num 2)), baseDelayArg = None, maxDelayArg = None\<rparr> of
             None \<Rightarrow> None
           | Some (Inl e, events) \<Rightarrow> None
           | Some (Inr response, events) \<Rightarrow>
               Some \<lparr>cardInstanceId = ''card_'' @ uuid env,
                     accessToken = token,
                     conversationId = AICardTarget.conversationId target,
                     accountId = AICardTarget.accountId target,
                     createdAt = now_createdAt env,
                     lastUpdated = now_lastUpdated env,
                     state = PROCESSING,
                     config = cfg,
                     inputingStarted = False\<rparr>))"

subsection \<open>Streaming updates\<close>

text \<open>
  The requests a push issues, in order, each with its outcome:
  \<open>TokenFetch\<close> is a call of \<open>getAccessToken\<close>;
  \<open>InstancesPut outTrackId token flowStatus msgContent\<close> is \<open>PUT /v1.0/card/instances\<close>;
  \<open>StreamingPut outTrackId token guid content isFinalize\<close> is \<open>PUT /v1.0/card/streaming\<close>
  (always with \<open>isFull: true\<close>).
\<close>

datatype event =
    TokenFetch "error + string"
  | InstancesPut string string AICardStatus string "error option"
  | StreamingPut string string string string bool "error option"

text \<open>
  The environment of one \<open>streamAICard\<close> call. Each remote call site is reached at most
  once per call, so the environment gives one outcome per site: the refresh of a stale
  token, the switch to INPUTING, the content update, the refresh after a 401 and the
  retried update. \<open>now_entry\<close> is the clock at entry, \<open>now_update\<close> the clock when
  \<open>lastUpdated\<close> is written.
\<close>

record push_env =
  now_entry :: int
  stale_refresh :: "error + string"
  inputing_put :: "error option"
  guid :: string
  stream_put :: "error option"
  refresh_401 :: "error + string"
  retry_put :: "error option"
  now_update :: int

text \<open>\<open>axios.isAxiosError(error) && error.response?.status === 401\<close>\<close>

definition is401 :: "error \<Rightarrow> bool" where
  "is401 e = (e = AxiosError (Some 401))"

text \<open>Lines 160-170: a token older than 90 minutes is refreshed; a failed refresh is only logged.\<close>

definition refreshStaleToken :: "push_env \<Rightarrow> AICardInstance \<Rightarrow> AICardInstance \<times> event list" where
  "refreshStaleToken env crd =
     (if now_entry env - createdAt crd > TOKEN_REFRESH_THRESHOLD then
        (case stale_refresh env of
           Inr tok \<Rightarrow> (crd\<lparr>accessToken := tok\<rparr>, [TokenFetch (Inr tok)])
         | Inl e \<Rightarrow> (crd, [TokenFetch (Inl e)]))
      else (crd, []))"

text \<open>
  Lines 174-209: before the first streaming update the card is switched to INPUTING. A
  failure is logged and thrown again; the flag is set only after success.
\<close>

definition switchToInputing ::
  "push_env \<Rightarrow> AICardInstance \<Rightarrow> (error + unit) \<times> AICardInstance \<times> event list" where
  "switchToInputing env crd =
     (if \<not> inputingStarted crd then
        (case inputing_put env of
           Some e \<Rightarrow>
             (Inl e, crd,
              [InstancesPut (cardInstanceId crd) (accessToken crd) INPUTING [] (Some e)])
         | None \<Rightarrow>
             (Inr (), crd\<lparr>inputingStarted := True\<rparr>,
              [InstancesPut (cardInstanceId crd) (accessToken crd) INPUTING [] None]))
      else (Inr (), crd, []))"

text \<open>Lines 236-241 and 256-261: the state update after a successful content update.\<close>

definition markUpdated :: "int \<Rightarrow> bool \<Rightarrow> AICardInstance \<Rightarrow> AICardInstance" where
  "markUpdated now finished crd =
     (let card1 = crd\<lparr>lastUpdated := now\<rparr>
      in if finished then card1\<lparr>state := FINISHED\<rparr>
         else if state card1 = PROCESSING then card1\<lparr>state := INPUTING\<rparr>
         else card1)"

text \<open>Lines 268-269: the state update on the failure path.\<close>

definition markFailed :: "int \<Rightarrow> AICardInstance \<Rightarrow> AICardInstance" where
  "markFailed now crd = crd\<lparr>state := FAILED, lastUpdated := now\<rparr>"

text \<open>
  Lines 212-284: the content update. On a 401 the token is fetched again and the same body
  is sent once more; when the fetch or the second request fails, or on any other error, the
  card is marked failed and the error of the first request is thrown.
\<close>

definition updateContent ::
  "push_env \<Rightarrow> AICardInstance \<Rightarrow> string \<Rightarrow> bool \<Rightarrow> (error + unit) \<times> AICardInstance \<times> event list" where
  "updateContent env crd content finished =
     (case stream_put env of
        None \<Rightarrow>
          (Inr (), markUpdated (now_update env) finished crd,
           [StreamingPut (cardInstanceId crd) (accessToken crd) (guid env) content finished None])
      | Some e \<Rightarrow>
          (let first = StreamingPut (cardInstanceId crd) (accessToken crd) (guid env)
                         content finished (Some e)
           in if is401 e then
                (case refresh_401 env of
                   Inr tok \<Rightarrow>
                     (let card1 = crd\<lparr>accessToken := tok\<rparr>;
                          second = StreamingPut (cardInstanceId card1) (accessToken card1) (guid env)
                                     content finished (retry_put env)
                      in case retry_put env of
                           None \<Rightarrow>
                             (Inr (), markUpdated (now_update env) finished card1,
                              [first, TokenFetch (Inr tok), second])
                         | Some retryError \<Rightarrow>
                             (Inl e, markFailed (now_update env) card1,
                              [first, TokenFetch (Inr tok), second]))
                 | Inl retryError \<Rightarrow>
                     (Inl e, markFailed (now_update env) crd, [first, TokenFetch (Inl retryError)]))
              else (Inl e, markFailed (now_update env) crd, [first])))"

definition streamAICard ::
  "push_env \<Rightarrow> AICardInstance \<Rightarrow> string \<Rightarrow> bool \<Rightarrow> (error + unit) \<times> AICardInstance \<times> event list" where
  "streamAICard env crd content finished =
     (case refreshStaleToken env crd of
        (card1, tr1) \<Rightarrow>
          (case switchToInputing env card1 of
             (Inl e, card2, tr2) \<Rightarrow> (Inl e, card2, tr1 @ tr2)
           | (Inr u, card2, tr2) \<Rightarrow>
               (case updateContent env card2 content finished of
                  (r, card3, tr3) \<Rightarrow> (r, card3, tr1 @ tr2 @ tr3))))"

text \<open>
  \<open>finishAICard\<close>: the final push, then the status update to FINISHED, whose failure
  (\<open>finish_put\<close>) is logged and not thrown.
\<close>

definition finishAICard ::
  "push_env \<Rightarrow> error option \<Rightarrow> AICardInstance \<Rightarrow> string
     \<Rightarrow> (error + unit) \<times> AICardInstance \<times> event list" where
  "finishAICard env finish_put crd content =
     (case streamAICard env crd content True of
        (Inl e, card1, tr) \<Rightarrow> (Inl e, card1, tr)
      | (Inr u, card1, tr) \<Rightarrow>
          (Inr (), card1,
           tr @ [InstancesPut (cardInstanceId card1) (accessToken card1) FINISHED content finish_put]))"

text \<open>
  A sequence of pushes on one instance, each with its environment, content and finalize
  flag. The caller may go on after a push has thrown, so the run does not stop at an error.
\<close>

fun run_pushes ::
  "AICardInstance \<Rightarrow> (push_env \<times> string \<times> bool) list \<Rightarrow> AICardInstance \<times> event list" where
  "run_pushes crd [] = (crd, [])"
| "run_pushes crd ((env, content, finished) # rest) =
     (case streamAICard env crd content finished of
        (r, card1, tr) \<Rightarrow>
          (case run_pushes card1 rest of (card2, tr2) \<Rightarrow> (card2, tr @ tr2)))"

text \<open>
  Two abbreviations for the proofs: the events of a push before its content update (the
  refresh of a stale token and the switch), and the instance as the content update finds it.
\<close>

definition prelude :: "push_env \<Rightarrow> AICardInstance \<Rightarrow> event list" where
  "prelude env crd =
     snd (refreshStaleToken env crd) @ snd (snd (switchToInputing env (fst (refreshStaleToken env crd))))"

definition ready :: "push_env \<Rightarrow> AICardInstance \<Rightarrow> AICardInstance" where
  "ready env crd = (fst (refreshStaleToken env crd))\<lparr>inputingStarted := True\<rparr>"

fun is_inputing_put :: "event \<Rightarrow> bool" where
  "is_inputing_put (InstancesPut i t st c r) = (st = INPUTING)"
| "is_inputing_put ev = False"

fun is_inputing_ok :: "event \<Rightarrow> bool" where
  "is_inputing_ok (InstancesPut i t st c r) = (st = INPUTING \<and> r = None)"
| "is_inputing_ok ev = False"

fun is_streaming_put :: "event \<Rightarrow> bool" where
  "is_streaming_put (StreamingPut i t g c f r) = True"
| "is_streaming_put ev = False"

section \<open>AI card cache (card/card-cache.ts)\<close>

record card_cache =
  cardInstances :: "AICardInstance jsmap"
  activeCardsByTarget :: "string jsmap"

definition CARD_CACHE_TTL :: int where
  "CARD_CACHE_TTL = 60 * 60 * 1000"

definition getTargetKey :: "string \<Rightarrow> string \<Rightarrow> string" where
  "getTargetKey accId convId = accId @ '':'' @ convId"

text \<open>
  The card to reuse for a target key, if any: the mapped identifier must be truthy (a
  non-empty string), the instance must be cached and must not be in a terminal state.
\<close>

definition getOrCreateCard ::
  "create_env \<Rightarrow> DingTalkConfig \<Rightarrow> AICardTarget \<Rightarrow> card_cache \<Rightarrow> AICardInstance option \<times> card_cache" where
  "getOrCreateCard env cfg target cache =
     (let targetKey = getTargetKey (AICardTarget.accountId target) (AICardTarget.conversationId target);
          existingCardId = map_of (activeCardsByTarget cache) targetKey;
          reused =
            (case existingCardId of
               None \<Rightarrow> None
             | Some cid \<Rightarrow>
                 if cid = [] then None
                 else
                   (case map_of (cardInstances cache) cid of
                      None \<Rightarrow> None
                    | Some existingCard \<Rightarrow>
                        if \<not> isCardInTerminalState (state existingCard) then Some existingCard
                        else None))
      in case reused of
           Some existingCard \<Rightarrow> (Some existingCard, cache)
         | None \<Rightarrow>
             (let cache1 =
                    (case existingCardId of
                       None \<Rightarrow> cache
                     | Some cid \<Rightarrow>
                         if cid = [] then cache
                         else cache\<lparr>activeCardsByTarget :=
                                      AList.delete targetKey (activeCardsByTarget cache)\<rparr>)
              in case createAICard env cfg target of
                   None \<Rightarrow> (None, cache1)
                 | Some newCard \<Rightarrow>
                     (Some newCard,
                      cache1\<lparr>cardInstances :=
                               AList.update (cardInstanceId newCard) newCard (cardInstances cache1),
                             activeCardsByTarget :=
                               AList.update targetKey (cardInstanceId newCard)
                                 (activeCardsByTarget cache1)\<rparr>)))"

definition getActiveCardForTarget ::
  "string \<Rightarrow> string \<Rightarrow> card_cache \<Rightarrow> AICardInstance option \<times> card_cache" where
  "getActiveCardForTarget accId convId cache =
     (let targetKey = getTargetKey accId convId
      in case map_of (activeCardsByTarget cache) targetKey of
           None \<Rightarrow> (None, cache)
         | Some cardId \<Rightarrow>
             if cardId = [] then (None, cache)
             else
               (case map_of (cardInstances cache) cardId of
                  None \<Rightarrow>
                    (None, cache\<lparr>activeCardsByTarget :=
                                   AList.delete targetKey (activeCardsByTarget cache)\<rparr>)
                | Some crd \<Rightarrow>
                    if isCardInTerminalState (state crd) then
                      (None, cache\<lparr>activeCardsByTarget :=
                                     AList.delete targetKey (activeCardsByTarget cache)\<rparr>)
                    else (Some crd, cache)))"

definition updateCardState :: "int \<Rightarrow> string \<Rightarrow> AICardStatus \<Rightarrow> card_cache \<Rightarrow> card_cache" where
  "updateCardState now cardId st cache =
     (case map_of (cardInstances cache) cardId of
        None \<Rightarrow> cache
      | Some crd \<Rightarrow>
          cache\<lparr>cardInstances :=
                  AList.update cardId (crd\<lparr>state := st, lastUpdated := now\<rparr>) (cardInstances cache)\<rparr>)"

definition removeActiveCard :: "string \<Rightarrow> string \<Rightarrow> card_cache \<Rightarrow> card_cache" where
  "removeActiveCard accId convId cache =
     cache\<lparr>activeCardsByTarget := AList.delete (getTargetKey accId convId) (activeCardsByTarget cache)\<rparr>"

definition clearAllCache :: "card_cache \<Rightarrow> card_cache" where
  "clearAllCache cache = \<lparr>cardInstances = [], activeCardsByTarget = []\<rparr>"

text \<open>
  \<open>cleanupCardCache\<close>: every terminal instance not updated for an hour is deleted,
  together with the first mapping to it.
\<close>

fun removeFirstMapping :: "string \<Rightarrow> string jsmap \<Rightarrow> string jsmap" where
  "removeFirstMapping cardId [] = []"
| "removeFirstMapping cardId ((targetKey, mappedCardId) # rest) =
     (if mappedCardId = cardId then rest
      else (targetKey, mappedCardId) # removeFirstMapping cardId rest)"

definition cleanupCardCache :: "int \<Rightarrow> card_cache \<Rightarrow> card_cache" where
  "cleanupCardCache now cache =
     foldl (\<lambda>c (cardId, crd).
              if isCardInTerminalState (state crd) \<and> now - lastUpdated crd > CARD_CACHE_TTL
              then c\<lparr>cardInstances := AList.delete cardId (cardInstances c),
                     activeCardsByTarget := removeFirstMapping cardId (activeCardsByTarget c)\<rparr>
              else c)
       cache (cardInstances cache)"

text \<open>Every identifier the target map holds is a truthy string.\<close>

definition ids_truthy :: "card_cache \<Rightarrow> bool" where
  "ids_truthy cache = ([] \<notin> snd ` set (activeCardsByTarget cache))"

section \<open>Strings\<close>

text \<open>
  A \<open>char\<close> stands for one code unit of a JavaScript string (below 256). The white space
  that \<open>trim\<close> removes: tab, line feed, vertical tab, form feed, carriage return, space and
  no-break space. The line terminators that \<open>.\<close> does not match in a regular expression:
  line feed and carriage return.
\<close>

definition isWhiteSpace :: "char \<Rightarrow> bool" where
  "isWhiteSpace c = (of_char c \<in> {9, 10, 11, 12, 13, 32, 160 :: nat})"

definition isLineTerminator :: "char \<Rightarrow> bool" where
  "isLineTerminator c = (of_char c \<in> {10, 13 :: nat})"

definition trim :: "string \<Rightarrow> string" where
  "trim s = rev (dropWhile isWhiteSpace (rev (dropWhile isWhiteSpace s)))"

text \<open>\<open>s.split('\n')\<close>: the pieces between line feeds, at least one piece.\<close>

fun split_lines :: "string \<Rightarrow> string list" where
  "split_lines [] = [[]]"
| "split_lines (c # cs) =
     (if c = CHR 0x0A then [] # split_lines cs
      else (case split_lines cs of [] \<Rightarrow> [[c]] | piece # pieces \<Rightarrow> (c # piece) # pieces))"

text \<open>\<open>s.startsWith(p)\<close>\<close>

definition startsWith :: "string \<Rightarrow> string \<Rightarrow> bool" where
  "startsWith s p = (take (length p) s = p)"

section \<open>Gateway stream consumer (card/streaming.ts)\<close>

text \<open>
  What \<open>JSON.parse\<close> returns. An object is the list of its own properties. \<open>JSON.parse\<close>
  itself is a parameter of the model: \<open>parse s = None\<close> when it throws.
\<close>

datatype json = JNull | JBool bool | JNum real | JStr string | JArr "json list"
  | JObj "(string \<times> json) list"

text \<open>
  Property access \<open>v.name\<close> on a value that is neither \<open>null\<close> nor \<open>undefined\<close>, for
  the names this program reads (\<open>choices\<close>, \<open>delta\<close>, \<open>content\<close>, \<open>path\<close>,
  \<open>fileName\<close>, \<open>fileType\<close>), which only an object can have as a property;
  \<open>None\<close> is \<open>undefined\<close>.
\<close>

fun getProp :: "string \<Rightarrow> json \<Rightarrow> json option" where
  "getProp name (JObj props) = map_of props name"
| "getProp name v = None"

text \<open>Element access \<open>v[0]\<close> on a value that is neither \<open>null\<close> nor \<open>undefined\<close>.\<close>

fun getIndex0 :: "json \<Rightarrow> json option" where
  "getIndex0 (JArr []) = None"
| "getIndex0 (JArr (x # xs)) = Some x"
| "getIndex0 (JStr []) = None"
| "getIndex0 (JStr (c # cs)) = Some (JStr [c])"
| "getIndex0 (JObj props) = map_of props ''0''"
| "getIndex0 v = None"

text \<open>Optional chaining: \<open>undefined\<close> when the base is \<open>null\<close> or \<open>undefined\<close>.\<close>

fun optChain :: "(json \<Rightarrow> json option) \<Rightarrow> json option \<Rightarrow> json option" where
  "optChain f None = None"
| "optChain f (Some JNull) = None"
| "optChain f (Some v) = f v"

text \<open>
  \<open>chunk.choices?.[0]?.delta?.content\<close>. The first access is not optional: on
  \<open>null\<close> it throws a \<open>TypeError\<close> (outer \<open>None\<close>).
\<close>

definition deltaContent :: "json \<Rightarrow> json option option" where
  "deltaContent chunk =
     (if chunk = JNull then None
      else Some (optChain (getProp ''content'')
                   (optChain (getProp ''delta'')
                      (optChain getIndex0 (getProp ''choices'' chunk)))))"

text \<open>The truth value of \<open>if (content)\<close>.\<close>

fun truthy :: "json option \<Rightarrow> bool" where
  "truthy None = False"
| "truthy (Some JNull) = False"
| "truthy (Some (JBool b)) = b"
| "truthy (Some (JNum r)) = (r \<noteq> 0)"
| "truthy (Some (JStr s)) = (s \<noteq> [])"
| "truthy (Some (JArr xs)) = True"
| "truthy (Some (JObj props)) = True"

text \<open>
  The log line of the first five chunks calls \<open>content.slice(0, 30)\<close>, which only strings
  and arrays have; on another value it throws inside the \<open>try\<close>.
\<close>

fun hasSlice :: "json \<Rightarrow> bool" where
  "hasSlice (JStr s) = True"
| "hasSlice (JArr xs) = True"
| "hasSlice v = False"

text \<open>
  The \<open>for\<close> loop over the complete lines of one read. \<open>log_info\<close> tells whether
  \<open>log?.info\<close> is defined. The result: whether the sentinel was met (the generator
  returns), the chunk counter, and the fragments yielded, in order.
\<close>

fun processLines ::
  "(string \<Rightarrow> json option) \<Rightarrow> bool \<Rightarrow> nat \<Rightarrow> string list \<Rightarrow> bool \<times> nat \<times> json list" where
  "processLines parse log_info chunkCount [] = (False, chunkCount, [])"
| "processLines parse log_info chunkCount (line # rest) =
     (if \<not> startsWith line ''data: '' then processLines parse log_info chunkCount rest
      else
        (let data = trim (drop 6 line)
         in if data = ''[DONE]'' then (True, chunkCount, [])
            else
              (case parse data of
                 None \<Rightarrow> processLines parse log_info chunkCount rest
               | Some chunk \<Rightarrow>
                   (case deltaContent chunk of
                      None \<Rightarrow> processLines parse log_info chunkCount rest
                    | Some content \<Rightarrow>
                        if truthy content then
                          (if log_info \<and> chunkCount + 1 \<le> 5 \<and> \<not> hasSlice (the content)
                           then processLines parse log_info (chunkCount + 1) rest
                           else
                             (case processLines parse log_info (chunkCount + 1) rest of
                                (done, n, ys) \<Rightarrow> (done, n, the content # ys)))
                        else processLines parse log_info chunkCount rest))))"

text \<open>
  The \<open>while (true)\<close> loop over the reads: each decoded value is appended to the buffer,
  the buffer is split at line feeds, the last piece stays in the buffer.
\<close>

fun readLoop ::
  "(string \<Rightarrow> json option) \<Rightarrow> bool \<Rightarrow> string \<Rightarrow> nat \<Rightarrow> string list \<Rightarrow> json list" where
  "readLoop parse log_info buffer chunkCount [] = []"
| "readLoop parse log_info buffer chunkCount (v # reads) =
     (let lines = split_lines (buffer @ v)
      in case processLines parse log_info chunkCount (butlast lines) of
           (done, n, ys) \<Rightarrow>
             if done then ys else ys @ readLoop parse log_info (last lines) n reads)"

record GatewayResponse =
  resp_status :: nat
  resp_ok :: bool
  resp_body :: "string list option"
  resp_text :: string

text \<open>
  The generator: what it throws or that it ends, and the fragments it yields. A response
  that is not \<open>ok\<close> or has no body is an error carrying the status and the body text.
\<close>

definition streamFromGateway ::
  "(string \<Rightarrow> json option) \<Rightarrow> bool \<Rightarrow> error + GatewayResponse \<Rightarrow> (error + unit) \<times> json list" where
  "streamFromGateway parse log_info fetched =
     (case fetched of
        Inl e \<Rightarrow> (Inl e, [])
      | Inr response \<Rightarrow>
          (case resp_body response of
             None \<Rightarrow>
               (Inl (Error (''Gateway error: '' @ string_of_nat (resp_status response) @ '' - '' @
                            ''(no body)'')), [])
           | Some reads \<Rightarrow>
               if \<not> resp_ok response then
                 (Inl (Error (''Gateway error: '' @ string_of_nat (resp_status response) @ '' - '' @
                              resp_text response)), [])
               else (Inr (), readLoop parse log_info [] 0 reads)))"

text \<open>A value the consumer may yield: the truthy delta content of some parsed data.\<close>

definition fragment_of :: "(string \<Rightarrow> json option) \<Rightarrow> json \<Rightarrow> bool" where
  "fragment_of parse v =
     (\<exists>data chunk. parse data = Some chunk \<and> deltaContent chunk = Some (Some v) \<and> truthy (Some v))"

section \<open>Media markers (post-process/file.ts, video.ts, audio.ts)\<close>

subsection \<open>The marker pattern\<close>

datatype marker_kind = FILE | VIDEO | AUDIO

fun tagName :: "marker_kind \<Rightarrow> string" where
  "tagName FILE = ''DINGTALK_FILE''"
| "tagName VIDEO = ''DINGTALK_VIDEO''"
| "tagName AUDIO = ''DINGTALK_AUDIO''"

text \<open>
  The pattern of a kind is \<open>\[TAG\]({.*?})\[\/TAG\]\<close> with the flag \<open>g\<close>: the opening
  tag and a brace, the shortest run of characters other than line terminators, a brace and
  the closing tag.
\<close>

definition markerOpen :: "marker_kind \<Rightarrow> string" where
  "markerOpen k = ''['' @ tagName k @ '']{''"

definition markerClose :: "marker_kind \<Rightarrow> string" where
  "markerClose k = ''}[/'' @ tagName k @ '']''"

text \<open>
  The lazy \<open>.*?\<close> followed by the rest of the pattern: at each position the rest is
  tried first, then one more character is taken, unless it is a line terminator. The
  result is the run matched by \<open>.*?\<close> and the input after the match.
\<close>

fun lazyBody :: "string \<Rightarrow> string \<Rightarrow> (string \<times> string) option" where
  "lazyBody close [] = None"
| "lazyBody close (c # cs) =
     (if startsWith (c # cs) close then Some ([], drop (length close) (c # cs))
      else if isLineTerminator c then None
      else (case lazyBody close cs of
              None \<Rightarrow> None
            | Some (body, rest) \<Rightarrow> Some (c # body, rest)))"

text \<open>A match that starts at the head of the input: its group 1 and the input after it.\<close>

definition matchAt :: "marker_kind \<Rightarrow> string \<Rightarrow> (string \<times> string) option" where
  "matchAt k s =
     (if startsWith s (markerOpen k) then
        (case lazyBody (markerClose k) (drop (length (markerOpen k)) s) of
           None \<Rightarrow> None
         | Some (body, rest) \<Rightarrow> Some (''{'' @ body @ ''}'', rest))
      else None)"

lemma lazyBody_shorter: "lazyBody close s = Some (body, rest) \<Longrightarrow> length rest \<le> length s"
proof (induction s arbitrary: body)
  case Nil
  then show ?case by simp
next
  case (Cons c cs)
  then show ?case
    by (cases "lazyBody close cs") (auto split: if_splits)
qed

lemma matchAt_shorter: "matchAt k s = Some (g, rest) \<Longrightarrow> length rest < length s"
proof -
  assume m: "matchAt k s = Some (g, rest)"
  then have st: "startsWith s (markerOpen k)" by (simp add: matchAt_def split: if_splits)
  then have le: "length (markerOpen k) \<le> length s"
    by (metis startsWith_def length_take min.cobounded2 min.commute)
  have pos: "1 \<le> length (markerOpen k)" by (simp add: markerOpen_def)
  have "length (drop (length (markerOpen k)) s) = length s - length (markerOpen k)"
    by (rule length_drop)
  with le pos have d: "length (drop (length (markerOpen k)) s) < length s" by linarith
  from m st obtain body where "lazyBody (markerClose k) (drop (length (markerOpen k)) s) = Some (body, rest)"
    by (auto simp: matchAt_def split: option.splits)
  then have "length rest \<le> length (drop (length (markerOpen k)) s)" by (rule lazyBody_shorter)
  with d show ?thesis by simp
qed

text \<open>\<open>[...content.matchAll(PATTERN)]\<close>: group 1 of every match, from left to right.\<close>

function matchAll :: "marker_kind \<Rightarrow> string \<Rightarrow> string list" where
  "matchAll k [] = []"
| "matchAll k (c # cs) =
     (case matchAt k (c # cs) of
        Some (g, rest) \<Rightarrow> g # matchAll k rest
      | None \<Rightarrow> matchAll k cs)"
  by pat_completeness auto
termination
  by (relation "measure (\<lambda>(k, s). length s)") (auto dest: matchAt_shorter)

text \<open>\<open>content.replace(PATTERN, '')\<close>: every match is deleted.\<close>

function removeAll :: "marker_kind \<Rightarrow> string \<Rightarrow> string" where
  "removeAll k [] = []"
| "removeAll k (c # cs) =
     (case matchAt k (c # cs) of
        Some (g, rest) \<Rightarrow> removeAll k rest
      | None \<Rightarrow> c # removeAll k cs)"
  by pat_completeness auto
termination
  by (relation "measure (\<lambda>(k, s). length s)") (auto dest: matchAt_shorter)

declare matchAll.simps(2) [simp del]
declare removeAll.simps(2) [simp del]

subsection \<open>Payloads, status lines and the environment of a pass\<close>

text \<open>
  \<open>JSON.parse(match[1]) as FileInfo\<close> (or \<open>VideoInfo\<close>, \<open>AudioInfo\<close>): the cast
  checks nothing, so the payload is whatever value the text denotes, and a property of it
  is any value, or \<open>undefined\<close> (\<open>None\<close>). Reading a property of \<open>null\<close> throws,
  inside the \<open>try\<close> of the first loop, as parsing a malformed text does: \<open>parsed\<close> is
  \<open>None\<close> in both cases.
\<close>

definition parsed :: "(string \<Rightarrow> json option) \<Rightarrow> string \<Rightarrow> json option" where
  "parsed parse m = (case parse m of None \<Rightarrow> None | Some v \<Rightarrow> if v = JNull then None else Some v)"

text \<open>\<open>v || d\<close>\<close>

definition orElse :: "json option \<Rightarrow> json \<Rightarrow> json" where
  "orElse v d = (case v of None \<Rightarrow> d | Some x \<Rightarrow> if truthy (Some x) then x else d)"

text \<open>
  The status lines. Each constructor stands for one message template of the source, with
  the value it shows: the \<open>fileName\<close> property as it is for a file, the base name of the
  path for an audio or a video (and the size in bytes for a file that is too large).
\<close>

datatype status_line =
    FileNotFound "json option" | FileTooLarge "json option" nat | FileUploadFailed "json option"
  | FileSent "json option" | FileError "json option"
  | AudioNotFound string | AudioUploadFailed string | AudioSent string | AudioError string
  | VideoNotFound string | VideoNoMetadata string | VideoNoThumbnail string
  | VideoUploadFailed string | CoverUploadFailed string | VideoSent string | VideoError string

datatype media_message =
    FileMessage string string "json option" json
  | AudioMessage string string string
  | VideoMessage string string string nat

record ProcessResult =
  resultContent :: string
  mediaMessages :: "media_message list"
  statusMessages :: "status_line list"

text \<open>
  What a pass throws: the \<open>TypeError\<close> of \<open>path.basename\<close> for an argument that is
  not a string.
\<close>

datatype pass_error = ERR_INVALID_ARG_TYPE

text \<open>
  The environment of a pass. \<open>jsonParse\<close> (\<open>None\<close> when \<open>JSON.parse\<close> throws) and
  \<open>basename\<close> are pure. The others read or change the world \<open>'w\<close> (file system,
  network, clock), which is threaded through the pass; \<open>Inl\<close> is a thrown error.
\<close>

record 'w media_env =
  jsonParse :: "string \<Rightarrow> json option"
  basename :: "string \<Rightarrow> string"
  existsSync :: "string \<Rightarrow> 'w \<Rightarrow> bool \<times> 'w"
  statSize :: "string \<Rightarrow> 'w \<Rightarrow> (error + nat) \<times> 'w"
  uploadMedia :: "string \<Rightarrow> string \<Rightarrow> 'w \<Rightarrow> (error + string option) \<times> 'w"
  sendMessage :: "media_message \<Rightarrow> 'w \<Rightarrow> (error + unit) \<times> 'w"
  videoMetadata :: "string \<Rightarrow> 'w \<Rightarrow> (error + nat option) \<times> 'w"
  thumbnailName :: "'w \<Rightarrow> string \<times> 'w"
  videoThumbnail :: "string \<Rightarrow> string \<Rightarrow> 'w \<Rightarrow> (error + string option) \<times> 'w"
  unlinkSync :: "string \<Rightarrow> 'w \<Rightarrow> (error + unit) \<times> 'w"

text \<open>
  \<open>fs.existsSync(v)\<close> for any value: false, without a look at the file system, when
  \<open>v\<close> is not a string.
\<close>

definition existsSyncValue :: "'w media_env \<Rightarrow> json option \<Rightarrow> 'w \<Rightarrow> bool \<times> 'w" where
  "existsSyncValue env v w = (case v of Some (JStr p) \<Rightarrow> existsSync env p w | _ \<Rightarrow> (False, w))"

text \<open>\<open>path.basename(v)\<close> for any value: it throws when \<open>v\<close> is not a string.\<close>

definition basenameValue :: "'w media_env \<Rightarrow> json option \<Rightarrow> pass_error + string" where
  "basenameValue env v =
     (case v of Some (JStr p) \<Rightarrow> Inr (basename env p) | _ \<Rightarrow> Inl ERR_INVALID_ARG_TYPE)"

definition MAX_FILE_SIZE :: nat where
  "MAX_FILE_SIZE = 20 * 1024 * 1024"

text \<open>\<open>target.isGroup ? target.conversationId : target.userId || target.conversationId\<close>\<close>

definition targetIdOf :: "AICardTarget \<Rightarrow> string" where
  "targetIdOf tgt =
     (if isGroup tgt then AICardTarget.conversationId tgt
      else (case userId tgt of
              None \<Rightarrow> AICardTarget.conversationId tgt
            | Some u \<Rightarrow> if u = [] then AICardTarget.conversationId tgt else u))"

text \<open>\<open>!oapiToken\<close>\<close>

definition noToken :: "string option \<Rightarrow> bool" where
  "noToken oapiToken = (case oapiToken of None \<Rightarrow> True | Some t \<Rightarrow> t = [])"

subsection \<open>File markers\<close>

text \<open>The first loop: the payloads that parse and have a truthy path and file name.\<close>

fun parseFileInfos :: "(string \<Rightarrow> json option) \<Rightarrow> string list \<Rightarrow> json list" where
  "parseFileInfos parse [] = []"
| "parseFileInfos parse (m # ms) =
     (case parsed parse m of
        None \<Rightarrow> parseFileInfos parse ms
      | Some fileInfo \<Rightarrow>
          if truthy (getProp ''path'' fileInfo) \<and> truthy (getProp ''fileName'' fileInfo)
          then fileInfo # parseFileInfos parse ms
          else parseFileInfos parse ms)"

text \<open>
  The body of the second loop for one file, on the list of status lines so far and the
  world. All of it is inside the \<open>try\<close>. \<open>fs.existsSync\<close> is false for a path that is
  not a string, so \<open>statSync\<close> and the upload are reached with a string only.
\<close>

definition fileStep ::
  "'w media_env \<Rightarrow> AICardTarget \<Rightarrow> json \<Rightarrow> status_line list \<times> 'w \<Rightarrow> status_line list \<times> 'w" where
  "fileStep env tgt fileInfo acc =
     (case acc of
        (msgs, w) \<Rightarrow>
          (let name = getProp ''fileName'' fileInfo
           in case getProp ''path'' fileInfo of
                Some (JStr p) \<Rightarrow>
                  (case existsSync env p w of
                     (False, w1) \<Rightarrow> (msgs @ [FileNotFound name], w1)
                   | (True, w1) \<Rightarrow>
                       (case statSize env p w1 of
                          (Inl e, w2) \<Rightarrow> (msgs @ [FileError name], w2)
                        | (Inr bytes, w2) \<Rightarrow>
                            if bytes > MAX_FILE_SIZE
                            then (msgs @ [FileTooLarge name bytes], w2)
                            else
                              (case uploadMedia env p ''file'' w2 of
                                 (Inl e, w3) \<Rightarrow> (msgs @ [FileError name], w3)
                               | (Inr None, w3) \<Rightarrow> (msgs @ [FileUploadFailed name], w3)
                               | (Inr (Some mediaId), w3) \<Rightarrow>
                                   if mediaId = []
                                   then (msgs @ [FileUploadFailed name], w3)
                                   else
                                     (case sendMessage env
                                             (FileMessage (targetIdOf tgt) mediaId name
                                                (orElse (getProp ''fileType'' fileInfo) (JStr ''file'')))
                                             w3 of
                                        (Inl e, w4) \<Rightarrow> (msgs @ [FileError name], w4)
                                      | (Inr u, w4) \<Rightarrow> (msgs @ [FileSent name], w4)))))
              | other \<Rightarrow> (msgs @ [FileNotFound name], w)))"

text \<open>Everything the pass does with the matches: the status lines and the world after.\<close>

definition fileStatuses ::
  "'w media_env \<Rightarrow> AICardTarget \<Rightarrow> string list \<Rightarrow> 'w \<Rightarrow> status_line list \<times> 'w" where
  "fileStatuses env tgt matches w =
     foldl (\<lambda>acc fileInfo. fileStep env tgt fileInfo acc) ([], w)
       (parseFileInfos (jsonParse env) matches)"

text \<open>A pass returns its result (\<open>Inr\<close>) or throws (\<open>Inl\<close>); the file pass never throws.\<close>

definition processFileMarkers ::
  "'w media_env \<Rightarrow> string option \<Rightarrow> AICardTarget \<Rightarrow> string \<Rightarrow> 'w
     \<Rightarrow> (pass_error + ProcessResult) \<times> 'w" where
  "processFileMarkers env oapiToken tgt content w =
     (if noToken oapiToken then
        (Inr \<lparr>resultContent = trim (removeAll FILE content), mediaMessages = [],
               statusMessages = []\<rparr>, w)
      else
        (case fileStatuses env tgt (matchAll FILE content) w of
           (msgs, w1) \<Rightarrow>
             (Inr \<lparr>resultContent = trim (removeAll FILE content), mediaMessages = [],
                    statusMessages = msgs\<rparr>, w1)))"

subsection \<open>Audio markers\<close>

text \<open>
  The first loop: a payload that parses goes to the audio files to send when its path is
  truthy and exists, and to the invalid ones (by its path, or \<open>unknown\<close>) otherwise.
\<close>

fun parseAudioInfos ::
  "'w media_env \<Rightarrow> string list \<Rightarrow> json list \<times> json list \<times> 'w \<Rightarrow> json list \<times> json list \<times> 'w" where
  "parseAudioInfos env [] acc = acc"
| "parseAudioInfos env (m # ms) (audioInfos, invalidAudios, w) =
     (case parsed (jsonParse env) m of
        None \<Rightarrow> parseAudioInfos env ms (audioInfos, invalidAudios, w)
      | Some audioInfo \<Rightarrow>
          if truthy (getProp ''path'' audioInfo) then
            (case existsSyncValue env (getProp ''path'' audioInfo) w of
               (True, w1) \<Rightarrow> parseAudioInfos env ms (audioInfos @ [audioInfo], invalidAudios, w1)
             | (False, w1) \<Rightarrow>
                 parseAudioInfos env ms
                   (audioInfos,
                    invalidAudios @ [orElse (getProp ''path'' audioInfo) (JStr ''unknown'')], w1))
          else
            parseAudioInfos env ms
              (audioInfos,
               invalidAudios @ [orElse (getProp ''path'' audioInfo) (JStr ''unknown'')], w))"

text \<open>
  The loop over the invalid paths, outside any \<open>try\<close>: one status line for each, made
  by \<open>line\<close> from the base name, unless \<open>path.basename\<close> throws.
\<close>

fun invalidLines ::
  "'w media_env \<Rightarrow> (string \<Rightarrow> status_line) \<Rightarrow> json list \<Rightarrow> pass_error + status_line list" where
  "invalidLines env line [] = Inr []"
| "invalidLines env line (invalidPath # rest) =
     (case basenameValue env (Some invalidPath) of
        Inl e \<Rightarrow> Inl e
      | Inr name \<Rightarrow>
          (case invalidLines env line rest of
             Inl e \<Rightarrow> Inl e
           | Inr lines \<Rightarrow> Inr (line name # lines)))"

text \<open>The \<open>try\<close> block for one audio file, with its path and base name.\<close>

definition audioStep ::
  "'w media_env \<Rightarrow> AICardTarget \<Rightarrow> string \<Rightarrow> string \<Rightarrow> status_line list \<times> 'w
     \<Rightarrow> status_line list \<times> 'w" where
  "audioStep env tgt p fileName acc =
     (case acc of
        (msgs, w) \<Rightarrow>
          (case uploadMedia env p ''voice'' w of
             (Inl e, w1) \<Rightarrow> (msgs @ [AudioError fileName], w1)
           | (Inr None, w1) \<Rightarrow> (msgs @ [AudioUploadFailed fileName], w1)
           | (Inr (Some mediaId), w1) \<Rightarrow>
               if mediaId = []
               then (msgs @ [AudioUploadFailed fileName], w1)
               else
                 (case sendMessage env (AudioMessage (targetIdOf tgt) mediaId ''60000'') w1 of
                    (Inl e, w2) \<Rightarrow> (msgs @ [AudioError fileName], w2)
                  | (Inr u, w2) \<Rightarrow> (msgs @ [AudioSent fileName], w2))))"

text \<open>
  The second loop: \<open>path.basename(audioInfo.path)\<close> is computed before the \<open>try\<close>
  and throws when the path is not a string.
\<close>

fun audioLoop ::
  "'w media_env \<Rightarrow> AICardTarget \<Rightarrow> json list \<Rightarrow> status_line list \<times> 'w
     \<Rightarrow> (pass_error + status_line list) \<times> 'w" where
  "audioLoop env tgt [] (msgs, w) = (Inr msgs, w)"
| "audioLoop env tgt (audioInfo # rest) (msgs, w) =
     (case getProp ''path'' audioInfo of
        Some (JStr p) \<Rightarrow> audioLoop env tgt rest (audioStep env tgt p (basename env p) (msgs, w))
      | other \<Rightarrow> (Inl ERR_INVALID_ARG_TYPE, w))"

definition audioStatuses ::
  "'w media_env \<Rightarrow> AICardTarget \<Rightarrow> string list \<Rightarrow> 'w \<Rightarrow> (pass_error + status_line list) \<times> 'w" where
  "audioStatuses env tgt matches w =
     (case parseAudioInfos env matches ([], [], w) of
        (audioInfos, invalidAudios, w1) \<Rightarrow>
          (case invalidLines env AudioNotFound invalidAudios of
             Inl e \<Rightarrow> (Inl e, w1)
           | Inr msgs \<Rightarrow> audioLoop env tgt audioInfos (msgs, w1)))"

definition processAudioMarkers ::
  "'w media_env \<Rightarrow> string option \<Rightarrow> AICardTarget \<Rightarrow> string \<Rightarrow> 'w
     \<Rightarrow> (pass_error + ProcessResult) \<times> 'w" where
  "processAudioMarkers env oapiToken tgt content w =
     (if noToken oapiToken then
        (Inr \<lparr>resultContent = trim (removeAll AUDIO content), mediaMessages = [],
               statusMessages = []\<rparr>, w)
      else
        (case audioStatuses env tgt (matchAll AUDIO content) w of
           (Inl e, w1) \<Rightarrow> (Inl e, w1)
         | (Inr msgs, w1) \<Rightarrow>
             (Inr \<lparr>resultContent = trim (removeAll AUDIO content), mediaMessages = [],
                    statusMessages = msgs\<rparr>, w1)))"

subsection \<open>Video markers\<close>

fun parseVideoInfos ::
  "'w media_env \<Rightarrow> string list \<Rightarrow> json list \<times> json list \<times> 'w \<Rightarrow> json list \<times> json list \<times> 'w" where
  "parseVideoInfos env [] acc = acc"
| "parseVideoInfos env (m # ms) (videoInfos, invalidVideos, w) =
     (case parsed (jsonParse env) m of
        None \<Rightarrow> parseVideoInfos env ms (videoInfos, invalidVideos, w)
      | Some videoInfo \<Rightarrow>
          if truthy (getProp ''path'' videoInfo) then
            (case existsSyncValue env (getProp ''path'' videoInfo) w of
               (True, w1) \<Rightarrow> parseVideoInfos env ms (videoInfos @ [videoInfo], invalidVideos, w1)
             | (False, w1) \<Rightarrow>
                 parseVideoInfos env ms
                   (videoInfos,
                    invalidVideos @ [orElse (getProp ''path'' videoInfo) (JStr ''unknown'')], w1))
          else
            parseVideoInfos env ms
              (videoInfos,
               invalidVideos @ [orElse (getProp ''path'' videoInfo) (JStr ''unknown'')], w))"

text \<open>The \<open>finally\<close> block: a thumbnail that was named and exists is deleted, errors ignored.\<close>

definition cleanupThumbnail :: "'w media_env \<Rightarrow> string \<Rightarrow> 'w \<Rightarrow> 'w" where
  "cleanupThumbnail env thumbnailPath w =
     (if thumbnailPath = [] then w
      else
        (case existsSync env thumbnailPath w of
           (False, w1) \<Rightarrow> w1
         | (True, w1) \<Rightarrow> snd (unlinkSync env thumbnailPath w1)))"

text \<open>
  The \<open>try\<close> block for one video, with its path and base name: the status line pushed,
  the thumbnail path at the time the block is left, and the world.
\<close>

definition videoTry ::
  "'w media_env \<Rightarrow> AICardTarget \<Rightarrow> string \<Rightarrow> string \<Rightarrow> 'w \<Rightarrow> status_line \<times> string \<times> 'w" where
  "videoTry env tgt p name w =
     (case videoMetadata env p w of
        (Inl e, w1) \<Rightarrow> (VideoError name, [], w1)
      | (Inr None, w1) \<Rightarrow> (VideoNoMetadata name, [], w1)
      | (Inr (Some duration), w1) \<Rightarrow>
          (case thumbnailName env w1 of
             (thumbnailPath, w2) \<Rightarrow>
               (case videoThumbnail env p thumbnailPath w2 of
                  (Inl e, w3) \<Rightarrow> (VideoError name, thumbnailPath, w3)
                | (Inr None, w3) \<Rightarrow> (VideoNoThumbnail name, thumbnailPath, w3)
                | (Inr (Some thumbnail), w3) \<Rightarrow>
                    if thumbnail = [] then (VideoNoThumbnail name, thumbnailPath, w3)
                    else
                      (case uploadMedia env p ''video'' w3 of
                         (Inl e, w4) \<Rightarrow> (VideoError name, thumbnailPath, w4)
                       | (Inr None, w4) \<Rightarrow> (VideoUploadFailed name, thumbnailPath, w4)
                       | (Inr (Some videoMediaId), w4) \<Rightarrow>
                           if videoMediaId = [] then (VideoUploadFailed name, thumbnailPath, w4)
                           else
                             (case uploadMedia env thumbnailPath ''image'' w4 of
                                (Inl e, w5) \<Rightarrow> (VideoError name, thumbnailPath, w5)
                              | (Inr None, w5) \<Rightarrow> (CoverUploadFailed name, thumbnailPath, w5)
                              | (Inr (Some picMediaId), w5) \<Rightarrow>
                                  if picMediaId = []
                                  then (CoverUploadFailed name, thumbnailPath, w5)
                                  else
                                    (case sendMessage env
                                            (VideoMessage (targetIdOf tgt) videoMediaId
                                               picMediaId duration) w5 of
                                       (Inl e, w6) \<Rightarrow> (VideoError name, thumbnailPath, w6)
                                     | (Inr u, w6) \<Rightarrow> (VideoSent name, thumbnailPath, w6)))))))"

definition videoStep ::
  "'w media_env \<Rightarrow> AICardTarget \<Rightarrow> string \<Rightarrow> string \<Rightarrow> status_line list \<times> 'w
     \<Rightarrow> status_line list \<times> 'w" where
  "videoStep env tgt p fileName acc =
     (case acc of
        (msgs, w) \<Rightarrow>
          (case videoTry env tgt p fileName w of
             (line, thumbnailPath, w1) \<Rightarrow> (msgs @ [line], cleanupThumbnail env thumbnailPath w1)))"

fun videoLoop ::
  "'w media_env \<Rightarrow> AICardTarget \<Rightarrow> json list \<Rightarrow> status_line list \<times> 'w
     \<Rightarrow> (pass_error + status_line list) \<times> 'w" where
  "videoLoop env tgt [] (msgs, w) = (Inr msgs, w)"
| "videoLoop env tgt (videoInfo # rest) (msgs, w) =
     (case getProp ''path'' videoInfo of
        Some (JStr p) \<Rightarrow> videoLoop env tgt rest (videoStep env tgt p (basename env p) (msgs, w))
      | other \<Rightarrow> (Inl ERR_INVALID_ARG_TYPE, w))"

definition videoStatuses ::
  "'w media_env \<Rightarrow> AICardTarget \<Rightarrow> string list \<Rightarrow> 'w \<Rightarrow> (pass_error + status_line list) \<times> 'w" where
  "videoStatuses env tgt matches w =
     (case parseVideoInfos env matches ([], [], w) of
        (videoInfos, invalidVideos, w1) \<Rightarrow>
          (case invalidLines env VideoNotFound invalidVideos of
             Inl e \<Rightarrow> (Inl e, w1)
           | Inr msgs \<Rightarrow> videoLoop env tgt videoInfos (msgs, w1)))"

definition processVideoMarkers ::
  "'w media_env \<Rightarrow> string option \<Rightarrow> AICardTarget \<Rightarrow> string \<Rightarrow> 'w
     \<Rightarrow> (pass_error + ProcessResult) \<times> 'w" where
  "processVideoMarkers env oapiToken tgt content w =
     (if noToken oapiToken then
        (Inr \<lparr>resultContent = trim (removeAll VIDEO content), mediaMessages = [],
               statusMessages = []\<rparr>, w)
      else
        (case videoStatuses env tgt (matchAll VIDEO content) w of
           (Inl e, w1) \<Rightarrow> (Inl e, w1)
         | (Inr msgs, w1) \<Rightarrow>
             (Inr \<lparr>resultContent = trim (removeAll VIDEO content), mediaMessages = [],
                    statusMessages = msgs\<rparr>, w1)))"

text \<open>The pass of a kind, and what it does with the matches.\<close>

fun processMarkers ::
  "marker_kind \<Rightarrow> 'w media_env \<Rightarrow> string option \<Rightarrow> AICardTarget \<Rightarrow> string \<Rightarrow> 'w
     \<Rightarrow> (pass_error + ProcessResult) \<times> 'w" where
  "processMarkers FILE = processFileMarkers"
| "processMarkers VIDEO = processVideoMarkers"
| "processMarkers AUDIO = processAudioMarkers"

fun statusesOf ::
  "marker_kind \<Rightarrow> 'w media_env \<Rightarrow> AICardTarget \<Rightarrow> string list \<Rightarrow> 'w
     \<Rightarrow> (pass_error + status_line list) \<times> 'w" where
  "statusesOf FILE env tgt matches w =
     (case fileStatuses env tgt matches w of (msgs, w1) \<Rightarrow> (Inr msgs, w1))"
| "statusesOf VIDEO env tgt matches w = videoStatuses env tgt matches w"
| "statusesOf AUDIO env tgt matches w = audioStatuses env tgt matches w"

subsection \<open>Payloads that parse, are accepted, or make a pass throw\<close>

text \<open>
  The payload parses: \<open>JSON.parse\<close> does not throw and its value is not \<open>null\<close>
  (a payload in braces that parses is an object).
\<close>

definition parses :: "(string \<Rightarrow> json option) \<Rightarrow> string \<Rightarrow> bool" where
  "parses parse m = (case parse m of None \<Rightarrow> False | Some v \<Rightarrow> v \<noteq> JNull)"


fun isString :: "json option \<Rightarrow> bool" where
  "isString (Some (JStr s)) = True"
| "isString v = False"

text \<open>A payload that parses and has a truthy path that is not a string.\<close>

definition badPath :: "(string \<Rightarrow> json option) \<Rightarrow> string \<Rightarrow> bool" where
  "badPath parse m =
     (case parse m of
        None \<Rightarrow> False
      | Some info \<Rightarrow> truthy (getProp ''path'' info) \<and> \<not> isString (getProp ''path'' info))"

text \<open>The matches on which the pass of the kind throws: audio and video only.\<close>

definition rejects :: "marker_kind \<Rightarrow> (string \<Rightarrow> json option) \<Rightarrow> string list \<Rightarrow> bool" where
  "rejects k parse ms = (k \<noteq> FILE \<and> list_ex (badPath parse) ms)"

subsection \<open>Texts built from plain text and markers\<close>

text \<open>
  A text as a sequence of pieces: plain text, or a marker given by the characters between
  its braces.
\<close>

datatype piece = Plain string | Marker string

fun render :: "marker_kind \<Rightarrow> piece list \<Rightarrow> string" where
  "render k [] = []"
| "render k (Plain t # ps) = t @ render k ps"
| "render k (Marker b # ps) = markerOpen k @ b @ markerClose k @ render k ps"

fun payloads :: "piece list \<Rightarrow> string list" where
  "payloads [] = []"
| "payloads (Plain t # ps) = payloads ps"
| "payloads (Marker b # ps) = (''{'' @ b @ ''}'') # payloads ps"

fun plainText :: "piece list \<Rightarrow> string" where
  "plainText [] = []"
| "plainText (Plain t # ps) = t @ plainText ps"
| "plainText (Marker b # ps) = plainText ps"

text \<open>
  A marker is whole when the pattern matches all of it, with the payload between the
  tags as group 1: the payload is on one line and no closing brace in it is followed by
  the closing tag.
\<close>

fun whole :: "marker_kind \<Rightarrow> piece \<Rightarrow> bool" where
  "whole k (Plain t) = True"
| "whole k (Marker b) =
     (matchAt k (markerOpen k @ b @ markerClose k) = Some (''{'' @ b @ ''}'', []))"

text \<open>The string \<open>p\<close> occurs in the string \<open>s\<close>.\<close>

fun occursIn :: "string \<Rightarrow> string \<Rightarrow> bool" where
  "occursIn p [] = (p = [])"
| "occursIn p (c # cs) = (startsWith (c # cs) p \<or> occursIn p cs)"

text \<open>The pieces whose payload parses, and the plain text.\<close>

fun sound :: "(string \<Rightarrow> json option) \<Rightarrow> piece \<Rightarrow> bool" where
  "sound parse (Plain t) = True"
| "sound parse (Marker b) = parses parse (''{'' @ b @ ''}'')"

text \<open>
  The pieces of a text as the scan of the pattern reads them: each match is a marker,
  every other character is plain text.
\<close>

function pieces :: "marker_kind \<Rightarrow> string \<Rightarrow> piece list" where
  "pieces k [] = []"
| "pieces k (c # cs) =
     (case matchAt k (c # cs) of
        Some (g, rest) \<Rightarrow> Marker (butlast (tl g)) # pieces k rest
      | None \<Rightarrow> Plain [c] # pieces k cs)"
  by pat_completeness auto
termination
  by (relation "measure (\<lambda>(k, s). length s)") (auto dest: matchAt_shorter)

declare pieces.simps(2) [simp del]

section \<open>Example data\<close>

text \<open>Concrete instances, environments and parsers on which the theorems are instantiated.\<close>

definition demo_config :: DingTalkConfig where
  "demo_config = \<lparr>clientId = ''ding1'', robotCode = ''ding1'', cardTemplateId = []\<rparr>"

definition demo_card :: AICardInstance where
  "demo_card = \<lparr>cardInstanceId = ''card_1'', accessToken = ''tok0'', conversationId = ''cv'',
     accountId = ''acc'', createdAt = 100, lastUpdated = 100, state = PROCESSING,
     config = demo_config, inputingStarted = False\<rparr>"

definition demo_env :: push_env where
  "demo_env = \<lparr>now_entry = 200, stale_refresh = Inr ''tok1'', inputing_put = None,
     guid = ''g1'', stream_put = None, refresh_401 = Inr ''tok2'', retry_put = None,
     now_update = 300\<rparr>"

definition done_card :: AICardInstance where
  "done_card = demo_card\<lparr>state := FINISHED, inputingStarted := True\<rparr>"

definition demo_cache :: card_cache where
  "demo_cache = \<lparr>cardInstances = [(''card_1'', demo_card)],
                  activeCardsByTarget = [(''acc:cv'', ''card_1'')]\<rparr>"

definition demo_target :: AICardTarget where
  "demo_target = \<lparr>AICardTarget.accountId = ''acc'', conversationId = ''cv'', isGroup = False,
                   userId = Some ''u1''\<rparr>"

definition demo_create :: create_env where
  "demo_create = \<lparr>token_result = Inr ''tok9'', uuid = ''2'', post_result = (\<lambda>k. Inr ()),
                   backoff_random = (\<lambda>k. 0), now_createdAt = 500, now_lastUpdated = 501\<rparr>"

definition new_card :: AICardInstance where
  "new_card = \<lparr>cardInstanceId = ''card_2'', accessToken = ''tok9'', conversationId = ''cv'',
     accountId = ''acc'', createdAt = 500, lastUpdated = 501, state = PROCESSING,
     config = demo_config, inputingStarted = False\<rparr>"

definition demo_options :: RetryOptionsArg where
  "demo_options = \<lparr>maxRetriesArg = Some (Number (Num 2)), baseDelayArg = None, maxDelayArg = None\<rparr>"

definition demo_random :: "nat \<Rightarrow> real" where
  "demo_random k = (if k = 0 then 1 / 4 else 1 / 2)"

definition always_500 :: "nat \<Rightarrow> thrown + unit" where
  "always_500 k = Inl (IsError (AxiosError (Some 500)))"

definition ok_at_1 :: "nat \<Rightarrow> thrown + unit" where
  "ok_at_1 k = (if k = 1 then Inr () else Inl (NotError ''busy''))"

definition demo_parse :: "string \<Rightarrow> json option" where
  \<open>demo_parse s =
     (if s = ''{"choices":[{"delta":{"content":"hello "}}]}'' then
        Some (JObj [(''choices'', JArr [JObj [(''delta'', JObj [(''content'', JStr ''hello '')])]])])
      else if s = ''{"choices":[{"delta":{"content":""}}]}'' then
        Some (JObj [(''choices'', JArr [JObj [(''delta'', JObj [(''content'', JStr [])])]])])
      else if s = ''{"choices":[{"delta":{}}]}'' then
        Some (JObj [(''choices'', JArr [JObj [(''delta'', JObj [])]])])
      else if s = ''{"choices":[{"delta":{"content":["a"]}}]}'' then
        Some (JObj [(''choices'', JArr [JObj [(''delta'', JObj [(''content'', JArr [JStr ''a''])])]])])
      else if s = ''null'' then Some JNull
      else None)\<close>

definition demo_response :: "string list \<Rightarrow> error + GatewayResponse" where
  "demo_response reads =
     Inr \<lparr>resp_status = 200, resp_ok = True, resp_body = Some reads, resp_text = []\<rparr>"

definition demo_media_parse :: "string \<Rightarrow> json option" where
  \<open>demo_media_parse m =
     (if m = ''{"path":"/tmp/a.txt","fileName":"a.txt"}'' then
        Some (JObj [(''path'', JStr ''/tmp/a.txt''), (''fileName'', JStr ''a.txt'')])
      else if m = ''{"path":"/tmp/a.txt"}'' then Some (JObj [(''path'', JStr ''/tmp/a.txt'')])
      else if m = ''{"path":"/tmp/b.ogg"}'' then Some (JObj [(''path'', JStr ''/tmp/b.ogg'')])
      else if m = ''{"path":123}'' then Some (JObj [(''path'', JNum 123)])
      else None)\<close>

text \<open>
  A world that counts the calls made: every file exists and has 100 bytes, every upload
  and every send succeeds.
\<close>

definition demo_media_env :: "nat media_env" where
  "demo_media_env =
     \<lparr>jsonParse = demo_media_parse,
      basename = (\<lambda>p. rev (takeWhile (\<lambda>c. c \<noteq> CHR ''/'') (rev p))),
      existsSync = (\<lambda>p w. (True, Suc w)),
      statSize = (\<lambda>p w. (Inr 100, Suc w)),
      uploadMedia = (\<lambda>p t w. (Inr (Some ''media1''), Suc w)),
      sendMessage = (\<lambda>m w. (Inr (), Suc w)),
      videoMetadata = (\<lambda>p w. (Inr (Some 10), Suc w)),
      thumbnailName = (\<lambda>w. (''/tmp/thumbnail_1.jpg'', Suc w)),
      videoThumbnail = (\<lambda>p t w. (Inr (Some t), Suc w)),
      unlinkSync = (\<lambda>p w. (Inr (), Suc w))\<rparr>"

section \<open>Verification: session manager\<close>

subsection \<open>De-duplication window\<close>

lemma map_of_cleanup_keep:
  "map_of pm k = Some t \<Longrightarrow> now - t \<le> MESSAGE_DEDUP_TTL \<Longrightarrow>
   map_of (cleanupProcessedMessages now pm) k = Some t"
  unfolding cleanupProcessedMessages_def
  by (rule map_of_filter_in) auto

lemma map_of_cleanup_none:
  "map_of pm k = None \<Longrightarrow> map_of (cleanupProcessedMessages now pm) k = None"
  unfolding cleanupProcessedMessages_def
  by (induction pm) (auto split: if_splits)

lemma mark_other_none:
  "m \<noteq> k \<Longrightarrow> map_of pm k = None \<Longrightarrow> map_of (markMessageProcessed now now2 m pm) k = None"
  by (simp add: markMessageProcessed_def Let_def map_of_cleanup_none update_conv')

lemma dedup_step_none:
  "\<not> marks k op \<Longrightarrow> map_of pm k = None \<Longrightarrow> map_of (dedup_step pm op) k = None"
  by (cases op) (auto simp: mark_other_none map_of_cleanup_none)

lemma dedup_run_none:
  "\<forall>op\<in>set ops. \<not> marks k op \<Longrightarrow> map_of pm k = None \<Longrightarrow> map_of (dedup_run pm ops) k = None"
  unfolding dedup_run_def
  by (induction ops arbitrary: pm) (auto simp: dedup_step_none)

lemma mark_fresh:
  assumes "k \<noteq> []" "now \<le> now2" "now2 \<le> now + MESSAGE_DEDUP_TTL"
  shows "fresh_in now k (markMessageProcessed now now2 k pm)"
proof -
  have "map_of (AList.update k now pm) k = Some now" by (simp add: update_conv')
  moreover from assms have "now2 - now \<le> MESSAGE_DEDUP_TTL" by simp
  ultimately have "map_of (cleanupProcessedMessages now2 (AList.update k now pm)) k = Some now"
    by (rule map_of_cleanup_keep)
  then show ?thesis using assms(1)
    by (auto simp: fresh_in_def markMessageProcessed_def Let_def update_conv')
qed

lemma dedup_step_fresh:
  assumes "fresh_in lo k pm" "clock_within lo (lo + MESSAGE_DEDUP_TTL) op"
  shows "fresh_in lo k (dedup_step pm op)"
proof (cases op)
  case (Mark now now2 m)
  from assms(1) obtain t where t: "map_of pm k = Some t" "lo \<le> t" by (auto simp: fresh_in_def)
  from assms(2) Mark have c: "lo \<le> now" "now2 \<le> lo + MESSAGE_DEDUP_TTL" by auto
  define t' where "t' = (if m = k then now else t)"
  have u: "map_of (AList.update m now pm) k = Some t'" using t by (simp add: update_conv' t'_def)
  have lo': "lo \<le> t'" using t c by (simp add: t'_def)
  then have "now2 - t' \<le> MESSAGE_DEDUP_TTL" using c by simp
  with u have "map_of (cleanupProcessedMessages now2 (AList.update m now pm)) k = Some t'"
    by (rule map_of_cleanup_keep)
  with u lo' t show ?thesis using Mark
    by (auto simp: fresh_in_def markMessageProcessed_def Let_def)
next
  case (Sweep now)
  from assms(1) obtain t where t: "map_of pm k = Some t" "lo \<le> t" by (auto simp: fresh_in_def)
  from assms(2) Sweep have "now - t \<le> MESSAGE_DEDUP_TTL" using t by auto
  with t(1) have "map_of (cleanupProcessedMessages now pm) k = Some t" by (rule map_of_cleanup_keep)
  with t Sweep show ?thesis by (auto simp: fresh_in_def)
qed

lemma dedup_run_fresh:
  "fresh_in lo k pm \<Longrightarrow> \<forall>op\<in>set ops. clock_within lo (lo + MESSAGE_DEDUP_TTL) op \<Longrightarrow>
   fresh_in lo k (dedup_run pm ops)"
  unfolding dedup_run_def
  by (induction ops arbitrary: pm) (auto simp: dedup_step_fresh)

lemma fresh_processed: "k \<noteq> [] \<Longrightarrow> fresh_in lo k pm \<Longrightarrow> isMessageProcessed k pm"
  by (auto simp: fresh_in_def isMessageProcessed_def)

text \<open>
  The empty identifier is never recorded: both functions return at once on a falsy
  \<open>messageId\<close>, so marking it does not make it a duplicate.
\<close>

theorem C6_empty_id_counterexample:
  "\<not> isMessageProcessed [] (markMessageProcessed 1000 1000 [] [])"
  by (simp add: isMessageProcessed_def)

text \<open>
  Claim C6, for a non-empty message identifier. (1) Starting from the empty map, as long as
  no operation has marked the identifier, \<open>isMessageProcessed\<close> is false. (2) Right
  after \<open>markMessageProcessed\<close> it is true (the sweep that the insertion may trigger
  reads the clock within the window). (3) It stays true through any further marks and sweeps
  whose clock readings lie within five minutes of the mark.
\<close>

theorem C6_dedup_window:
  assumes "messageId \<noteq> []"
  shows "((\<forall>op\<in>set before. \<not> marks messageId op) \<longrightarrow>
            \<not> isMessageProcessed messageId (dedup_run [] before)) \<and>
         (now \<le> now2 \<and> now2 \<le> now + MESSAGE_DEDUP_TTL \<longrightarrow>
            isMessageProcessed messageId (markMessageProcessed now now2 messageId pm)) \<and>
         (now \<le> now2 \<and> now2 \<le> now + MESSAGE_DEDUP_TTL \<and>
          (\<forall>op\<in>set later. clock_within now (now + MESSAGE_DEDUP_TTL) op) \<longrightarrow>
            isMessageProcessed messageId
              (dedup_run (markMessageProcessed now now2 messageId pm) later))"
proof (intro conjI impI)
  assume "\<forall>op\<in>set before. \<not> marks messageId op"
  then have "map_of (dedup_run [] before) messageId = None"
    by (rule dedup_run_none) simp
  then show "\<not> isMessageProcessed messageId (dedup_run [] before)"
    by (simp add: isMessageProcessed_def)
next
  assume "now \<le> now2 \<and> now2 \<le> now + MESSAGE_DEDUP_TTL"
  then have "fresh_in now messageId (markMessageProcessed now now2 messageId pm)"
    using assms by (simp add: mark_fresh)
  then show "isMessageProcessed messageId (markMessageProcessed now now2 messageId pm)"
    using assms by (rule fresh_processed[rotated])
next
  assume a: "now \<le> now2 \<and> now2 \<le> now + MESSAGE_DEDUP_TTL \<and>
          (\<forall>op\<in>set later. clock_within now (now + MESSAGE_DEDUP_TTL) op)"
  then have "fresh_in now messageId (markMessageProcessed now now2 messageId pm)"
    using assms by (simp add: mark_fresh)
  then have "fresh_in now messageId (dedup_run (markMessageProcessed now now2 messageId pm) later)"
    using a by (simp add: dedup_run_fresh)
  then show "isMessageProcessed messageId
              (dedup_run (markMessageProcessed now now2 messageId pm) later)"
    using assms by (rule fresh_processed[rotated])
qed

theorem C6_dedup_window_witness:
  "''msg1'' \<noteq> [] \<and>
   \<not> isMessageProcessed ''msg1'' (dedup_run [] [Mark 10 10 ''msg0'', Sweep 400000]) \<and>
   (1000::int) \<le> 1001 \<and> 1001 \<le> 1000 + MESSAGE_DEDUP_TTL \<and>
   isMessageProcessed ''msg1'' (markMessageProcessed 1000 1001 ''msg1'' [(''msg0'', 10)]) \<and>
   clock_within 1000 (1000 + MESSAGE_DEDUP_TTL) (Mark 2000 2000 ''msg2'') \<and>
   clock_within 1000 (1000 + MESSAGE_DEDUP_TTL) (Sweep 301000) \<and>
   isMessageProcessed ''msg1''
     (dedup_run (markMessageProcessed 1000 1001 ''msg1'' [(''msg0'', 10)])
        [Mark 2000 2000 ''msg2'', Sweep 301000])"
  using C6_dedup_window [of "''msg1''" "[Mark 10 10 ''msg0'', Sweep 400000]" 1000 1001
      "[(''msg0'', 10)]" "[Mark 2000 2000 ''msg2'', Sweep 301000]"]
  by (simp add: MESSAGE_DEDUP_TTL_def)

subsection \<open>Session keys\<close>

text \<open>
  The first message of a sender (no record, no forced reset) gets the key
  \<open>dingtalk:sender\<close>, without an epoch, and is not reported as a new session.
\<close>

theorem C5_first_session_counterexample:
  "sessionKey (fst (getSessionKey 1700 ''u1'' False 1000 [])) = ''dingtalk:u1'' \<and>
   sessionKey (fst (getSessionKey 1700 ''u1'' False 1000 []))
     \<noteq> ''dingtalk:'' @ ''u1'' @ '':'' @ string_of_int 1700"
  by (simp add: getSessionKey_def Let_def)

text \<open>
  Claim C5, as the code has it. A forced reset, or a record whose last activity is older
  than the timeout, mints \<open>dingtalk:sender:epoch\<close>, stores it with the current time and
  reports \<open>isNew\<close>, with \<open>forceNew\<close> telling the forced from the timed-out rollover.
  A sender without a record (and no forced reset) gets \<open>dingtalk:sender\<close>, stored with
  the current time, reported as neither new nor forced. Otherwise the record's time is
  refreshed and its key is returned unchanged.
\<close>

theorem C5_getSessionKey:
  "(force \<or> (\<exists>ex. map_of userSessions senderId = Some ex \<and> now - lastActivity ex > sessionTimeout) \<longrightarrow>
      getSessionKey now senderId force sessionTimeout userSessions =
        (\<lparr>sessionKey = ''dingtalk:'' @ senderId @ '':'' @ string_of_int now,
          isNew = True, forceNew = force\<rparr>,
         AList.update senderId
           \<lparr>lastActivity = now, sessionId = ''dingtalk:'' @ senderId @ '':'' @ string_of_int now\<rparr>
           userSessions)) \<and>
   (\<not> force \<and> map_of userSessions senderId = None \<longrightarrow>
      getSessionKey now senderId force sessionTimeout userSessions =
        (\<lparr>sessionKey = ''dingtalk:'' @ senderId, isNew = False, forceNew = False\<rparr>,
         AList.update senderId \<lparr>lastActivity = now, sessionId = ''dingtalk:'' @ senderId\<rparr>
           userSessions)) \<and>
   (\<forall>ex. \<not> force \<and> map_of userSessions senderId = Some ex \<and>
         now - lastActivity ex \<le> sessionTimeout \<longrightarrow>
      getSessionKey now senderId force sessionTimeout userSessions =
        (\<lparr>sessionKey = sessionId ex, isNew = False, forceNew = False\<rparr>,
         AList.update senderId (ex\<lparr>lastActivity := now\<rparr>) userSessions))"
  by (auto simp: getSessionKey_def Let_def)

theorem C5_getSessionKey_witness:
  "getSessionKey 5000 ''u1'' True 1000 [] =
     (\<lparr>sessionKey = ''dingtalk:u1:5000'', isNew = True, forceNew = True\<rparr>,
      [(''u1'', \<lparr>lastActivity = 5000, sessionId = ''dingtalk:u1:5000''\<rparr>)]) \<and>
   getSessionKey 5000 ''u1'' False 1000 [(''u1'', \<lparr>lastActivity = 3000, sessionId = ''dingtalk:u1''\<rparr>)] =
     (\<lparr>sessionKey = ''dingtalk:u1:5000'', isNew = True, forceNew = False\<rparr>,
      [(''u1'', \<lparr>lastActivity = 5000, sessionId = ''dingtalk:u1:5000''\<rparr>)]) \<and>
   getSessionKey 5000 ''u1'' False 1000 [] =
     (\<lparr>sessionKey = ''dingtalk:u1'', isNew = False, forceNew = False\<rparr>,
      [(''u1'', \<lparr>lastActivity = 5000, sessionId = ''dingtalk:u1''\<rparr>)]) \<and>
   getSessionKey 5000 ''u1'' False 1000 [(''u1'', \<lparr>lastActivity = 4500, sessionId = ''dingtalk:u1''\<rparr>)] =
     (\<lparr>sessionKey = ''dingtalk:u1'', isNew = False, forceNew = False\<rparr>,
      [(''u1'', \<lparr>lastActivity = 5000, sessionId = ''dingtalk:u1''\<rparr>)])"
  using C5_getSessionKey [where force = True and userSessions = "[]" and senderId = "''u1''"
      and now = 5000 and sessionTimeout = 1000]
    C5_getSessionKey [where force = False and senderId = "''u1''" and now = 5000
      and sessionTimeout = 1000
      and userSessions = "[(''u1'', \<lparr>lastActivity = 3000, sessionId = ''dingtalk:u1''\<rparr>)]"]
    C5_getSessionKey [where force = False and userSessions = "[]" and senderId = "''u1''"
      and now = 5000 and sessionTimeout = 1000]
    C5_getSessionKey [where force = False and senderId = "''u1''" and now = 5000
      and sessionTimeout = 1000
      and userSessions = "[(''u1'', \<lparr>lastActivity = 4500, sessionId = ''dingtalk:u1''\<rparr>)]"]
  by (simp add: string_of_int_def digit_char_def)

section \<open>Verification: card engine\<close>

lemma refresh_fields:
  "cardInstanceId (fst (refreshStaleToken env crd)) = cardInstanceId crd"
  "state (fst (refreshStaleToken env crd)) = state crd"
  "lastUpdated (fst (refreshStaleToken env crd)) = lastUpdated crd"
  "inputingStarted (fst (refreshStaleToken env crd)) = inputingStarted crd"
  by (simp_all add: refreshStaleToken_def split: sum.splits)

lemma refresh_trace:
  "filter is_streaming_put (snd (refreshStaleToken env crd)) = []"
  "filter is_inputing_put (snd (refreshStaleToken env crd)) = []"
  "filter is_inputing_ok (snd (refreshStaleToken env crd)) = []"
  by (simp_all add: refreshStaleToken_def split: sum.splits)

lemma switch_fail:
  "\<not> inputingStarted crd \<Longrightarrow> inputing_put env = Some e \<Longrightarrow>
   switchToInputing env crd =
     (Inl e, crd, [InstancesPut (cardInstanceId crd) (accessToken crd) INPUTING [] (Some e)])"
  by (simp add: switchToInputing_def)

lemma switch_ok:
  "inputingStarted crd \<or> inputing_put env = None \<Longrightarrow>
   switchToInputing env crd =
     (Inr (), crd\<lparr>inputingStarted := True\<rparr>,
      if inputingStarted crd then []
      else [InstancesPut (cardInstanceId crd) (accessToken crd) INPUTING [] None])"
  by (auto simp: switchToInputing_def)

lemma switch_trace:
  "filter is_streaming_put (snd (snd (switchToInputing env crd))) = []"
  by (simp add: switchToInputing_def split: option.splits)

lemma stream_fail_inputing:
  assumes "\<not> inputingStarted crd" "inputing_put env = Some e"
  shows "streamAICard env crd content finished =
     (Inl e, fst (refreshStaleToken env crd),
      snd (refreshStaleToken env crd) @
      [InstancesPut (cardInstanceId crd) (accessToken (fst (refreshStaleToken env crd)))
         INPUTING [] (Some e)])"
proof -
  obtain c1 t1 where r: "refreshStaleToken env crd = (c1, t1)" by (cases "refreshStaleToken env crd")
  have f: "\<not> inputingStarted c1" "cardInstanceId c1 = cardInstanceId crd"
    using refresh_fields(4)[of env crd] refresh_fields(1)[of env crd] assms(1) r by simp_all
  show ?thesis
    by (simp add: streamAICard_def r switch_fail[OF f(1) assms(2)] f(2))
qed

lemma ready_fields:
  "cardInstanceId (ready env crd) = cardInstanceId crd"
  "state (ready env crd) = state crd"
  "lastUpdated (ready env crd) = lastUpdated crd"
  "inputingStarted (ready env crd)"
  by (simp_all add: ready_def refresh_fields)

lemma prelude_no_streaming: "filter is_streaming_put (prelude env crd) = []"
  by (simp add: prelude_def refresh_trace switch_trace)

lemma stream_proceed:
  assumes "inputingStarted crd \<or> inputing_put env = None"
  shows "streamAICard env crd content finished =
     (fst (updateContent env (ready env crd) content finished),
      fst (snd (updateContent env (ready env crd) content finished)),
      prelude env crd @ snd (snd (updateContent env (ready env crd) content finished)))"
proof -
  obtain c1 t1 where r: "refreshStaleToken env crd = (c1, t1)" by (cases "refreshStaleToken env crd")
  have f: "inputingStarted c1 \<or> inputing_put env = None"
    using refresh_fields(4)[of env crd] assms r by simp
  show ?thesis
    by (simp add: streamAICard_def r switch_ok[OF f] prelude_def ready_def split: prod.splits)
qed

lemma dropWhile_prelude:
  "dropWhile (\<lambda>ev. \<not> is_streaming_put ev) (prelude env crd @ tr) =
   dropWhile (\<lambda>ev. \<not> is_streaming_put ev) tr"
proof -
  have "\<forall>ev\<in>set (prelude env crd). \<not> is_streaming_put ev"
    using prelude_no_streaming[of env crd] by (simp add: filter_empty_conv)
  then show ?thesis by (simp add: dropWhile_append)
qed

lemma update_other_error:
  "stream_put env = Some e \<Longrightarrow> \<not> is401 e \<Longrightarrow>
   updateContent env crd content finished =
     (Inl e, markFailed (now_update env) crd,
      [StreamingPut (cardInstanceId crd) (accessToken crd) (guid env) content finished (Some e)])"
  by (simp add: updateContent_def Let_def)

lemma update_401_refresh_failed:
  "stream_put env = Some e \<Longrightarrow> is401 e \<Longrightarrow> refresh_401 env = Inl e' \<Longrightarrow>
   updateContent env crd content finished =
     (Inl e, markFailed (now_update env) crd,
      [StreamingPut (cardInstanceId crd) (accessToken crd) (guid env) content finished (Some e),
       TokenFetch (Inl e')])"
  by (simp add: updateContent_def Let_def)

lemma update_401_retry:
  "stream_put env = Some e \<Longrightarrow> is401 e \<Longrightarrow> refresh_401 env = Inr tok' \<Longrightarrow>
   updateContent env crd content finished =
     (if retry_put env = None then Inr () else Inl e,
      if retry_put env = None then markUpdated (now_update env) finished (crd\<lparr>accessToken := tok'\<rparr>)
      else markFailed (now_update env) (crd\<lparr>accessToken := tok'\<rparr>),
      [StreamingPut (cardInstanceId crd) (accessToken crd) (guid env) content finished (Some e),
       TokenFetch (Inr tok'),
       StreamingPut (cardInstanceId crd) tok' (guid env) content finished (retry_put env)])"
  by (simp add: updateContent_def Let_def split: option.splits)

lemma update_ok:
  "stream_put env = None \<Longrightarrow>
   updateContent env crd content finished =
     (Inr (), markUpdated (now_update env) finished crd,
      [StreamingPut (cardInstanceId crd) (accessToken crd) (guid env) content finished None])"
  by (simp add: updateContent_def)

lemma markFailed_fields:
  "state (markFailed now crd) = FAILED" "lastUpdated (markFailed now crd) = now"
  "inputingStarted (markFailed now crd) = inputingStarted crd"
  by (simp_all add: markFailed_def)

lemma markUpdated_fields:
  "state (markUpdated now finished crd) =
     (if finished then FINISHED else if state crd = PROCESSING then INPUTING else state crd)"
  "lastUpdated (markUpdated now finished crd) = now"
  "inputingStarted (markUpdated now finished crd) = inputingStarted crd"
  by (simp_all add: markUpdated_def Let_def)

subsection \<open>One push: failures\<close>

text \<open>
  When the switch to INPUTING fails, the push throws the error but leaves the state
  (here PROCESSING) and \<open>lastUpdated\<close> as they were: the instance is not marked failed.
\<close>

theorem C1_inputing_failure_counterexample:
  "fst (streamAICard (demo_env\<lparr>inputing_put := Some (AxiosError (Some 500))\<rparr>) demo_card ''hi'' False)
     = Inl (AxiosError (Some 500)) \<and>
   state (fst (snd (streamAICard (demo_env\<lparr>inputing_put := Some (AxiosError (Some 500))\<rparr>)
       demo_card ''hi'' False))) = PROCESSING \<and>
   state (fst (snd (streamAICard (demo_env\<lparr>inputing_put := Some (AxiosError (Some 500))\<rparr>)
       demo_card ''hi'' False))) \<noteq> FAILED \<and>
   lastUpdated (fst (snd (streamAICard (demo_env\<lparr>inputing_put := Some (AxiosError (Some 500))\<rparr>)
       demo_card ''hi'' False))) = lastUpdated demo_card"
  by (simp add: streamAICard_def refreshStaleToken_def switchToInputing_def demo_env_def
      demo_card_def TOKEN_REFRESH_THRESHOLD_def)

text \<open>
  Claim C1, as the code has it. (1) A failing switch to INPUTING is thrown to the caller
  with the state and \<open>lastUpdated\<close> unchanged and no content update issued. (2) A content
  update failing with any error but 401 marks the instance FAILED, writes \<open>lastUpdated\<close>
  and throws that error; nothing is issued after the failed request. (3) On a 401 the
  token is fetched exactly once; when the fetch succeeds, the same update (same track id,
  guid, content and finalize flag, new token) is sent exactly once more: its success ends
  the push normally, its failure marks the instance FAILED, writes \<open>lastUpdated\<close> and
  throws the error of the first request. (4) When the fetch after a 401 fails, no retry is
  sent; the instance is marked FAILED, \<open>lastUpdated\<close> is written and the error of the
  first request is thrown.
\<close>

theorem C1_streamAICard_failures:
  "(\<not> inputingStarted crd \<and> inputing_put env = Some e \<longrightarrow>
      fst (streamAICard env crd content finished) = Inl e \<and>
      state (fst (snd (streamAICard env crd content finished))) = state crd \<and>
      lastUpdated (fst (snd (streamAICard env crd content finished))) = lastUpdated crd \<and>
      filter is_streaming_put (snd (snd (streamAICard env crd content finished))) = []) \<and>
   ((inputingStarted crd \<or> inputing_put env = None) \<and> stream_put env = Some e \<and> \<not> is401 e \<longrightarrow>
      fst (streamAICard env crd content finished) = Inl e \<and>
      state (fst (snd (streamAICard env crd content finished))) = FAILED \<and>
      lastUpdated (fst (snd (streamAICard env crd content finished))) = now_update env \<and>
      (\<exists>tok. dropWhile (\<lambda>ev. \<not> is_streaming_put ev) (snd (snd (streamAICard env crd content finished))) =
         [StreamingPut (cardInstanceId crd) tok (guid env) content finished (Some e)])) \<and>
   ((inputingStarted crd \<or> inputing_put env = None) \<and> stream_put env = Some e \<and> is401 e \<and>
    refresh_401 env = Inr tok' \<longrightarrow>
      (\<exists>tok. dropWhile (\<lambda>ev. \<not> is_streaming_put ev) (snd (snd (streamAICard env crd content finished))) =
         [StreamingPut (cardInstanceId crd) tok (guid env) content finished (Some e),
          TokenFetch (Inr tok'),
          StreamingPut (cardInstanceId crd) tok' (guid env) content finished (retry_put env)]) \<and>
      (retry_put env = None \<longrightarrow>
         fst (streamAICard env crd content finished) = Inr () \<and>
         state (fst (snd (streamAICard env crd content finished))) =
           (if finished then FINISHED else if state crd = PROCESSING then INPUTING else state crd) \<and>
         lastUpdated (fst (snd (streamAICard env crd content finished))) = now_update env) \<and>
      (retry_put env \<noteq> None \<longrightarrow>
         fst (streamAICard env crd content finished) = Inl e \<and>
         state (fst (snd (streamAICard env crd content finished))) = FAILED \<and>
         lastUpdated (fst (snd (streamAICard env crd content finished))) = now_update env)) \<and>
   ((inputingStarted crd \<or> inputing_put env = None) \<and> stream_put env = Some e \<and> is401 e \<and>
    refresh_401 env = Inl e' \<longrightarrow>
      (\<exists>tok. dropWhile (\<lambda>ev. \<not> is_streaming_put ev) (snd (snd (streamAICard env crd content finished))) =
         [StreamingPut (cardInstanceId crd) tok (guid env) content finished (Some e),
          TokenFetch (Inl e')]) \<and>
      fst (streamAICard env crd content finished) = Inl e \<and>
      state (fst (snd (streamAICard env crd content finished))) = FAILED \<and>
      lastUpdated (fst (snd (streamAICard env crd content finished))) = now_update env)"
proof (intro conjI impI)
  assume a: "\<not> inputingStarted crd \<and> inputing_put env = Some e"
  then have s: "streamAICard env crd content finished =
     (Inl e, fst (refreshStaleToken env crd),
      snd (refreshStaleToken env crd) @
      [InstancesPut (cardInstanceId crd) (accessToken (fst (refreshStaleToken env crd)))
         INPUTING [] (Some e)])"
    by (simp add: stream_fail_inputing)
  show "fst (streamAICard env crd content finished) = Inl e" by (simp add: s)
  show "state (fst (snd (streamAICard env crd content finished))) = state crd"
    by (simp add: s refresh_fields)
  show "lastUpdated (fst (snd (streamAICard env crd content finished))) = lastUpdated crd"
    by (simp add: s refresh_fields)
  show "filter is_streaming_put (snd (snd (streamAICard env crd content finished))) = []"
    by (simp add: s refresh_trace)
next
  assume a: "(inputingStarted crd \<or> inputing_put env = None) \<and> stream_put env = Some e \<and> \<not> is401 e"
  then have s: "streamAICard env crd content finished =
     (Inl e, markFailed (now_update env) (ready env crd),
      prelude env crd @
      [StreamingPut (cardInstanceId crd) (accessToken (ready env crd)) (guid env) content finished (Some e)])"
    by (simp add: stream_proceed update_other_error ready_fields)
  show "fst (streamAICard env crd content finished) = Inl e" by (simp add: s)
  show "state (fst (snd (streamAICard env crd content finished))) = FAILED"
    by (simp add: s markFailed_fields)
  show "lastUpdated (fst (snd (streamAICard env crd content finished))) = now_update env"
    by (simp add: s markFailed_fields)
  show "\<exists>tok. dropWhile (\<lambda>ev. \<not> is_streaming_put ev) (snd (snd (streamAICard env crd content finished))) =
         [StreamingPut (cardInstanceId crd) tok (guid env) content finished (Some e)]"
    by (simp add: s dropWhile_prelude)
next
  assume a: "(inputingStarted crd \<or> inputing_put env = None) \<and> stream_put env = Some e \<and> is401 e \<and>
    refresh_401 env = Inr tok'"
  then have s: "streamAICard env crd content finished =
     (if retry_put env = None then Inr () else Inl e,
      if retry_put env = None
      then markUpdated (now_update env) finished ((ready env crd)\<lparr>accessToken := tok'\<rparr>)
      else markFailed (now_update env) ((ready env crd)\<lparr>accessToken := tok'\<rparr>),
      prelude env crd @
      [StreamingPut (cardInstanceId crd) (accessToken (ready env crd)) (guid env) content finished (Some e),
       TokenFetch (Inr tok'),
       StreamingPut (cardInstanceId crd) tok' (guid env) content finished (retry_put env)])"
    by (simp add: stream_proceed update_401_retry ready_fields)
  show "\<exists>tok. dropWhile (\<lambda>ev. \<not> is_streaming_put ev) (snd (snd (streamAICard env crd content finished))) =
         [StreamingPut (cardInstanceId crd) tok (guid env) content finished (Some e),
          TokenFetch (Inr tok'),
          StreamingPut (cardInstanceId crd) tok' (guid env) content finished (retry_put env)]"
    by (simp add: s dropWhile_prelude)
  {
    assume "retry_put env = None"
    then show "fst (streamAICard env crd content finished) = Inr ()" by (simp add: s)
  next
    assume "retry_put env = None"
    then show "state (fst (snd (streamAICard env crd content finished))) =
           (if finished then FINISHED else if state crd = PROCESSING then INPUTING else state crd)"
      by (simp add: s markUpdated_fields ready_def refresh_fields)
  next
    assume "retry_put env = None"
    then show "lastUpdated (fst (snd (streamAICard env crd content finished))) = now_update env"
      by (simp add: s markUpdated_fields)
  next
    assume "retry_put env \<noteq> None"
    then show "fst (streamAICard env crd content finished) = Inl e" by (auto simp: s)
  next
    assume "retry_put env \<noteq> None"
    then show "state (fst (snd (streamAICard env crd content finished))) = FAILED"
      by (auto simp: s markFailed_fields)
  next
    assume "retry_put env \<noteq> None"
    then show "lastUpdated (fst (snd (streamAICard env crd content finished))) = now_update env"
      by (auto simp: s markFailed_fields)
  }
next
  assume a: "(inputingStarted crd \<or> inputing_put env = None) \<and> stream_put env = Some e \<and> is401 e \<and>
    refresh_401 env = Inl e'"
  then have s: "streamAICard env crd content finished =
     (Inl e, markFailed (now_update env) (ready env crd),
      prelude env crd @
      [StreamingPut (cardInstanceId crd) (accessToken (ready env crd)) (guid env) content finished (Some e),
       TokenFetch (Inl e')])"
    by (simp add: stream_proceed update_401_refresh_failed ready_fields)
  show "\<exists>tok. dropWhile (\<lambda>ev. \<not> is_streaming_put ev) (snd (snd (streamAICard env crd content finished))) =
         [StreamingPut (cardInstanceId crd) tok (guid env) content finished (Some e),
          TokenFetch (Inl e')]"
    by (simp add: s dropWhile_prelude)
  show "fst (streamAICard env crd content finished) = Inl e" by (simp add: s)
  show "state (fst (snd (streamAICard env crd content finished))) = FAILED"
    by (simp add: s markFailed_fields)
  show "lastUpdated (fst (snd (streamAICard env crd content finished))) = now_update env"
    by (simp add: s markFailed_fields)
qed

lemma prelude_inputing:
  "filter is_inputing_put (prelude env crd) =
     (if inputingStarted crd then []
      else [InstancesPut (cardInstanceId crd) (accessToken (fst (refreshStaleToken env crd)))
              INPUTING [] (inputing_put env)])"
  by (simp add: prelude_def refresh_trace switchToInputing_def refresh_fields split: option.splits)

lemma update_no_inputing:
  "filter is_inputing_put (snd (snd (updateContent env crd content finished))) = []"
  by (simp add: updateContent_def Let_def split: option.splits sum.splits)

lemma update_flag:
  "inputingStarted (fst (snd (updateContent env crd content finished))) = inputingStarted crd"
  by (simp add: updateContent_def Let_def markUpdated_fields markFailed_fields
      split: option.splits sum.splits)

lemma update_has_streaming:
  "filter is_streaming_put (snd (snd (updateContent env crd content finished))) \<noteq> []"
  by (simp add: updateContent_def Let_def split: option.splits sum.splits)

lemma update_starts_streaming:
  "\<exists>ev tr. snd (snd (updateContent env crd content finished)) = ev # tr \<and> is_streaming_put ev"
  by (simp add: updateContent_def Let_def split: option.splits sum.splits)

lemma push_cases:
  obtains (failed) e where "\<not> inputingStarted crd" "inputing_put env = Some e"
      "streamAICard env crd content finished =
        (Inl e, fst (refreshStaleToken env crd),
         snd (refreshStaleToken env crd) @
         [InstancesPut (cardInstanceId crd) (accessToken (fst (refreshStaleToken env crd)))
            INPUTING [] (Some e)])"
  | (proceed) "inputingStarted crd \<or> inputing_put env = None"
      "streamAICard env crd content finished =
        (fst (updateContent env (ready env crd) content finished),
         fst (snd (updateContent env (ready env crd) content finished)),
         prelude env crd @ snd (snd (updateContent env (ready env crd) content finished)))"
proof (cases "inputingStarted crd \<or> inputing_put env = None")
  case True
  then show ?thesis using proceed stream_proceed by blast
next
  case False
  then obtain e where "\<not> inputingStarted crd" "inputing_put env = Some e" by auto
  then show ?thesis using failed stream_fail_inputing by blast
qed

lemma push_flag:
  "inputingStarted (fst (snd (streamAICard env crd content finished))) =
     (inputingStarted crd \<or> inputing_put env = None)"
proof (cases rule: push_cases[where env=env and crd=crd and content=content and finished=finished])
  case (failed e)
  then show ?thesis by (simp add: refresh_fields)
next
  case proceed
  then show ?thesis by (simp add: update_flag ready_fields)
qed

lemma push_inputing_events:
  "filter is_inputing_put (snd (snd (streamAICard env crd content finished))) =
     (if inputingStarted crd then []
      else [InstancesPut (cardInstanceId crd) (accessToken (fst (refreshStaleToken env crd)))
              INPUTING [] (inputing_put env)])"
proof (cases rule: push_cases[where env=env and crd=crd and content=content and finished=finished])
  case (failed e)
  then show ?thesis by (simp add: refresh_trace)
next
  case proceed
  then show ?thesis by (simp add: prelude_inputing update_no_inputing)
qed

lemma ok_subset: "filter is_inputing_ok tr = filter is_inputing_ok (filter is_inputing_put tr)"
proof -
  have "is_inputing_ok ev \<Longrightarrow> is_inputing_put ev" for ev by (cases ev) auto
  then show ?thesis by (auto simp: filter_filter intro: filter_cong)
qed

lemma push_ok_events:
  "filter is_inputing_ok (snd (snd (streamAICard env crd content finished))) =
     (if \<not> inputingStarted crd \<and> inputing_put env = None
      then [InstancesPut (cardInstanceId crd) (accessToken (fst (refreshStaleToken env crd)))
              INPUTING [] None]
      else [])"
  by (subst ok_subset) (auto simp: push_inputing_events)

lemma push_streaming_flag:
  assumes "filter is_streaming_put (snd (snd (streamAICard env crd content finished))) \<noteq> []"
  shows "inputingStarted (fst (snd (streamAICard env crd content finished)))"
proof (cases rule: push_cases[where env=env and crd=crd and content=content and finished=finished])
  case (failed e)
  then show ?thesis using assms by (simp add: refresh_trace)
next
  case proceed
  then show ?thesis by (simp add: update_flag ready_fields)
qed

lemma push_after_streaming:
  "filter is_inputing_put
     (dropWhile (\<lambda>ev. \<not> is_streaming_put ev) (snd (snd (streamAICard env crd content finished)))) = []"
proof (cases rule: push_cases[where env=env and crd=crd and content=content and finished=finished])
  case (failed e)
  have "\<forall>ev\<in>set (snd (refreshStaleToken env crd)). \<not> is_streaming_put ev"
    using refresh_trace(1)[of env crd] by (simp add: filter_empty_conv)
  then show ?thesis using failed by (simp add: dropWhile_append)
next
  case proceed
  obtain ev tr where u: "snd (snd (updateContent env (ready env crd) content finished)) = ev # tr"
    "is_streaming_put ev"
    using update_starts_streaming by blast
  have "filter is_inputing_put (ev # tr) = []"
    using update_no_inputing[of env "ready env crd" content finished] u(1) by simp
  then show ?thesis using proceed u by (simp add: dropWhile_prelude)
qed

lemma run_started:
  "inputingStarted crd \<Longrightarrow>
   filter is_inputing_put (snd (run_pushes crd ps)) = [] \<and> inputingStarted (fst (run_pushes crd ps))"
proof (induction ps arbitrary: crd)
  case Nil
  then show ?case by simp
next
  case (Cons p ps)
  obtain env content finished where p: "p = (env, content, finished)" by (cases p)
  obtain r c1 tr where s: "streamAICard env crd content finished = (r, c1, tr)"
    by (cases "streamAICard env crd content finished")
  have "inputingStarted c1" using push_flag[of env crd content finished] Cons.prems s by simp
  moreover have "filter is_inputing_put tr = []"
    using push_inputing_events[of env crd content finished] Cons.prems s by simp
  ultimately show ?case using Cons.IH[of c1] by (cases "run_pushes c1 ps") (simp add: p s)
qed

lemma run_ok_count:
  "length (filter is_inputing_ok (snd (run_pushes crd ps))) \<le> (if inputingStarted crd then 0 else 1)"
proof (induction ps arbitrary: crd)
  case Nil
  then show ?case by simp
next
  case (Cons p ps)
  obtain env content finished where p: "p = (env, content, finished)" by (cases p)
  obtain r c1 tr where s: "streamAICard env crd content finished = (r, c1, tr)"
    by (cases "streamAICard env crd content finished")
  have flag: "inputingStarted c1 = (inputingStarted crd \<or> inputing_put env = None)"
    using push_flag[of env crd content finished] s by simp
  have ok: "length (filter is_inputing_ok tr) =
      (if \<not> inputingStarted crd \<and> inputing_put env = None then 1 else 0)"
    using push_ok_events[of env crd content finished] s by simp
  show ?case using Cons.IH[of c1] flag ok
    by (cases "run_pushes c1 ps") (auto simp: p s split: if_splits)
qed

lemma run_after_streaming:
  "filter is_inputing_put (dropWhile (\<lambda>ev. \<not> is_streaming_put ev) (snd (run_pushes crd ps))) = []"
proof (induction ps arbitrary: crd)
  case Nil
  then show ?case by simp
next
  case (Cons p ps)
  obtain env content finished where p: "p = (env, content, finished)" by (cases p)
  obtain r c1 tr where s: "streamAICard env crd content finished = (r, c1, tr)"
    by (cases "streamAICard env crd content finished")
  obtain c2 tr2 where r: "run_pushes c1 ps = (c2, tr2)" by (cases "run_pushes c1 ps")
  show ?case
  proof (cases "filter is_streaming_put tr = []")
    case True
    then have "\<forall>ev\<in>set tr. \<not> is_streaming_put ev" by (simp add: filter_empty_conv)
    then have "dropWhile (\<lambda>ev. \<not> is_streaming_put ev) (tr @ tr2) =
        dropWhile (\<lambda>ev. \<not> is_streaming_put ev) tr2"
      by (simp add: dropWhile_append)
    then show ?thesis using Cons.IH[of c1] by (simp add: p s r)
  next
    case False
    then have "inputingStarted c1" using push_streaming_flag[of env crd content finished] s by simp
    then have n2: "filter is_inputing_put tr2 = []" using run_started[of c1 ps] r by simp
    from False obtain x where "x \<in> set tr" "is_streaming_put x"
      by (auto simp: filter_empty_conv)
    then have "dropWhile (\<lambda>ev. \<not> is_streaming_put ev) (tr @ tr2) =
        dropWhile (\<lambda>ev. \<not> is_streaming_put ev) tr @ tr2"
      by (auto simp: dropWhile_append)
    then show ?thesis using push_after_streaming[of env crd content finished] s n2 by (simp add: p r)
  qed
qed

lemma run_flag:
  "inputingStarted (fst (run_pushes crd ps)) =
     (inputingStarted crd \<or> filter is_inputing_ok (snd (run_pushes crd ps)) \<noteq> [])"
proof (induction ps arbitrary: crd)
  case Nil
  then show ?case by simp
next
  case (Cons p ps)
  obtain env content finished where p: "p = (env, content, finished)" by (cases p)
  obtain r c1 tr where s: "streamAICard env crd content finished = (r, c1, tr)"
    by (cases "streamAICard env crd content finished")
  have flag: "inputingStarted c1 = (inputingStarted crd \<or> inputing_put env = None)"
    using push_flag[of env crd content finished] s by simp
  have ok: "(filter is_inputing_ok tr \<noteq> []) = (\<not> inputingStarted crd \<and> inputing_put env = None)"
    using push_ok_events[of env crd content finished] s by simp
  show ?case using Cons.IH[of c1] flag ok
    by (cases "run_pushes c1 ps") (auto simp: p s)
qed

lemma run_no_failure_count:
  "\<forall>p\<in>set ps. inputing_put (fst p) = None \<Longrightarrow>
   length (filter is_inputing_put (snd (run_pushes crd ps))) \<le> 1"
proof (induction ps arbitrary: crd)
  case Nil
  then show ?case by simp
next
  case (Cons p ps)
  obtain env content finished where p: "p = (env, content, finished)" by (cases p)
  obtain r c1 tr where s: "streamAICard env crd content finished = (r, c1, tr)"
    by (cases "streamAICard env crd content finished")
  obtain c2 tr2 where r: "run_pushes c1 ps = (c2, tr2)" by (cases "run_pushes c1 ps")
  have "inputing_put env = None" using Cons.prems p by simp
  then have "inputingStarted c1" using push_flag[of env crd content finished] s by simp
  then have "filter is_inputing_put tr2 = []" using run_started[of c1 ps] r by simp
  moreover have "length (filter is_inputing_put tr) \<le> 1"
    using push_inputing_events[of env crd content finished] s by simp
  ultimately show ?case by (simp add: p s r)
qed

subsection \<open>Sequences of pushes: the switch to INPUTING\<close>

text \<open>
  The flag is set only after the switch has succeeded, so a push after a failed switch
  issues the request again: two requests in this run of two pushes.
\<close>

theorem C2_repeated_switch_counterexample:
  "length (filter is_inputing_put (snd (run_pushes demo_card
      [(demo_env\<lparr>inputing_put := Some (AxiosError (Some 500))\<rparr>, ''a'', False),
       (demo_env, ''ab'', False)]))) = 2"
  by (simp add: streamAICard_def refreshStaleToken_def switchToInputing_def updateContent_def
      markUpdated_def demo_env_def demo_card_def TOKEN_REFRESH_THRESHOLD_def)

text \<open>
  Claim C2, as the code has it, for any instance and any sequence of pushes on it.
  (1) At most one switch request succeeds. (2) No switch request is issued after the first
  content update of the run. (3) Once the flag \<open>inputingStarted\<close> is set, no switch
  request is issued at all. (4) When no switch request fails, at most one is issued.
  (5) The flag is set at the end exactly when it was set at the start or a switch request
  has succeeded.
\<close>

theorem C2_inputing_switch:
  "length (filter is_inputing_ok (snd (run_pushes crd ps))) \<le> 1 \<and>
   filter is_inputing_put
     (dropWhile (\<lambda>ev. \<not> is_streaming_put ev) (snd (run_pushes crd ps))) = [] \<and>
   (inputingStarted crd \<longrightarrow> filter is_inputing_put (snd (run_pushes crd ps)) = []) \<and>
   ((\<forall>p\<in>set ps. inputing_put (fst p) = None) \<longrightarrow>
      length (filter is_inputing_put (snd (run_pushes crd ps))) \<le> 1) \<and>
   inputingStarted (fst (run_pushes crd ps)) =
     (inputingStarted crd \<or> filter is_inputing_ok (snd (run_pushes crd ps)) \<noteq> [])"
proof (intro conjI impI)
  show "length (filter is_inputing_ok (snd (run_pushes crd ps))) \<le> 1"
    using run_ok_count[of crd ps] by (simp split: if_splits)
  show "filter is_inputing_put
     (dropWhile (\<lambda>ev. \<not> is_streaming_put ev) (snd (run_pushes crd ps))) = []"
    by (rule run_after_streaming)
  show "filter is_inputing_put (snd (run_pushes crd ps)) = []" if "inputingStarted crd"
    using run_started[OF that] by simp
  show "length (filter is_inputing_put (snd (run_pushes crd ps))) \<le> 1"
    if "\<forall>p\<in>set ps. inputing_put (fst p) = None"
    using run_no_failure_count[OF that] .
  show "inputingStarted (fst (run_pushes crd ps)) =
     (inputingStarted crd \<or> filter is_inputing_ok (snd (run_pushes crd ps)) \<noteq> [])"
    by (rule run_flag)
qed

theorem C2_inputing_switch_witness:
  "filter is_inputing_put (snd (run_pushes demo_card
      [(demo_env, ''a'', False), (demo_env, ''ab'', False), (demo_env, ''abc'', True)])) =
     [InstancesPut ''card_1'' ''tok0'' INPUTING [] None] \<and>
   snd (run_pushes demo_card
      [(demo_env, ''a'', False), (demo_env, ''ab'', False), (demo_env, ''abc'', True)]) =
     [InstancesPut ''card_1'' ''tok0'' INPUTING [] None,
      StreamingPut ''card_1'' ''tok0'' ''g1'' ''a'' False None,
      StreamingPut ''card_1'' ''tok0'' ''g1'' ''ab'' False None,
      StreamingPut ''card_1'' ''tok0'' ''g1'' ''abc'' True None] \<and>
   inputingStarted (demo_card\<lparr>inputingStarted := True\<rparr>) \<and>
   filter is_inputing_put (snd (run_pushes (demo_card\<lparr>inputingStarted := True\<rparr>)
      [(demo_env, ''a'', False)])) = [] \<and>
   inputingStarted (fst (run_pushes demo_card
      [(demo_env, ''a'', False), (demo_env, ''ab'', False), (demo_env, ''abc'', True)]))"
  using C2_inputing_switch [of demo_card
      "[(demo_env, ''a'', False), (demo_env, ''ab'', False), (demo_env, ''abc'', True)]"]
    C2_inputing_switch [of "demo_card\<lparr>inputingStarted := True\<rparr>" "[(demo_env, ''a'', False)]"]
  by (simp add: streamAICard_def refreshStaleToken_def switchToInputing_def updateContent_def
      markUpdated_def demo_env_def demo_card_def TOKEN_REFRESH_THRESHOLD_def)

theorem C1_streamAICard_failures_witness:
  "fst (streamAICard (demo_env\<lparr>inputing_put := Some (AxiosError (Some 500))\<rparr>) demo_card ''hi'' False)
     = Inl (AxiosError (Some 500)) \<and>
   state (fst (snd (streamAICard (demo_env\<lparr>inputing_put := Some (AxiosError (Some 500))\<rparr>)
      demo_card ''hi'' False))) = PROCESSING \<and>
   fst (streamAICard (demo_env\<lparr>stream_put := Some (AxiosError (Some 500))\<rparr>) demo_card ''hi'' False)
     = Inl (AxiosError (Some 500)) \<and>
   state (fst (snd (streamAICard (demo_env\<lparr>stream_put := Some (AxiosError (Some 500))\<rparr>)
      demo_card ''hi'' False))) = FAILED \<and>
   lastUpdated (fst (snd (streamAICard (demo_env\<lparr>stream_put := Some (AxiosError (Some 500))\<rparr>)
      demo_card ''hi'' False))) = 300 \<and>
   snd (snd (streamAICard (demo_env\<lparr>stream_put := Some (AxiosError (Some 401))\<rparr>)
      demo_card ''hi'' False)) =
     [InstancesPut ''card_1'' ''tok0'' INPUTING [] None,
      StreamingPut ''card_1'' ''tok0'' ''g1'' ''hi'' False (Some (AxiosError (Some 401))),
      TokenFetch (Inr ''tok2''),
      StreamingPut ''card_1'' ''tok2'' ''g1'' ''hi'' False None] \<and>
   fst (streamAICard (demo_env\<lparr>stream_put := Some (AxiosError (Some 401))\<rparr>) demo_card ''hi'' False)
     = Inr () \<and>
   fst (streamAICard (demo_env\<lparr>stream_put := Some (AxiosError (Some 401)),
        retry_put := Some (AxiosError (Some 401))\<rparr>) demo_card ''hi'' False)
     = Inl (AxiosError (Some 401)) \<and>
   state (fst (snd (streamAICard (demo_env\<lparr>stream_put := Some (AxiosError (Some 401)),
        retry_put := Some (AxiosError (Some 401))\<rparr>) demo_card ''hi'' False))) = FAILED \<and>
   state (fst (snd (streamAICard (demo_env\<lparr>stream_put := Some (AxiosError (Some 401)),
        refresh_401 := Inl (Error ''no token'')\<rparr>) demo_card ''hi'' False))) = FAILED \<and>
   snd (snd (streamAICard (demo_env\<lparr>stream_put := Some (AxiosError (Some 401)),
        refresh_401 := Inl (Error ''no token'')\<rparr>) demo_card ''hi'' False)) =
     [InstancesPut ''card_1'' ''tok0'' INPUTING [] None,
      StreamingPut ''card_1'' ''tok0'' ''g1'' ''hi'' False (Some (AxiosError (Some 401))),
      TokenFetch (Inl (Error ''no token''))]"
  using C1_streamAICard_failures [where crd = demo_card and content = "''hi''" and finished = False
      and env = "demo_env\<lparr>inputing_put := Some (AxiosError (Some 500))\<rparr>"
      and e = "AxiosError (Some 500)"]
    C1_streamAICard_failures [where crd = demo_card and content = "''hi''" and finished = False
      and env = "demo_env\<lparr>stream_put := Some (AxiosError (Some 500))\<rparr>"
      and e = "AxiosError (Some 500)"]
    C1_streamAICard_failures [where crd = demo_card and content = "''hi''" and finished = False
      and env = "demo_env\<lparr>stream_put := Some (AxiosError (Some 401))\<rparr>"
      and e = "AxiosError (Some 401)" and tok' = "''tok2''"]
    C1_streamAICard_failures [where crd = demo_card and content = "''hi''" and finished = False
      and env = "demo_env\<lparr>stream_put := Some (AxiosError (Some 401)),
        retry_put := Some (AxiosError (Some 401))\<rparr>"
      and e = "AxiosError (Some 401)" and tok' = "''tok2''"]
    C1_streamAICard_failures [where crd = demo_card and content = "''hi''" and finished = False
      and env = "demo_env\<lparr>stream_put := Some (AxiosError (Some 401)),
        refresh_401 := Inl (Error ''no token'')\<rparr>"
      and e = "AxiosError (Some 401)" and e' = "Error ''no token''"]
  by (simp add: streamAICard_def refreshStaleToken_def switchToInputing_def updateContent_def
      markUpdated_def markFailed_def is401_def demo_env_def demo_card_def
      TOKEN_REFRESH_THRESHOLD_def)

subsection \<open>Terminal states\<close>

lemma update_state_ok:
  "fst (updateContent env crd content finished) = Inr () \<Longrightarrow>
   state (fst (snd (updateContent env crd content finished))) =
     (if finished then FINISHED else if state crd = PROCESSING then INPUTING else state crd)"
  by (auto simp: updateContent_def Let_def markUpdated_def split: option.splits sum.splits if_splits)

lemma update_state_err:
  "fst (updateContent env crd content finished) = Inl e \<Longrightarrow>
   state (fst (snd (updateContent env crd content finished))) = FAILED"
  by (auto simp: updateContent_def Let_def markFailed_def split: option.splits sum.splits if_splits)

lemma update_state_terminal:
  assumes "isCardInTerminalState (state crd)"
  shows "isCardInTerminalState (state (fst (snd (updateContent env crd content finished))))"
proof (cases "fst (updateContent env crd content finished)")
  case (Inl e)
  then show ?thesis by (simp add: update_state_err isCardInTerminalState_def)
next
  case (Inr u)
  then have "fst (updateContent env crd content finished) = Inr ()" by simp
  then show ?thesis using assms by (auto simp: update_state_ok isCardInTerminalState_def)
qed

lemma push_terminal:
  assumes "isCardInTerminalState (state crd)"
  shows "isCardInTerminalState (state (fst (snd (streamAICard env crd content finished))))"
proof (cases rule: push_cases[where env=env and crd=crd and content=content and finished=finished])
  case (failed e)
  then show ?thesis using assms by (simp add: refresh_fields)
next
  case proceed
  have "isCardInTerminalState (state (ready env crd))" using assms by (simp add: ready_fields)
  then show ?thesis using proceed by (simp add: update_state_terminal)
qed

lemma finish_card:
  "fst (snd (finishAICard env finish_put crd content)) = fst (snd (streamAICard env crd content True))"
  by (cases "streamAICard env crd content True" rule: prod_cases3)
    (auto simp: finishAICard_def split: sum.splits)

lemma run_terminal:
  "isCardInTerminalState (state crd) \<Longrightarrow> isCardInTerminalState (state (fst (run_pushes crd ps)))"
proof (induction ps arbitrary: crd)
  case Nil
  then show ?case by simp
next
  case (Cons p ps)
  obtain env content finished where p: "p = (env, content, finished)" by (cases p)
  obtain r c1 tr where s: "streamAICard env crd content finished = (r, c1, tr)"
    by (cases "streamAICard env crd content finished")
  have "isCardInTerminalState (state c1)"
    using push_terminal[OF Cons.prems, of env content finished] s by simp
  then show ?case using Cons.IH[of c1] by (cases "run_pushes c1 ps") (simp add: p s)
qed

lemma push_state_ok:
  assumes "fst (streamAICard env crd content finished) = Inr ()"
  shows "state (fst (snd (streamAICard env crd content finished))) =
     (if finished then FINISHED else if state crd = PROCESSING then INPUTING else state crd)"
proof (cases rule: push_cases[where env=env and crd=crd and content=content and finished=finished])
  case (failed e)
  then show ?thesis using assms by simp
next
  case proceed
  then have "fst (updateContent env (ready env crd) content finished) = Inr ()" using assms by simp
  then show ?thesis using proceed by (simp add: update_state_ok ready_fields)
qed

lemma push_state_err:
  assumes "inputingStarted crd \<or> inputing_put env = None"
    "fst (streamAICard env crd content finished) = Inl e"
  shows "state (fst (snd (streamAICard env crd content finished))) = FAILED"
proof -
  have s: "streamAICard env crd content finished =
        (fst (updateContent env (ready env crd) content finished),
         fst (snd (updateContent env (ready env crd) content finished)),
         prelude env crd @ snd (snd (updateContent env (ready env crd) content finished)))"
    using assms(1) by (rule stream_proceed)
  then have "fst (updateContent env (ready env crd) content finished) = Inl e" using assms(2) by simp
  then show ?thesis using s by (simp add: update_state_err)
qed

lemma updateCardState_lookup:
  "map_of (cardInstances cache) cid = Some crd \<Longrightarrow>
   map_of (cardInstances (updateCardState now cid st cache)) cid =
     Some (crd\<lparr>state := st, lastUpdated := now\<rparr>)"
  by (simp add: updateCardState_def update_conv')

text \<open>
  A successful finalizing push on an instance that is already FAILED moves it to FINISHED:
  this is what the message handler does after a failed push, to close the remote card.
\<close>

theorem C3_failed_to_finished_counterexample:
  "isCardInTerminalState (state (demo_card\<lparr>state := FAILED, inputingStarted := True\<rparr>)) \<and>
   fst (streamAICard demo_env (demo_card\<lparr>state := FAILED, inputingStarted := True\<rparr>) ''bye'' True)
     = Inr () \<and>
   state (fst (snd (streamAICard demo_env
      (demo_card\<lparr>state := FAILED, inputingStarted := True\<rparr>) ''bye'' True))) = FINISHED \<and>
   state (fst (snd (streamAICard demo_env
      (demo_card\<lparr>state := FAILED, inputingStarted := True\<rparr>) ''bye'' True)))
     \<noteq> state (demo_card\<lparr>state := FAILED, inputingStarted := True\<rparr>)"
  by (simp add: streamAICard_def refreshStaleToken_def switchToInputing_def updateContent_def
      markUpdated_def demo_env_def demo_card_def TOKEN_REFRESH_THRESHOLD_def
      isCardInTerminalState_def)

text \<open>
  Claim C3, as the code has it. (1) Once the state is terminal, it is terminal after
  \<open>streamAICard\<close>, after \<open>finishAICard\<close> and after any sequence of pushes. (2) A
  successful push that does not finalize leaves a terminal state unchanged. (3) So does a
  push whose switch to INPUTING fails. (4) A successful finalizing push sets FINISHED
  whatever the state was, also from FAILED. (5) A failed content update sets FAILED whatever
  the state was, also from FINISHED. (6) \<open>updateCardState\<close> stores the state it is
  given, without looking at the current one.
\<close>

theorem C3_terminal_states:
  "(isCardInTerminalState (state crd) \<longrightarrow>
      isCardInTerminalState (state (fst (snd (streamAICard env crd content finished)))) \<and>
      isCardInTerminalState (state (fst (snd (finishAICard env finish_put crd content)))) \<and>
      isCardInTerminalState (state (fst (run_pushes crd ps)))) \<and>
   (isCardInTerminalState (state crd) \<and> \<not> finished \<and>
    fst (streamAICard env crd content finished) = Inr () \<longrightarrow>
      state (fst (snd (streamAICard env crd content finished))) = state crd) \<and>
   (\<not> inputingStarted crd \<and> inputing_put env \<noteq> None \<longrightarrow>
      state (fst (snd (streamAICard env crd content finished))) = state crd) \<and>
   (fst (streamAICard env crd content True) = Inr () \<longrightarrow>
      state (fst (snd (streamAICard env crd content True))) = FINISHED) \<and>
   ((inputingStarted crd \<or> inputing_put env = None) \<and>
    fst (streamAICard env crd content finished) = Inl e \<longrightarrow>
      state (fst (snd (streamAICard env crd content finished))) = FAILED) \<and>
   (map_of (cardInstances cache) cid = Some crd \<longrightarrow>
      map_of (cardInstances (updateCardState now cid st cache)) cid =
        Some (crd\<lparr>state := st, lastUpdated := now\<rparr>))"
proof (intro conjI impI)
  assume t: "isCardInTerminalState (state crd)"
  show "isCardInTerminalState (state (fst (snd (streamAICard env crd content finished))))"
    using t by (rule push_terminal)
  show "isCardInTerminalState (state (fst (snd (finishAICard env finish_put crd content))))"
    using push_terminal[OF t, of env content True] by (simp add: finish_card)
  show "isCardInTerminalState (state (fst (run_pushes crd ps)))"
    using t by (rule run_terminal)
next
  assume "isCardInTerminalState (state crd) \<and> \<not> finished \<and>
    fst (streamAICard env crd content finished) = Inr ()"
  then show "state (fst (snd (streamAICard env crd content finished))) = state crd"
    using push_state_ok[of env crd content finished] by (auto simp: isCardInTerminalState_def)
next
  assume "\<not> inputingStarted crd \<and> inputing_put env \<noteq> None"
  then obtain e' where "\<not> inputingStarted crd" "inputing_put env = Some e'" by auto
  then show "state (fst (snd (streamAICard env crd content finished))) = state crd"
    by (simp add: stream_fail_inputing refresh_fields)
next
  assume "fst (streamAICard env crd content True) = Inr ()"
  then show "state (fst (snd (streamAICard env crd content True))) = FINISHED"
    using push_state_ok[of env crd content True] by simp
next
  assume "(inputingStarted crd \<or> inputing_put env = None) \<and>
    fst (streamAICard env crd content finished) = Inl e"
  then show "state (fst (snd (streamAICard env crd content finished))) = FAILED"
    using push_state_err by blast
next
  assume "map_of (cardInstances cache) cid = Some crd"
  then show "map_of (cardInstances (updateCardState now cid st cache)) cid =
        Some (crd\<lparr>state := st, lastUpdated := now\<rparr>)"
    by (rule updateCardState_lookup)
qed

theorem C3_terminal_states_witness:
  "isCardInTerminalState (state done_card) \<and>
   state (fst (snd (streamAICard demo_env done_card ''x'' False))) = FINISHED \<and>
   fst (streamAICard demo_env done_card ''x'' False) = Inr () \<and>
   state (fst (snd (finishAICard demo_env None done_card ''x''))) = FINISHED \<and>
   state (fst (run_pushes done_card [(demo_env, ''x'', False), (demo_env, ''y'', False)])) = FINISHED \<and>
   state (fst (snd (streamAICard (demo_env\<lparr>inputing_put := Some (Error ''down'')\<rparr>)
       demo_card ''x'' False))) = PROCESSING \<and>
   state (fst (snd (streamAICard demo_env demo_card ''x'' True))) = FINISHED \<and>
   state (fst (snd (streamAICard (demo_env\<lparr>stream_put := Some (Error ''down'')\<rparr>)
       done_card ''x'' False))) = FAILED \<and>
   map_of (cardInstances (updateCardState 900 ''card_1'' PROCESSING
       \<lparr>cardInstances = [(''card_1'', done_card)], activeCardsByTarget = []\<rparr>)) ''card_1'' =
     Some (done_card\<lparr>state := PROCESSING, lastUpdated := 900\<rparr>)"
  using C3_terminal_states [where crd = done_card and env = demo_env and content = "''x''"
      and finished = False and finish_put = None
      and ps = "[(demo_env, ''x'', False), (demo_env, ''y'', False)]"
      and cache = "\<lparr>cardInstances = [(''card_1'', done_card)], activeCardsByTarget = []\<rparr>"
      and cid = "''card_1''" and now = 900 and st = PROCESSING]
    C3_terminal_states [where crd = demo_card and content = "''x''" and finished = False
      and env = "demo_env\<lparr>inputing_put := Some (Error ''down'')\<rparr>"]
    C3_terminal_states [where crd = demo_card and content = "''x''" and env = demo_env]
    C3_terminal_states [where crd = done_card and content = "''x''" and finished = False
      and env = "demo_env\<lparr>stream_put := Some (Error ''down'')\<rparr>" and e = "Error ''down''"]
  by (simp add: streamAICard_def finishAICard_def refreshStaleToken_def switchToInputing_def
      updateContent_def markUpdated_def markFailed_def is401_def demo_env_def demo_card_def
      done_card_def TOKEN_REFRESH_THRESHOLD_def isCardInTerminalState_def updateCardState_def)

section \<open>Verification: card cache\<close>

lemma createAICard_id:
  "createAICard env cfg target = Some nc \<Longrightarrow> cardInstanceId nc = ''card_'' @ uuid env"
  by (auto simp: createAICard_def split: sum.splits option.splits prod.splits)

lemma createAICard_fresh:
  "createAICard env cfg target = Some nc \<Longrightarrow>
   state nc = PROCESSING \<and> \<not> inputingStarted nc \<and>
   conversationId nc = AICardTarget.conversationId target \<and>
   accountId nc = AICardTarget.accountId target"
  by (auto simp: createAICard_def split: sum.splits option.splits prod.splits)

lemma ids_truthy_lookup:
  "ids_truthy cache \<Longrightarrow> map_of (activeCardsByTarget cache) k = Some cid \<Longrightarrow> cid \<noteq> []"
  by (auto simp: ids_truthy_def dest!: map_of_SomeD) (metis snd_conv image_eqI)

lemma set_delete_subset: "set (AList.delete k al) \<subseteq> set al"
  by (auto simp: AList.delete_eq)

lemma set_update_subset: "set (AList.update k v al) \<subseteq> insert (k, v) (set al)"
  by (induction al) auto

lemma ids_truthy_delete:
  "ids_truthy cache \<Longrightarrow>
   ids_truthy (cache\<lparr>activeCardsByTarget := AList.delete k (activeCardsByTarget cache)\<rparr>)"
  using set_delete_subset[of k "activeCardsByTarget cache"] by (auto simp: ids_truthy_def)

lemma ids_truthy_update:
  "ids_truthy cache \<Longrightarrow> v \<noteq> [] \<Longrightarrow>
   ids_truthy (cache\<lparr>activeCardsByTarget := AList.update k v (activeCardsByTarget cache)\<rparr>)"
  using set_update_subset[of k v "activeCardsByTarget cache"] by (auto simp: ids_truthy_def)

lemma ids_truthy_instances [simp]:
  "ids_truthy (cache\<lparr>cardInstances := ci\<rparr>) = ids_truthy cache"
  by (simp add: ids_truthy_def)

lemma getOrCreateCard_reuse:
  assumes "map_of (activeCardsByTarget cache)
             (getTargetKey (AICardTarget.accountId target) (AICardTarget.conversationId target)) = Some cid"
    "cid \<noteq> []" "map_of (cardInstances cache) cid = Some crd" "\<not> isCardInTerminalState (state crd)"
  shows "getOrCreateCard env cfg target cache = (Some crd, cache)"
  using assms by (simp add: getOrCreateCard_def Let_def)

lemma getOrCreateCard_replace:
  assumes "map_of (activeCardsByTarget cache)
             (getTargetKey (AICardTarget.accountId target) (AICardTarget.conversationId target)) = Some cid"
    "cid \<noteq> []"
    "map_of (cardInstances cache) cid = None \<or>
     (\<exists>crd. map_of (cardInstances cache) cid = Some crd \<and> isCardInTerminalState (state crd))"
  shows "getOrCreateCard env cfg target cache =
     (case createAICard env cfg target of
        None \<Rightarrow>
          (None, cache\<lparr>activeCardsByTarget :=
             AList.delete (getTargetKey (AICardTarget.accountId target) (AICardTarget.conversationId target))
               (activeCardsByTarget cache)\<rparr>)
      | Some newCard \<Rightarrow>
          (Some newCard,
           \<lparr>cardInstances = AList.update (cardInstanceId newCard) newCard (cardInstances cache),
            activeCardsByTarget =
              AList.update (getTargetKey (AICardTarget.accountId target) (AICardTarget.conversationId target))
                (cardInstanceId newCard)
                (AList.delete (getTargetKey (AICardTarget.accountId target) (AICardTarget.conversationId target))
                   (activeCardsByTarget cache))\<rparr>))"
  using assms by (auto simp: getOrCreateCard_def Let_def split: option.splits)

lemma getOrCreateCard_create:
  assumes "map_of (activeCardsByTarget cache)
             (getTargetKey (AICardTarget.accountId target) (AICardTarget.conversationId target)) = None"
  shows "getOrCreateCard env cfg target cache =
     (case createAICard env cfg target of
        None \<Rightarrow> (None, cache)
      | Some newCard \<Rightarrow>
          (Some newCard,
           \<lparr>cardInstances = AList.update (cardInstanceId newCard) newCard (cardInstances cache),
            activeCardsByTarget =
              AList.update (getTargetKey (AICardTarget.accountId target) (AICardTarget.conversationId target))
                (cardInstanceId newCard) (activeCardsByTarget cache)\<rparr>))"
  using assms by (auto simp: getOrCreateCard_def Let_def split: option.splits)

lemma set_removeFirstMapping: "set (removeFirstMapping cardId al) \<subseteq> set al"
  by (induction al) (auto split: if_splits)

lemma truthy_update:
  "v \<noteq> [] \<Longrightarrow> [] \<notin> snd ` set al \<Longrightarrow> [] \<notin> snd ` set (AList.update k v al)"
  using set_update_subset[of k v al] by force

lemma truthy_delete:
  "[] \<notin> snd ` set al \<Longrightarrow> [] \<notin> snd ` set (AList.delete k al)"
  using set_delete_subset[of k al] by force

lemma ids_truthy_cleanup_step:
  "ids_truthy c \<Longrightarrow>
   ids_truthy (c\<lparr>cardInstances := ci, activeCardsByTarget := removeFirstMapping cardId (activeCardsByTarget c)\<rparr>)"
  using set_removeFirstMapping[of cardId "activeCardsByTarget c"] by (auto simp: ids_truthy_def)

lemma ids_truthy_foldl:
  "ids_truthy c \<Longrightarrow>
   ids_truthy (foldl (\<lambda>c (cardId, crd).
              if isCardInTerminalState (state crd) \<and> now - lastUpdated crd > CARD_CACHE_TTL
              then c\<lparr>cardInstances := AList.delete cardId (cardInstances c),
                     activeCardsByTarget := removeFirstMapping cardId (activeCardsByTarget c)\<rparr>
              else c) c xs)"
proof (induction xs arbitrary: c)
  case Nil
  then show ?case by simp
next
  case (Cons x xs)
  obtain cardId crd where x: "x = (cardId, crd)" by (cases x)
  show ?case using Cons.prems
    by (auto simp: x intro!: Cons.IH ids_truthy_cleanup_step)
qed

lemma ids_truthy_getOrCreateCard:
  assumes "ids_truthy cache"
  shows "ids_truthy (snd (getOrCreateCard env cfg target cache))"
proof -
  have nc: "cardInstanceId nc \<noteq> []" if "createAICard env cfg target = Some nc" for nc
    using createAICard_id[OF that] by simp
  show ?thesis using assms
    by (auto simp: getOrCreateCard_def Let_def ids_truthy_def truthy_update truthy_delete nc
        split: option.splits)
qed

lemma ids_truthy_others:
  "ids_truthy \<lparr>cardInstances = [], activeCardsByTarget = []\<rparr>"
  "ids_truthy (clearAllCache cache)"
  "ids_truthy cache \<Longrightarrow> ids_truthy (snd (getActiveCardForTarget accId convId cache))"
  "ids_truthy cache \<Longrightarrow> ids_truthy (updateCardState now cardId st cache)"
  "ids_truthy cache \<Longrightarrow> ids_truthy (removeActiveCard accId convId cache)"
  "ids_truthy cache \<Longrightarrow> ids_truthy (cleanupCardCache now cache)"
proof -
  show "ids_truthy \<lparr>cardInstances = [], activeCardsByTarget = []\<rparr>" by (simp add: ids_truthy_def)
  show "ids_truthy (clearAllCache cache)" by (simp add: ids_truthy_def clearAllCache_def)
  show "ids_truthy cache \<Longrightarrow> ids_truthy (snd (getActiveCardForTarget accId convId cache))"
    by (auto simp: getActiveCardForTarget_def Let_def ids_truthy_delete split: option.splits)
  show "ids_truthy cache \<Longrightarrow> ids_truthy (updateCardState now cardId st cache)"
    by (auto simp: updateCardState_def split: option.splits)
  show "ids_truthy cache \<Longrightarrow> ids_truthy (removeActiveCard accId convId cache)"
    by (simp add: removeActiveCard_def ids_truthy_delete)
  show "ids_truthy cache \<Longrightarrow> ids_truthy (cleanupCardCache now cache)"
    unfolding cleanupCardCache_def by (rule ids_truthy_foldl)
qed

text \<open>
  Claim C4. In a cache whose target map holds only truthy identifiers (every reachable
  cache does: the lemmas above), for the key of the target: (1) when the key is mapped to a
  cached instance in a non-terminal state, that instance is returned and the cache is
  unchanged, so nothing is created; (2) when the key is mapped to an identifier whose
  instance is missing or terminal, the mapping is deleted and a card is created: on
  failure nothing is returned and nothing is installed, on success the new instance and
  the mapping to it are installed; (3) when the key is not mapped, a card is created and
  installed in the same way, only on success. The cache returned holds only truthy
  identifiers again.
\<close>

theorem C4_getOrCreateCard:
  assumes "ids_truthy cache"
    and "key = getTargetKey (AICardTarget.accountId target) (AICardTarget.conversationId target)"
  shows
   "(\<forall>cid crd. map_of (activeCardsByTarget cache) key = Some cid \<and>
        map_of (cardInstances cache) cid = Some crd \<and> \<not> isCardInTerminalState (state crd) \<longrightarrow>
        getOrCreateCard env cfg target cache = (Some crd, cache)) \<and>
    (\<forall>cid. map_of (activeCardsByTarget cache) key = Some cid \<and>
        (map_of (cardInstances cache) cid = None \<or>
         (\<exists>crd. map_of (cardInstances cache) cid = Some crd \<and> isCardInTerminalState (state crd))) \<longrightarrow>
        getOrCreateCard env cfg target cache =
          (case createAICard env cfg target of
             None \<Rightarrow>
               (None, cache\<lparr>activeCardsByTarget := AList.delete key (activeCardsByTarget cache)\<rparr>)
           | Some newCard \<Rightarrow>
               (Some newCard,
                \<lparr>cardInstances = AList.update (cardInstanceId newCard) newCard (cardInstances cache),
                 activeCardsByTarget =
                   AList.update key (cardInstanceId newCard)
                     (AList.delete key (activeCardsByTarget cache))\<rparr>))) \<and>
    (map_of (activeCardsByTarget cache) key = None \<longrightarrow>
        getOrCreateCard env cfg target cache =
          (case createAICard env cfg target of
             None \<Rightarrow> (None, cache)
           | Some newCard \<Rightarrow>
               (Some newCard,
                \<lparr>cardInstances = AList.update (cardInstanceId newCard) newCard (cardInstances cache),
                 activeCardsByTarget =
                   AList.update key (cardInstanceId newCard) (activeCardsByTarget cache)\<rparr>))) \<and>
    ids_truthy (snd (getOrCreateCard env cfg target cache))"
proof (intro conjI allI impI)
  fix cid crd
  assume a: "map_of (activeCardsByTarget cache) key = Some cid \<and>
        map_of (cardInstances cache) cid = Some crd \<and> \<not> isCardInTerminalState (state crd)"
  then have "cid \<noteq> []" using ids_truthy_lookup[OF assms(1)] by blast
  then show "getOrCreateCard env cfg target cache = (Some crd, cache)"
    using a assms(2) by (simp add: getOrCreateCard_reuse)
next
  fix cid
  assume a: "map_of (activeCardsByTarget cache) key = Some cid \<and>
        (map_of (cardInstances cache) cid = None \<or>
         (\<exists>crd. map_of (cardInstances cache) cid = Some crd \<and> isCardInTerminalState (state crd)))"
  then have "cid \<noteq> []" using ids_truthy_lookup[OF assms(1)] by blast
  then show "getOrCreateCard env cfg target cache =
          (case createAICard env cfg target of
             None \<Rightarrow>
               (None, cache\<lparr>activeCardsByTarget := AList.delete key (activeCardsByTarget cache)\<rparr>)
           | Some newCard \<Rightarrow>
               (Some newCard,
                \<lparr>cardInstances = AList.update (cardInstanceId newCard) newCard (cardInstances cache),
                 activeCardsByTarget =
                   AList.update key (cardInstanceId newCard)
                     (AList.delete key (activeCardsByTarget cache))\<rparr>))"
    using a getOrCreateCard_replace[of cache target cid env cfg] unfolding assms(2) by blast
next
  assume "map_of (activeCardsByTarget cache) key = None"
  then show "getOrCreateCard env cfg target cache =
          (case createAICard env cfg target of
             None \<Rightarrow> (None, cache)
           | Some newCard \<Rightarrow>
               (Some newCard,
                \<lparr>cardInstances = AList.update (cardInstanceId newCard) newCard (cardInstances cache),
                 activeCardsByTarget =
                   AList.update key (cardInstanceId newCard) (activeCardsByTarget cache)\<rparr>))"
    unfolding assms(2) by (rule getOrCreateCard_create)
next
  show "ids_truthy (snd (getOrCreateCard env cfg target cache))"
    using assms(1) by (rule ids_truthy_getOrCreateCard)
qed

lemma demo_create_result:
  "createAICard demo_create demo_config demo_target = Some new_card"
  "createAICard (demo_create\<lparr>token_result := Inl (Error ''no token'')\<rparr>) demo_config demo_target = None"
  by (simp_all add: createAICard_def demo_create_def new_card_def demo_target_def
      retryWithBackoff_def retry_loop.simps[of "\<lambda>k. Inr ()" _ _ 0] mergeOptions_def)

theorem C4_getOrCreateCard_witness:
  "ids_truthy demo_cache \<and>
   getOrCreateCard demo_create demo_config demo_target demo_cache = (Some demo_card, demo_cache) \<and>
   getOrCreateCard demo_create demo_config demo_target
       \<lparr>cardInstances = [(''card_1'', done_card)],
         activeCardsByTarget = [(''acc:cv'', ''card_1'')]\<rparr> =
     (Some new_card,
      \<lparr>cardInstances = [(''card_1'', done_card), (''card_2'', new_card)],
        activeCardsByTarget = [(''acc:cv'', ''card_2'')]\<rparr>) \<and>
   getOrCreateCard (demo_create\<lparr>token_result := Inl (Error ''no token'')\<rparr>) demo_config demo_target
       \<lparr>cardInstances = [(''card_1'', done_card)],
         activeCardsByTarget = [(''acc:cv'', ''card_1'')]\<rparr> =
     (None, \<lparr>cardInstances = [(''card_1'', done_card)], activeCardsByTarget = []\<rparr>) \<and>
   getOrCreateCard demo_create demo_config demo_target
       \<lparr>cardInstances = [], activeCardsByTarget = []\<rparr> =
     (Some new_card,
      \<lparr>cardInstances = [(''card_2'', new_card)], activeCardsByTarget = [(''acc:cv'', ''card_2'')]\<rparr>)"
proof -
  let ?old = "\<lparr>cardInstances = [(''card_1'', done_card)],
               activeCardsByTarget = [(''acc:cv'', ''card_1'')]\<rparr>"
  let ?empty = "\<lparr>cardInstances = [], activeCardsByTarget = []\<rparr> :: card_cache"
  have k: "''acc:cv'' = getTargetKey (AICardTarget.accountId demo_target)
             (AICardTarget.conversationId demo_target)"
    by (simp add: getTargetKey_def demo_target_def)
  have i1: "ids_truthy demo_cache" by (simp add: ids_truthy_def demo_cache_def)
  have i2: "ids_truthy ?old" by (simp add: ids_truthy_def)
  have i3: "ids_truthy ?empty" by (simp add: ids_truthy_def)
  have nid: "cardInstanceId new_card = ''card_2''" by (simp add: new_card_def)
  have "map_of (activeCardsByTarget demo_cache) ''acc:cv'' = Some ''card_1'' \<and>
        map_of (cardInstances demo_cache) ''card_1'' = Some demo_card \<and>
        \<not> isCardInTerminalState (state demo_card)"
    by (simp add: demo_cache_def demo_card_def isCardInTerminalState_def)
  with C4_getOrCreateCard [OF i1 k, of demo_create demo_config]
  have a: "getOrCreateCard demo_create demo_config demo_target demo_cache = (Some demo_card, demo_cache)"
    by blast
  have old: "map_of (activeCardsByTarget ?old) ''acc:cv'' = Some ''card_1'' \<and>
        (map_of (cardInstances ?old) ''card_1'' = None \<or>
         (\<exists>crd. map_of (cardInstances ?old) ''card_1'' = Some crd \<and> isCardInTerminalState (state crd)))"
    by (simp add: done_card_def isCardInTerminalState_def)
  from C4_getOrCreateCard [OF i2 k, of demo_create demo_config] old
  have "getOrCreateCard demo_create demo_config demo_target ?old =
          (case createAICard demo_create demo_config demo_target of
             None \<Rightarrow>
               (None, ?old\<lparr>activeCardsByTarget := AList.delete ''acc:cv'' (activeCardsByTarget ?old)\<rparr>)
           | Some newCard \<Rightarrow>
               (Some newCard,
                \<lparr>cardInstances = AList.update (cardInstanceId newCard) newCard (cardInstances ?old),
                 activeCardsByTarget =
                   AList.update ''acc:cv'' (cardInstanceId newCard)
                     (AList.delete ''acc:cv'' (activeCardsByTarget ?old))\<rparr>))"
    by blast
  then have b: "getOrCreateCard demo_create demo_config demo_target ?old =
     (Some new_card,
      \<lparr>cardInstances = [(''card_1'', done_card), (''card_2'', new_card)],
        activeCardsByTarget = [(''acc:cv'', ''card_2'')]\<rparr>)"
    by (simp add: demo_create_result nid AList.delete_eq)
  from C4_getOrCreateCard [OF i2 k, of "demo_create\<lparr>token_result := Inl (Error ''no token'')\<rparr>"
      demo_config] old
  have "getOrCreateCard (demo_create\<lparr>token_result := Inl (Error ''no token'')\<rparr>) demo_config
          demo_target ?old =
          (case createAICard (demo_create\<lparr>token_result := Inl (Error ''no token'')\<rparr>) demo_config
                  demo_target of
             None \<Rightarrow>
               (None, ?old\<lparr>activeCardsByTarget := AList.delete ''acc:cv'' (activeCardsByTarget ?old)\<rparr>)
           | Some newCard \<Rightarrow>
               (Some newCard,
                \<lparr>cardInstances = AList.update (cardInstanceId newCard) newCard (cardInstances ?old),
                 activeCardsByTarget =
                   AList.update ''acc:cv'' (cardInstanceId newCard)
                     (AList.delete ''acc:cv'' (activeCardsByTarget ?old))\<rparr>))"
    by blast
  then have c: "getOrCreateCard (demo_create\<lparr>token_result := Inl (Error ''no token'')\<rparr>) demo_config
          demo_target ?old =
     (None, \<lparr>cardInstances = [(''card_1'', done_card)], activeCardsByTarget = []\<rparr>)"
    by (simp add: demo_create_result AList.delete_eq)
  have "map_of (activeCardsByTarget ?empty) ''acc:cv'' = None" by simp
  with C4_getOrCreateCard [OF i3 k, of demo_create demo_config]
  have "getOrCreateCard demo_create demo_config demo_target ?empty =
          (case createAICard demo_create demo_config demo_target of
             None \<Rightarrow> (None, ?empty)
           | Some newCard \<Rightarrow>
               (Some newCard,
                \<lparr>cardInstances = AList.update (cardInstanceId newCard) newCard (cardInstances ?empty),
                 activeCardsByTarget =
                   AList.update ''acc:cv'' (cardInstanceId newCard) (activeCardsByTarget ?empty)\<rparr>))"
    by blast
  then have d: "getOrCreateCard demo_create demo_config demo_target ?empty =
     (Some new_card,
      \<lparr>cardInstances = [(''card_2'', new_card)], activeCardsByTarget = [(''acc:cv'', ''card_2'')]\<rparr>)"
    by (simp add: demo_create_result nid)
  from i1 a b c d show ?thesis by blast
qed

section \<open>Verification: retry with backoff\<close>

lemma attempts_log_step:
  "a < k \<Longrightarrow> attempts_log delay a k = Invoke a # Sleep (delay a) # attempts_log delay (Suc a) k"
  by (simp add: attempts_log_def upt_conv_Cons)

lemma attempts_log_last: "attempts_log delay k k = [Invoke k]"
  by (simp add: attempts_log_def)

lemma lessEq_Num: "lessEq (Num x) n = (n = PosInfinity \<or> (\<exists>m. n = Num m \<and> x \<le> m))"
  by (cases n) auto

lemma strictEquals_Num: "strictEquals (Num x) v = (v = Number (Num x))"
proof (cases v)
  case Undefined
  then show ?thesis by simp
next
  case (Number n)
  then show ?thesis by (cases n) auto
qed

lemma toNumber_eq:
  "toNumber v = PosInfinity \<longleftrightarrow> v = Number PosInfinity"
  "toNumber v = Num m \<longleftrightarrow> v = Number (Num m)"
  by (cases v; simp)+

lemma retry_loop_success:
  assumes "lessEq (Num (real k)) (toNumber (maxRetries opts))" "fn k = Inr v"
  shows "a \<le> k \<Longrightarrow> (\<forall>i. a \<le> i \<and> i < k \<longrightarrow> (\<exists>e. fn i = Inl e)) \<Longrightarrow>
     retry_loop fn random opts a lastError tr =
       Some (Inr v, tr @ attempts_log (backoffDelay opts random) a k)"
proof (induction "k - a" arbitrary: a lastError tr)
  case 0
  then have "a = k" by simp
  then show ?case using assms
    by (simp add: retry_loop.simps[of fn random opts k] attempts_log_last)
next
  case (Suc n)
  then have lt: "a < k" by simp
  then obtain e where e: "fn a = Inl e" using Suc.prems by blast
  have le: "lessEq (Num (real a)) (toNumber (maxRetries opts))"
    using assms(1) lt by (auto simp: lessEq_Num)
  have ne: "\<not> strictEquals (Num (real a)) (maxRetries opts)"
    using assms(1) lt by (auto simp: lessEq_Num strictEquals_Num)
  have "retry_loop fn random opts (Suc a) (Some (as_error e))
          (tr @ [Invoke a, Sleep (backoffDelay opts random a)]) =
      Some (Inr v, (tr @ [Invoke a, Sleep (backoffDelay opts random a)]) @
                   attempts_log (backoffDelay opts random) (Suc a) k)"
    using Suc.hyps(1)[of "Suc a"] Suc.hyps(2) Suc.prems lt by auto
  then show ?case using e ne le lt
    by (simp add: retry_loop.simps[of fn random opts a] attempts_log_step)
qed

lemma retry_loop_exhausted:
  assumes "maxRetries opts = Number (Num (real n))" "\<forall>i\<le>n. fn i = Inl (errs i)"
  shows "a \<le> n \<Longrightarrow>
     retry_loop fn random opts a lastError tr =
       Some (Inl (as_error (errs n)), tr @ attempts_log (backoffDelay opts random) a n)"
proof (induction "n - a" arbitrary: a lastError tr)
  case 0
  then have a: "a = n" by simp
  have "fn n = Inl (errs n)" using assms(2) by simp
  then show ?case using assms(1)
    by (simp add: a retry_loop.simps[of fn random opts n] attempts_log_last)
next
  case (Suc d)
  then have lt: "a < n" by simp
  have e: "fn a = Inl (errs a)" using assms(2) lt by simp
  have "retry_loop fn random opts (Suc a) (Some (as_error (errs a)))
          (tr @ [Invoke a, Sleep (backoffDelay opts random a)]) =
       Some (Inl (as_error (errs n)),
             (tr @ [Invoke a, Sleep (backoffDelay opts random a)]) @
             attempts_log (backoffDelay opts random) (Suc a) n)"
    using Suc.hyps(1)[of "Suc a"] Suc.hyps(2) lt by auto
  then show ?case using e lt assms(1)
    by (simp add: retry_loop.simps[of fn random opts a] attempts_log_step)
qed

lemma retry_loop_overrun:
  assumes "maxRetries opts = Number (Num m)" "0 \<le> m" "m \<notin> \<int>" "\<forall>i\<le>nat \<lfloor>m\<rfloor>. fn i = Inl (errs i)"
  shows "a \<le> nat \<lfloor>m\<rfloor> \<Longrightarrow>
     retry_loop fn random opts a lastError tr =
       Some (Inl (as_error (errs (nat \<lfloor>m\<rfloor>))),
             tr @ attempts_log (backoffDelay opts random) a (nat \<lfloor>m\<rfloor>) @
             [Sleep (backoffDelay opts random (nat \<lfloor>m\<rfloor>))])"
proof (induction "nat \<lfloor>m\<rfloor> - a" arbitrary: a lastError tr)
  case 0
  then have a: "a = nat \<lfloor>m\<rfloor>" by simp
  have le: "real a \<le> m" using assms(2) a by (simp add: of_nat_floor)
  have ne: "real a \<noteq> m" using assms(3) by (metis Ints_of_nat)
  have gt: "\<not> real (Suc a) \<le> m" using a assms(2) by linarith
  have e: "fn a = Inl (errs a)" using assms(4) a by simp
  have "retry_loop fn random opts (Suc a) (Some (as_error (errs a)))
          (tr @ [Invoke a, Sleep (backoffDelay opts random a)]) =
        Some (Inl (as_error (errs a)), tr @ [Invoke a, Sleep (backoffDelay opts random a)])"
    using assms(1) gt by (simp add: retry_loop.simps[of fn random opts "Suc a"] del: of_nat_Suc)
  then show ?case using e le ne assms(1)
    by (simp add: retry_loop.simps[of fn random opts a] attempts_log_last a[symmetric])
next
  case (Suc d)
  then have lt: "a < nat \<lfloor>m\<rfloor>" by simp
  then have le: "real a \<le> m" using assms(2) by linarith
  have ne: "real a \<noteq> m" using assms(3) by (metis Ints_of_nat)
  have e: "fn a = Inl (errs a)" using assms(4) lt by simp
  have "retry_loop fn random opts (Suc a) (Some (as_error (errs a)))
          (tr @ [Invoke a, Sleep (backoffDelay opts random a)]) =
       Some (Inl (as_error (errs (nat \<lfloor>m\<rfloor>))),
             (tr @ [Invoke a, Sleep (backoffDelay opts random a)]) @
             attempts_log (backoffDelay opts random) (Suc a) (nat \<lfloor>m\<rfloor>) @
             [Sleep (backoffDelay opts random (nat \<lfloor>m\<rfloor>))])"
    using Suc.hyps(1)[of "Suc a"] Suc.hyps(2) lt by auto
  then show ?case using e lt le ne assms(1)
    by (simp add: retry_loop.simps[of fn random opts a] attempts_log_step)
qed

lemma retry_loop_never_run:
  "\<not> lessEq (Num 0) (toNumber (maxRetries opts)) \<Longrightarrow>
   retry_loop fn random opts 0 None [] = Some (Inl (Error ''Retry failed''), [])"
  by (simp add: retry_loop.simps[of fn random opts 0])

lemma retry_loop_returns:
  assumes "maxRetries opts = Number (Num m)"
  shows "\<exists>r tr'. retry_loop fn random opts a lastError tr = Some (r, tr @ tr') \<and>
           real (length (filter is_invoke tr')) \<le> max 0 (m + 1 - real a)"
proof (induction "nat (\<lfloor>m\<rfloor> + 1 - int a)" arbitrary: a lastError tr rule: less_induct)
  case less
  show ?case
  proof (cases "real a \<le> m")
    case False
    then show ?thesis using assms by (simp add: retry_loop.simps[of fn random opts a])
  next
    case le: True
    show ?thesis
    proof (cases "fn a")
      case (Inr v)
      then have "retry_loop fn random opts a lastError tr = Some (Inr v, tr @ [Invoke a])"
        using le assms by (simp add: retry_loop.simps[of fn random opts a])
      then show ?thesis using le by force
    next
      case (Inl err)
      show ?thesis
      proof (cases "real a = m")
        case True
        then have "retry_loop fn random opts a lastError tr = Some (Inl (as_error err), tr @ [Invoke a])"
          using Inl assms by (simp add: retry_loop.simps[of fn random opts a])
        then show ?thesis using le by force
      next
        case False
        have dec: "nat (\<lfloor>m\<rfloor> + 1 - int (Suc a)) < nat (\<lfloor>m\<rfloor> + 1 - int a)"
          using le by (simp add: le_floor_iff)
        let ?tr = "tr @ [Invoke a, Sleep (backoffDelay opts random a)]"
        obtain r tr' where r: "retry_loop fn random opts (Suc a) (Some (as_error err)) ?tr = Some (r, ?tr @ tr')"
          and b: "real (length (filter is_invoke tr')) \<le> max 0 (m + 1 - real (Suc a))"
          using less[OF dec, of "Some (as_error err)" ?tr] by blast
        have "retry_loop fn random opts a lastError tr =
            Some (r, tr @ (Invoke a # Sleep (backoffDelay opts random a) # tr'))"
          using Inl le False assms r by (simp add: retry_loop.simps[of fn random opts a])
        moreover have "real (length (filter is_invoke (Invoke a # Sleep (backoffDelay opts random a) # tr')))
            \<le> max 0 (m + 1 - real a)"
          using b le by simp
        ultimately show ?thesis by blast
      qed
    qed
  qed
qed

lemma retry_loop_diverges:
  assumes "maxRetries opts = Number PosInfinity" "\<forall>i. \<exists>e. fn i = Inl e"
  shows "retry_loop fn random opts a lastError tr = None"
proof (rule ccontr)
  assume "retry_loop fn random opts a lastError tr \<noteq> None"
  then obtain y where y: "retry_loop fn random opts a lastError tr = Some y" by auto
  have "\<not> (maxRetries opts = Number PosInfinity \<and> (\<forall>i. \<exists>e. fn i = Inl e))"
  proof (rule retry_loop.raw_induct[where P = "\<lambda>fn random opts attempt lastError tr y.
            \<not> (maxRetries opts = Number PosInfinity \<and> (\<forall>i. \<exists>e. fn i = Inl e))", OF _ y])
    fix loop :: "(nat \<Rightarrow> thrown + 'a) \<Rightarrow> (nat \<Rightarrow> real) \<Rightarrow> RetryOptions \<Rightarrow> nat \<Rightarrow> error option
        \<Rightarrow> retry_event list \<Rightarrow> ((error + 'a) \<times> retry_event list) option"
    fix fn random opts attempt lastError tr y
    assume IH: "\<And>fn random opts attempt lastError tr y.
        loop fn random opts attempt lastError tr = Some y \<Longrightarrow>
        \<not> (maxRetries opts = Number PosInfinity \<and> (\<forall>i. \<exists>e. fn i = Inl e))"
    assume body: "(if lessEq (Num (real attempt)) (toNumber (maxRetries opts)) then
        (case fn attempt of
           Inr v \<Rightarrow> Some (Inr v, tr @ [Invoke attempt])
         | Inl err \<Rightarrow>
             (if strictEquals (Num (real attempt)) (maxRetries opts)
              then Some (Inl (as_error err), tr @ [Invoke attempt])
              else loop fn random opts (Suc attempt) (Some (as_error err))
                     (tr @ [Invoke attempt, Sleep (backoffDelay opts random attempt)])))
      else Some (Inl (case lastError of Some e \<Rightarrow> e | None \<Rightarrow> Error ''Retry failed''), tr)) = Some y"
    show "\<not> (maxRetries opts = Number PosInfinity \<and> (\<forall>i. \<exists>e. fn i = Inl e))"
    proof
      assume h: "maxRetries opts = Number PosInfinity \<and> (\<forall>i. \<exists>e. fn i = Inl e)"
      then obtain e where e: "fn attempt = Inl e" by blast
      have "loop fn random opts (Suc attempt) (Some (as_error e))
              (tr @ [Invoke attempt, Sleep (backoffDelay opts random attempt)]) = Some y"
        using body h e by simp
      then show False using IH h by blast
    qed
  qed
  then show False using assms by blast
qed


lemma backoffDelay_table:
  "backoffDelay opts random i =
     (case baseDelay opts of
        Undefined \<Rightarrow> NaN
      | Number NaN \<Rightarrow> NaN
      | Number (Num b) \<Rightarrow>
          (case maxDelay opts of
             Undefined \<Rightarrow> NaN
           | Number NaN \<Rightarrow> NaN
           | Number (Num d) \<Rightarrow> Num (min (b * 2 ^ i + random i * 1000) d)
           | Number PosInfinity \<Rightarrow> Num (b * 2 ^ i + random i * 1000)
           | Number NegInfinity \<Rightarrow> NegInfinity)
      | Number PosInfinity \<Rightarrow> (case maxDelay opts of Undefined \<Rightarrow> NaN | Number d \<Rightarrow> d)
      | Number NegInfinity \<Rightarrow>
          (case maxDelay opts of Undefined \<Rightarrow> NaN | Number NaN \<Rightarrow> NaN | Number d \<Rightarrow> NegInfinity))"
  by (simp add: backoffDelay_def min_def split: optional_number.splits number.splits)

text \<open>
  Claim C9. \<open>M\<close>, \<open>B\<close> and \<open>D\<close> are the \<open>maxRetries\<close>, \<open>baseDelay\<close> and
  \<open>maxDelay\<close> that govern the run: the caller's property when it is present, the default
  (3, 1000, 10000) when it is absent. \<open>delay i\<close> is the wait after the failed attempt
  \<open>i\<close>: \<open>min (B * 2 ^ i + jitter) D\<close> for finite \<open>B\<close> and \<open>D\<close>, and what the
  arithmetic of numbers gives otherwise.
  (1) For a finite \<open>M\<close> the call returns, after at most \<open>M + 1\<close> invocations of the
  operation. (2) When the attempts before attempt \<open>k\<close> fail and attempt \<open>k\<close> (at most
  \<open>M\<close>) succeeds, its value is returned, after exactly the invocations \<open>0 .. k\<close>, each
  failed one followed by a sleep of \<open>delay\<close>. (3) When \<open>M\<close> is a natural number and
  every attempt fails, the error of the last attempt, number \<open>M\<close>, is thrown (the thrown
  value itself when it is an \<open>Error\<close>, an \<open>Error\<close> of its text otherwise), after the
  invocations \<open>0 .. M\<close> with a sleep after each but the last. (4) When \<open>M\<close> is
  positive and not an integer, the attempts are \<open>0 .. \<lfloor>M\<rfloor>\<close>, the error of the last of
  them is thrown, and there is a sleep after the last attempt too. (5) When \<open>M\<close> is
  negative, \<open>NaN\<close> or \<open>undefined\<close>, the operation is never invoked and an error
  \<open>Retry failed\<close> is thrown. (6) When \<open>M\<close> is \<open>Infinity\<close> and every attempt
  fails, the call does not return. (7) The jitter \<open>Math.random() * 1000\<close> lies in the
  interval from 0 (included) to 1000 (excluded).
\<close>

theorem C9_retryWithBackoff:
  fixes fn :: "nat \<Rightarrow> thrown + 'a" and random :: "nat \<Rightarrow> real" and options :: RetryOptionsArg
  defines "M \<equiv> (case maxRetriesArg options of None \<Rightarrow> Number (Num 3) | Some x \<Rightarrow> x)"
    and "B \<equiv> (case baseDelayArg options of None \<Rightarrow> Number (Num 1000) | Some x \<Rightarrow> x)"
    and "D \<equiv> (case maxDelayArg options of None \<Rightarrow> Number (Num 10000) | Some x \<Rightarrow> x)"
  defines "delay \<equiv> (\<lambda>i.
     (case B of
        Undefined \<Rightarrow> NaN
      | Number NaN \<Rightarrow> NaN
      | Number (Num b) \<Rightarrow>
          (case D of
             Undefined \<Rightarrow> NaN
           | Number NaN \<Rightarrow> NaN
           | Number (Num d) \<Rightarrow> Num (min (b * 2 ^ i + random i * 1000) d)
           | Number PosInfinity \<Rightarrow> Num (b * 2 ^ i + random i * 1000)
           | Number NegInfinity \<Rightarrow> NegInfinity)
      | Number PosInfinity \<Rightarrow> (case D of Undefined \<Rightarrow> NaN | Number d \<Rightarrow> d)
      | Number NegInfinity \<Rightarrow>
          (case D of Undefined \<Rightarrow> NaN | Number NaN \<Rightarrow> NaN | Number d \<Rightarrow> NegInfinity)))"
  shows
  "(\<forall>m. M = Number (Num m) \<longrightarrow>
      (\<exists>r tr. retryWithBackoff fn random options = Some (r, tr) \<and>
               real (length (filter is_invoke tr)) \<le> max 0 (m + 1))) \<and>
   ((M = Number PosInfinity \<or> (\<exists>m. M = Number (Num m) \<and> real k \<le> m)) \<and>
    (\<forall>i<k. \<exists>e. fn i = Inl e) \<and> fn k = Inr v \<longrightarrow>
      retryWithBackoff fn random options = Some (Inr v, attempts_log delay 0 k)) \<and>
   (M = Number (Num (real n)) \<and> (\<forall>i\<le>n. fn i = Inl (errs i)) \<longrightarrow>
      retryWithBackoff fn random options =
        Some (Inl (case errs n of IsError e \<Rightarrow> e | NotError s \<Rightarrow> Error s), attempts_log delay 0 n)) \<and>
   (M = Number (Num x) \<and> 0 \<le> x \<and> x \<notin> \<int> \<and> (\<forall>i\<le>nat \<lfloor>x\<rfloor>. fn i = Inl (errs i)) \<longrightarrow>
      retryWithBackoff fn random options =
        Some (Inl (case errs (nat \<lfloor>x\<rfloor>) of IsError e \<Rightarrow> e | NotError s \<Rightarrow> Error s),
              attempts_log delay 0 (nat \<lfloor>x\<rfloor>) @ [Sleep (delay (nat \<lfloor>x\<rfloor>))])) \<and>
   (M = Undefined \<or> M = Number NaN \<or> M = Number NegInfinity \<or> (\<exists>m<0. M = Number (Num m)) \<longrightarrow>
      retryWithBackoff fn random options = Some (Inl (Error ''Retry failed''), [])) \<and>
   (M = Number PosInfinity \<and> (\<forall>i. \<exists>e. fn i = Inl e) \<longrightarrow>
      retryWithBackoff fn random options = None) \<and>
   (\<forall>i. 0 \<le> random i \<and> random i < 1 \<longrightarrow> 0 \<le> random i * 1000 \<and> random i * 1000 < 1000)"
proof -
  let ?opts = "mergeOptions options"
  have M: "maxRetries ?opts = M"
    by (simp add: mergeOptions_def M_def DEFAULT_RETRY_OPTIONS_def split: option.splits)
  have B: "baseDelay ?opts = B"
    by (simp add: mergeOptions_def B_def DEFAULT_RETRY_OPTIONS_def split: option.splits)
  have D: "maxDelay ?opts = D"
    by (simp add: mergeOptions_def D_def DEFAULT_RETRY_OPTIONS_def split: option.splits)
  have delay: "backoffDelay ?opts random = delay"
    unfolding delay_def by (rule ext) (simp only: backoffDelay_table B D)
  have c1: "\<forall>m. M = Number (Num m) \<longrightarrow>
      (\<exists>r tr. retryWithBackoff fn random options = Some (r, tr) \<and>
               real (length (filter is_invoke tr)) \<le> max 0 (m + 1))"
  proof (intro allI impI)
    fix m
    assume "M = Number (Num m)"
    then have "maxRetries ?opts = Number (Num m)" by (simp add: M)
    from retry_loop_returns[OF this, of fn random 0 None "[]"]
    show "\<exists>r tr. retryWithBackoff fn random options = Some (r, tr) \<and>
               real (length (filter is_invoke tr)) \<le> max 0 (m + 1)"
      by (simp add: retryWithBackoff_def)
  qed
  have c2: "(M = Number PosInfinity \<or> (\<exists>m. M = Number (Num m) \<and> real k \<le> m)) \<and>
    (\<forall>i<k. \<exists>e. fn i = Inl e) \<and> fn k = Inr v \<longrightarrow>
      retryWithBackoff fn random options = Some (Inr v, attempts_log delay 0 k)"
  proof
    assume a: "(M = Number PosInfinity \<or> (\<exists>m. M = Number (Num m) \<and> real k \<le> m)) \<and>
      (\<forall>i<k. \<exists>e. fn i = Inl e) \<and> fn k = Inr v"
    then have le: "lessEq (Num (real k)) (toNumber (maxRetries ?opts))"
      by (auto simp: M lessEq_Num)
    have "retry_loop fn random ?opts 0 None [] =
        Some (Inr v, [] @ attempts_log (backoffDelay ?opts random) 0 k)"
      using a by (intro retry_loop_success[OF le]) simp_all
    then show "retryWithBackoff fn random options = Some (Inr v, attempts_log delay 0 k)"
      by (simp add: retryWithBackoff_def delay)
  qed
  have c3: "M = Number (Num (real n)) \<and> (\<forall>i\<le>n. fn i = Inl (errs i)) \<longrightarrow>
      retryWithBackoff fn random options =
        Some (Inl (case errs n of IsError e \<Rightarrow> e | NotError s \<Rightarrow> Error s), attempts_log delay 0 n)"
  proof
    assume a: "M = Number (Num (real n)) \<and> (\<forall>i\<le>n. fn i = Inl (errs i))"
    then have m: "maxRetries ?opts = Number (Num (real n))" by (simp add: M)
    have "retry_loop fn random ?opts 0 None [] =
        Some (Inl (as_error (errs n)), [] @ attempts_log (backoffDelay ?opts random) 0 n)"
      using a by (intro retry_loop_exhausted[OF m]) simp_all
    then show "retryWithBackoff fn random options =
        Some (Inl (case errs n of IsError e \<Rightarrow> e | NotError s \<Rightarrow> Error s), attempts_log delay 0 n)"
      by (simp add: retryWithBackoff_def delay as_error_def)
  qed
  have c4: "M = Number (Num x) \<and> 0 \<le> x \<and> x \<notin> \<int> \<and> (\<forall>i\<le>nat \<lfloor>x\<rfloor>. fn i = Inl (errs i)) \<longrightarrow>
      retryWithBackoff fn random options =
        Some (Inl (case errs (nat \<lfloor>x\<rfloor>) of IsError e \<Rightarrow> e | NotError s \<Rightarrow> Error s),
              attempts_log delay 0 (nat \<lfloor>x\<rfloor>) @ [Sleep (delay (nat \<lfloor>x\<rfloor>))])"
  proof
    assume a: "M = Number (Num x) \<and> 0 \<le> x \<and> x \<notin> \<int> \<and> (\<forall>i\<le>nat \<lfloor>x\<rfloor>. fn i = Inl (errs i))"
    then have m: "maxRetries ?opts = Number (Num x)" by (simp add: M)
    have "retry_loop fn random ?opts 0 None [] =
        Some (Inl (as_error (errs (nat \<lfloor>x\<rfloor>))),
              [] @ attempts_log (backoffDelay ?opts random) 0 (nat \<lfloor>x\<rfloor>) @
              [Sleep (backoffDelay ?opts random (nat \<lfloor>x\<rfloor>))])"
      using a by (intro retry_loop_overrun[OF m]) simp_all
    then show "retryWithBackoff fn random options =
        Some (Inl (case errs (nat \<lfloor>x\<rfloor>) of IsError e \<Rightarrow> e | NotError s \<Rightarrow> Error s),
              attempts_log delay 0 (nat \<lfloor>x\<rfloor>) @ [Sleep (delay (nat \<lfloor>x\<rfloor>))])"
      by (simp add: retryWithBackoff_def delay as_error_def)
  qed
  have c5: "M = Undefined \<or> M = Number NaN \<or> M = Number NegInfinity \<or> (\<exists>m<0. M = Number (Num m)) \<longrightarrow>
      retryWithBackoff fn random options = Some (Inl (Error ''Retry failed''), [])"
  proof
    assume "M = Undefined \<or> M = Number NaN \<or> M = Number NegInfinity \<or> (\<exists>m<0. M = Number (Num m))"
    then have "\<not> lessEq (Num 0) (toNumber (maxRetries ?opts))"
      by (auto simp: M)
    then show "retryWithBackoff fn random options = Some (Inl (Error ''Retry failed''), [])"
      unfolding retryWithBackoff_def by (rule retry_loop_never_run)
  qed
  have c6: "M = Number PosInfinity \<and> (\<forall>i. \<exists>e. fn i = Inl e) \<longrightarrow>
      retryWithBackoff fn random options = None"
    unfolding retryWithBackoff_def using retry_loop_diverges[of ?opts fn random 0 None "[]"]
    by (simp add: M)
  have c7: "\<forall>i. 0 \<le> random i \<and> random i < 1 \<longrightarrow> 0 \<le> random i * 1000 \<and> random i * 1000 < 1000"
    by simp
  from c1 c2 c3 c4 c5 c6 c7 show ?thesis by (intro conjI)
qed


lemma demo_log:
  "attempts_log delay 0 (Suc 0) = [Invoke 0, Sleep (delay 0), Invoke 1]"
  "attempts_log delay 0 2 = [Invoke 0, Sleep (delay 0), Invoke 1, Sleep (delay 1), Invoke 2]"
  by (simp_all add: attempts_log_def upt_rec numeral_2_eq_2)

theorem C9_retryWithBackoff_witness:
  "retryWithBackoff ok_at_1 demo_random demo_options =
     Some (Inr (), [Invoke 0, Sleep (Num 1250), Invoke 1]) \<and>
   retryWithBackoff always_500 demo_random demo_options =
     Some (Inl (AxiosError (Some 500)),
           [Invoke 0, Sleep (Num 1250), Invoke 1, Sleep (Num 2500), Invoke 2]) \<and>
   (\<exists>r tr. retryWithBackoff always_500 demo_random demo_options = Some (r, tr) \<and>
            real (length (filter is_invoke tr)) \<le> 3) \<and>
   retryWithBackoff ok_at_1 demo_random
     \<lparr>maxRetriesArg = Some (Number (Num (1 / 2))), baseDelayArg = Some (Number (Num 100)),
      maxDelayArg = Some (Number (Num 300))\<rparr> =
     Some (Inl (Error ''busy''), [Invoke 0, Sleep (Num 300)]) \<and>
   retryWithBackoff always_500 demo_random
     \<lparr>maxRetriesArg = Some Undefined, baseDelayArg = None, maxDelayArg = None\<rparr> =
     Some (Inl (Error ''Retry failed''), []) \<and>
   retryWithBackoff always_500 demo_random
     \<lparr>maxRetriesArg = Some (Number PosInfinity), baseDelayArg = None, maxDelayArg = None\<rparr> = None \<and>
   (0::real) \<le> demo_random 0 * 1000 \<and> demo_random 0 * 1000 < 1000"
proof -
  note ok = C9_retryWithBackoff [where fn = ok_at_1 and random = demo_random
      and options = demo_options and k = 1 and v = "()"]
  have a: "retryWithBackoff ok_at_1 demo_random demo_options =
      Some (Inr (), [Invoke 0, Sleep (Num 1250), Invoke 1])"
    using ok[THEN conjunct2, THEN conjunct1]
    by (simp add: demo_options_def ok_at_1_def demo_log demo_random_def)
  note all = C9_retryWithBackoff [where fn = always_500 and random = demo_random
      and options = demo_options and n = 2 and errs = "\<lambda>i. IsError (AxiosError (Some 500))"]
  have b: "retryWithBackoff always_500 demo_random demo_options =
     Some (Inl (AxiosError (Some 500)),
           [Invoke 0, Sleep (Num 1250), Invoke 1, Sleep (Num 2500), Invoke 2])"
    using all[THEN conjunct2, THEN conjunct2, THEN conjunct1]
    by (simp add: demo_options_def always_500_def demo_log demo_random_def)
  have c: "\<exists>r tr. retryWithBackoff always_500 demo_random demo_options = Some (r, tr) \<and>
            real (length (filter is_invoke tr)) \<le> 3"
    using all[THEN conjunct1] by (simp add: demo_options_def)
  let ?half = "\<lparr>maxRetriesArg = Some (Number (Num (1 / 2))), baseDelayArg = Some (Number (Num 100)),
      maxDelayArg = Some (Number (Num 300))\<rparr>"
  have ni: "(1 / 2 :: real) \<notin> \<int>"
  proof
    assume "(1 / 2 :: real) \<in> \<int>"
    then obtain z :: int where "(1 / 2 :: real) = of_int z" by (auto elim: Ints_cases)
    then have "(1 :: real) = of_int (2 * z)" by simp
    then have "(1 :: int) = 2 * z" using of_int_eq_iff[of 1 "2 * z", where 'a = real] by simp
    then show False by presburger
  qed
  note half = C9_retryWithBackoff [where fn = ok_at_1 and random = demo_random
      and options = ?half and x = "1 / 2" and errs = "\<lambda>i. NotError ''busy''"]
  have d: "retryWithBackoff ok_at_1 demo_random ?half =
     Some (Inl (Error ''busy''), [Invoke 0, Sleep (Num 300)])"
    using half[THEN conjunct2, THEN conjunct2, THEN conjunct2, THEN conjunct1] ni
    by (simp add: ok_at_1_def attempts_log_def demo_random_def)
  note undef = C9_retryWithBackoff [where fn = always_500 and random = demo_random
      and options = "\<lparr>maxRetriesArg = Some Undefined, baseDelayArg = None, maxDelayArg = None\<rparr>"]
  have e: "retryWithBackoff always_500 demo_random
     \<lparr>maxRetriesArg = Some Undefined, baseDelayArg = None, maxDelayArg = None\<rparr> =
     Some (Inl (Error ''Retry failed''), [])"
    using undef[THEN conjunct2, THEN conjunct2, THEN conjunct2, THEN conjunct2, THEN conjunct1]
    by simp
  note inf = C9_retryWithBackoff [where fn = always_500 and random = demo_random
      and options = "\<lparr>maxRetriesArg = Some (Number PosInfinity), baseDelayArg = None, maxDelayArg = None\<rparr>"]
  have f: "retryWithBackoff always_500 demo_random
     \<lparr>maxRetriesArg = Some (Number PosInfinity), baseDelayArg = None, maxDelayArg = None\<rparr> = None"
    using inf[THEN conjunct2, THEN conjunct2, THEN conjunct2, THEN conjunct2, THEN conjunct2,
        THEN conjunct1]
    by (simp add: always_500_def)
  have "0 \<le> demo_random 0 \<and> demo_random 0 < 1" by (simp add: demo_random_def)
  then have g: "0 \<le> demo_random 0 * 1000 \<and> demo_random 0 * 1000 < 1000"
    using inf[THEN conjunct2, THEN conjunct2, THEN conjunct2, THEN conjunct2, THEN conjunct2,
        THEN conjunct2] by blast
  from a b c d e f g show ?thesis by blast
qed

lemma createAICard_retry_returns:
  "retryWithBackoff fn random
     \<lparr>maxRetriesArg = Some (Number (Num 2)), baseDelayArg = None, maxDelayArg = None\<rparr> \<noteq> None"
  using retry_loop_returns[of "mergeOptions
      \<lparr>maxRetriesArg = Some (Number (Num 2)), baseDelayArg = None, maxDelayArg = None\<rparr>"
      2 fn random 0 None "[]"]
  by (auto simp: retryWithBackoff_def mergeOptions_def)

section \<open>Verification: gateway stream consumer\<close>

lemma truthy_the: "truthy content \<Longrightarrow> content = Some (the content)"
  by (cases content) auto

lemma processLines_fragments:
  "v \<in> set (snd (snd (processLines parse log_info n ls))) \<Longrightarrow> fragment_of parse v"
proof (induction ls arbitrary: n v)
  case Nil
  then show ?case by simp
next
  case (Cons line rest)
  show ?case
  proof (cases "startsWith line ''data: '' \<and> trim (drop 6 line) \<noteq> ''[DONE]''")
    case False
    then show ?thesis using Cons by (auto simp: Let_def split: if_splits)
  next
    case True
    show ?thesis
    proof (cases "parse (trim (drop 6 line))")
      case None
      then show ?thesis using True Cons by (simp add: Let_def)
    next
      case (Some chunk)
      show ?thesis
      proof (cases "deltaContent chunk")
        case None
        then show ?thesis using True Some Cons by (simp add: Let_def)
      next
        case dc: (Some content)
        show ?thesis
        proof (cases "truthy content")
          case False
          then show ?thesis using True Some dc Cons by (simp add: Let_def)
        next
          case t: True
          then have c: "content = Some (the content)" by (rule truthy_the)
          have frag: "fragment_of parse (the content)"
            unfolding fragment_of_def using Some dc t c by metis
          obtain d m ys where r: "processLines parse log_info (n + 1) rest = (d, m, ys)"
            by (cases "processLines parse log_info (n + 1) rest")
          have "v \<in> set ys \<Longrightarrow> fragment_of parse v"
            using Cons.IH[of v "n + 1"] r by simp
          then show ?thesis using True Some dc t Cons.prems frag r
            by (auto simp: Let_def split: if_splits)
        qed
      qed
    qed
  qed
qed

lemma readLoop_fragments:
  "v \<in> set (readLoop parse log_info buffer n reads) \<Longrightarrow> fragment_of parse v"
proof (induction reads arbitrary: buffer n)
  case Nil
  then show ?case by simp
next
  case (Cons r reads)
  obtain d m ys where p: "processLines parse log_info n (butlast (split_lines (buffer @ r))) = (d, m, ys)"
    by (cases "processLines parse log_info n (butlast (split_lines (buffer @ r)))")
  have ys: "w \<in> set ys \<Longrightarrow> fragment_of parse w" for w
    using processLines_fragments[of w parse log_info n "butlast (split_lines (buffer @ r))"] p by simp
  have step: "readLoop parse log_info buffer n (r # reads) =
      (if d then ys else ys @ readLoop parse log_info (last (split_lines (buffer @ r))) m reads)"
    using p by (simp add: Let_def)
  show ?case
  proof (cases "v \<in> set ys")
    case True
    then show ?thesis by (rule ys)
  next
    case False
    then have "v \<in> set (readLoop parse log_info (last (split_lines (buffer @ r))) m reads)"
      using Cons.prems step by (auto split: if_splits)
    then show ?thesis by (rule Cons.IH)
  qed
qed

lemma stream_fragments:
  "v \<in> set (snd (streamFromGateway parse log_info fetched)) \<Longrightarrow> fragment_of parse v"
  by (cases fetched; cases "resp_body (projr fetched)")
    (auto simp: streamFromGateway_def split: if_splits dest: readLoop_fragments)

text \<open>
  A data line whose delta content is a non-empty array: the value is truthy and has a
  \<open>slice\<close> method, so it is logged and yielded as it is. The fragment is not a string.
\<close>

theorem C10_array_content_counterexample:
  \<open>snd (streamFromGateway demo_parse True (demo_response
      [''data: {"choices":[{"delta":{"content":["a"]}}]}'' @ [CHR 0x0A]])) = [JArr [JStr ''a'']]\<close>
  by (simp add: streamFromGateway_def demo_response_def demo_parse_def startsWith_def trim_def
      isWhiteSpace_def deltaContent_def)

lemma pl_skip_prefix:
  "\<not> startsWith line ''data: '' \<Longrightarrow>
   processLines parse log_info n (line # rest) = processLines parse log_info n rest"
  by simp

lemma pl_parse_fail:
  "startsWith line ''data: '' \<Longrightarrow> trim (drop 6 line) \<noteq> ''[DONE]'' \<Longrightarrow>
   parse (trim (drop 6 line)) = None \<Longrightarrow>
   processLines parse log_info n (line # rest) = processLines parse log_info n rest"
  by (simp add: Let_def)

lemma pl_falsy:
  "startsWith line ''data: '' \<Longrightarrow> trim (drop 6 line) \<noteq> ''[DONE]'' \<Longrightarrow>
   parse (trim (drop 6 line)) = Some chunk \<Longrightarrow> deltaContent chunk = Some content \<Longrightarrow>
   \<not> truthy content \<Longrightarrow>
   processLines parse log_info n (line # rest) = processLines parse log_info n rest"
  by (simp add: Let_def)

lemma fragments_textual:
  assumes p: "\<forall>data chunk c. parse data = Some chunk \<and> deltaContent chunk = Some (Some c) \<longrightarrow>
        c = JNull \<or> (\<exists>s. c = JStr s)"
    and v: "fragment_of parse v"
  shows "\<exists>s. v = JStr s \<and> s \<noteq> []"
proof -
  from v obtain data chunk where d: "parse data = Some chunk" "deltaContent chunk = Some (Some v)"
    and t: "truthy (Some v)"
    unfolding fragment_of_def by blast
  from p d have "v = JNull \<or> (\<exists>s. v = JStr s)" by blast
  then show ?thesis
  proof
    assume "v = JNull"
    with t show ?thesis by simp
  next
    assume "\<exists>s. v = JStr s"
    then obtain s where "v = JStr s" ..
    with t show ?thesis by simp
  qed
qed

text \<open>
  Claim C10, as the code has it. (1) Every fragment yielded is the truthy
  \<open>choices[0].delta.content\<close> of a data line whose JSON parsed. (2) No empty string is
  ever yielded. (3) When the content of every event is a string or \<open>null\<close>, as the
  completion protocol has it, every fragment yielded is a non-empty string. A line that
  (4) does not start with the data prefix, (5) does not parse, or (6) parses to an event
  whose content is absent, \<open>null\<close> or the empty string, yields nothing: the loop goes on
  with the next line, the chunk counter unchanged.
\<close>

theorem C10_fragments:
  "(\<forall>v\<in>set (snd (streamFromGateway parse log_info fetched)).
      truthy (Some v) \<and>
      (\<exists>data chunk. parse data = Some chunk \<and> deltaContent chunk = Some (Some v))) \<and>
   (\<forall>s. JStr s \<in> set (snd (streamFromGateway parse log_info fetched)) \<longrightarrow> s \<noteq> []) \<and>
   ((\<forall>data chunk c. parse data = Some chunk \<and> deltaContent chunk = Some (Some c) \<longrightarrow>
        c = JNull \<or> (\<exists>s. c = JStr s)) \<longrightarrow>
      (\<forall>v\<in>set (snd (streamFromGateway parse log_info fetched)). \<exists>s. v = JStr s \<and> s \<noteq> [])) \<and>
   (\<not> startsWith line ''data: '' \<longrightarrow>
      processLines parse log_info n (line # rest) = processLines parse log_info n rest) \<and>
   (startsWith line ''data: '' \<and> trim (drop 6 line) \<noteq> ''[DONE]'' \<and>
    parse (trim (drop 6 line)) = None \<longrightarrow>
      processLines parse log_info n (line # rest) = processLines parse log_info n rest) \<and>
   (startsWith line ''data: '' \<and> trim (drop 6 line) \<noteq> ''[DONE]'' \<and>
    parse (trim (drop 6 line)) = Some chunk \<and>
    (deltaContent chunk = Some None \<or> deltaContent chunk = Some (Some JNull) \<or>
     deltaContent chunk = Some (Some (JStr []))) \<longrightarrow>
      processLines parse log_info n (line # rest) = processLines parse log_info n rest)"
proof -
  have a: "\<forall>v\<in>set (snd (streamFromGateway parse log_info fetched)).
      truthy (Some v) \<and>
      (\<exists>data chunk. parse data = Some chunk \<and> deltaContent chunk = Some (Some v))"
  proof
    fix v assume "v \<in> set (snd (streamFromGateway parse log_info fetched))"
    then have "fragment_of parse v" by (rule stream_fragments)
    then show "truthy (Some v) \<and>
      (\<exists>data chunk. parse data = Some chunk \<and> deltaContent chunk = Some (Some v))"
      unfolding fragment_of_def by blast
  qed
  have b: "\<forall>s. JStr s \<in> set (snd (streamFromGateway parse log_info fetched)) \<longrightarrow> s \<noteq> []"
  proof (intro allI impI)
    fix s assume "JStr s \<in> set (snd (streamFromGateway parse log_info fetched))"
    with a have "truthy (Some (JStr s))" by blast
    then show "s \<noteq> []" by simp
  qed
  have c: "(\<forall>data chunk c. parse data = Some chunk \<and> deltaContent chunk = Some (Some c) \<longrightarrow>
        c = JNull \<or> (\<exists>s. c = JStr s)) \<longrightarrow>
      (\<forall>v\<in>set (snd (streamFromGateway parse log_info fetched)). \<exists>s. v = JStr s \<and> s \<noteq> [])"
  proof (intro impI ballI)
    fix v
    assume p: "\<forall>data chunk c. parse data = Some chunk \<and> deltaContent chunk = Some (Some c) \<longrightarrow>
        c = JNull \<or> (\<exists>s. c = JStr s)"
      and "v \<in> set (snd (streamFromGateway parse log_info fetched))"
    then have "fragment_of parse v" by (simp add: stream_fragments)
    with p show "\<exists>s. v = JStr s \<and> s \<noteq> []" by (rule fragments_textual)
  qed
  have d: "\<not> startsWith line ''data: '' \<longrightarrow>
      processLines parse log_info n (line # rest) = processLines parse log_info n rest"
    using pl_skip_prefix by blast
  have e: "startsWith line ''data: '' \<and> trim (drop 6 line) \<noteq> ''[DONE]'' \<and>
    parse (trim (drop 6 line)) = None \<longrightarrow>
      processLines parse log_info n (line # rest) = processLines parse log_info n rest"
    using pl_parse_fail by blast
  have f: "startsWith line ''data: '' \<and> trim (drop 6 line) \<noteq> ''[DONE]'' \<and>
    parse (trim (drop 6 line)) = Some chunk \<and>
    (deltaContent chunk = Some None \<or> deltaContent chunk = Some (Some JNull) \<or>
     deltaContent chunk = Some (Some (JStr []))) \<longrightarrow>
      processLines parse log_info n (line # rest) = processLines parse log_info n rest"
  proof (intro impI, elim conjE disjE)
    assume h: "startsWith line ''data: ''" "trim (drop 6 line) \<noteq> ''[DONE]''"
      "parse (trim (drop 6 line)) = Some chunk"
    {
      assume "deltaContent chunk = Some None"
      with h show "processLines parse log_info n (line # rest) = processLines parse log_info n rest"
        by (rule pl_falsy) simp
    next
      assume "deltaContent chunk = Some (Some JNull)"
      with h show "processLines parse log_info n (line # rest) = processLines parse log_info n rest"
        by (rule pl_falsy) simp
    next
      assume "deltaContent chunk = Some (Some (JStr []))"
      with h show "processLines parse log_info n (line # rest) = processLines parse log_info n rest"
        by (rule pl_falsy) simp
    }
  qed
  from a b c d e f show ?thesis by (intro conjI)
qed

theorem C10_fragments_witness:
  \<open>snd (streamFromGateway demo_parse True (demo_response
      [''data: {"choices":[{"delta":{"content":"hello "}}]}'' @ [CHR 0x0A] @ ''data: {"cho'',
       ''ices":[{"delta":{}}]}'' @ [CHR 0x0A] @ '': ping'' @ [CHR 0x0A] @ ''data: {junk'' @ [CHR 0x0A]]))
     = [JStr ''hello ''] \<and>
   truthy (Some (JStr ''hello '')) \<and>
   processLines demo_parse True 0 ['': ping'', ''data: {junk'', ''data: {"choices":[{"delta":{}}]}'']
     = (False, 0, [])\<close>
proof -
  let ?reads = \<open>[''data: {"choices":[{"delta":{"content":"hello "}}]}'' @ [CHR 0x0A] @ ''data: {"cho'',
       ''ices":[{"delta":{}}]}'' @ [CHR 0x0A] @ '': ping'' @ [CHR 0x0A] @ ''data: {junk'' @ [CHR 0x0A]]\<close>
  have y: "snd (streamFromGateway demo_parse True (demo_response ?reads)) = [JStr ''hello '']"
    by (simp add: streamFromGateway_def demo_response_def demo_parse_def startsWith_def trim_def
        isWhiteSpace_def deltaContent_def)
  have t: "truthy (Some (JStr ''hello ''))"
    using C10_fragments [of demo_parse True "demo_response ?reads"] y by simp
  have s1: \<open>processLines demo_parse True 0
       ['': ping'', ''data: {junk'', ''data: {"choices":[{"delta":{}}]}''] =
     processLines demo_parse True 0 [''data: {junk'', ''data: {"choices":[{"delta":{}}]}'']\<close>
    using C10_fragments [where line = "'': ping''" and parse = demo_parse and log_info = True]
    by (simp add: startsWith_def)
  have p2: \<open>startsWith ''data: {junk'' ''data: '' \<and> trim (drop 6 ''data: {junk'') \<noteq> ''[DONE]'' \<and>
      demo_parse (trim (drop 6 ''data: {junk'')) = None\<close>
    by (simp add: startsWith_def trim_def isWhiteSpace_def demo_parse_def)
  have s2: \<open>processLines demo_parse True 0 [''data: {junk'', ''data: {"choices":[{"delta":{}}]}''] =
     processLines demo_parse True 0 [''data: {"choices":[{"delta":{}}]}'']\<close>
    using C10_fragments [where line = "''data: {junk''" and parse = demo_parse and log_info = True] p2
    by blast
  have p3: \<open>startsWith ''data: {"choices":[{"delta":{}}]}'' ''data: '' \<and>
      trim (drop 6 ''data: {"choices":[{"delta":{}}]}'') \<noteq> ''[DONE]'' \<and>
      demo_parse (trim (drop 6 ''data: {"choices":[{"delta":{}}]}'')) =
        Some (JObj [(''choices'', JArr [JObj [(''delta'', JObj [])]])]) \<and>
      deltaContent (JObj [(''choices'', JArr [JObj [(''delta'', JObj [])]])]) = Some None\<close>
    by (simp add: startsWith_def trim_def isWhiteSpace_def demo_parse_def deltaContent_def)
  have s3: \<open>processLines demo_parse True 0 [''data: {"choices":[{"delta":{}}]}''] =
     processLines demo_parse True 0 []\<close>
    using C10_fragments [where line = \<open>''data: {"choices":[{"delta":{}}]}''\<close> and parse = demo_parse
        and log_info = True and chunk = "JObj [(''choices'', JArr [JObj [(''delta'', JObj [])]])]"] p3
    by blast
  from y t s1 s2 s3 show ?thesis by simp
qed

section \<open>Verification: media markers\<close>

subsection \<open>The scan\<close>

lemma startsWith_length: "startsWith s p \<Longrightarrow> length p \<le> length s"
  by (metis startsWith_def length_take min.cobounded2 min.commute)

lemma startsWith_append_iff:
  "length p \<le> length s \<Longrightarrow> startsWith (s @ t) p = startsWith s p"
  by (simp add: startsWith_def)

lemma startsWith_self: "startsWith (p @ s) p"
  by (simp add: startsWith_def)

lemma startsWith_split: "startsWith s p \<Longrightarrow> s = p @ drop (length p) s"
  by (metis startsWith_def append_take_drop_id)

lemma lazyBody_Some: "lazyBody close s = Some (b, r) \<Longrightarrow> s = b @ close @ r"
proof (induction s arbitrary: b)
  case Nil
  then show ?case by simp
next
  case (Cons c cs)
  show ?case
  proof (cases "startsWith (c # cs) close")
    case True
    then have "b = []" "r = drop (length close) (c # cs)" using Cons.prems by simp_all
    then show ?thesis using startsWith_split[OF True] by simp
  next
    case False
    then obtain b' where "lazyBody close cs = Some (b', r)" "b = c # b'"
      using Cons.prems by (auto split: if_splits option.splits)
    then show ?thesis using Cons.IH by simp
  qed
qed

lemma lazyBody_extend:
  "lazyBody close s = Some (b, []) \<Longrightarrow> lazyBody close (s @ rest) = Some (b, rest)"
proof (induction s arbitrary: b)
  case Nil
  then show ?case by simp
next
  case (Cons c cs)
  show ?case
  proof (cases "startsWith (c # cs) close")
    case True
    then have b: "b = []" and d: "drop (length close) (c # cs) = []" using Cons.prems by simp_all
    have le: "length close \<le> length (c # cs)" using True by (rule startsWith_length)
    have st: "startsWith ((c # cs) @ rest) close"
      using startsWith_append_iff[OF le] True by simp
    have "drop (length close) ((c # cs) @ rest) = rest" using d le by simp
    then show ?thesis using st b by simp
  next
    case False
    then obtain b' where l: "lazyBody close cs = Some (b', [])" and b: "b = c # b'"
      and nl: "\<not> isLineTerminator c"
      using Cons.prems by (auto split: if_splits option.splits)
    have "cs = b' @ close @ []" using l by (rule lazyBody_Some)
    then have le: "length close \<le> length (c # cs)" by simp
    have ns: "\<not> startsWith ((c # cs) @ rest) close"
      using startsWith_append_iff[OF le] False by simp
    have "lazyBody close (cs @ rest) = Some (b', rest)" using Cons.IH[OF l] .
    then show ?thesis using ns nl b by simp
  qed
qed

lemma markerClose_Cons: "markerClose k = CHR ''}'' # CHR ''['' # (''/'' @ tagName k @ '']'')"
  by (simp add: markerClose_def)

lemma markerOpen_Cons: "markerOpen k = CHR ''['' # (tagName k @ '']{'')"
  by (simp add: markerOpen_def)

lemma matchAt_whole:
  assumes "whole k (Marker b)"
  shows "matchAt k (markerOpen k @ b @ markerClose k @ rest) = Some (''{'' @ b @ ''}'', rest)"
proof -
  have "lazyBody (markerClose k) (b @ markerClose k) = Some (b, [])"
    using assms by (auto simp: matchAt_def startsWith_self split: option.splits)
  then have "lazyBody (markerClose k) ((b @ markerClose k) @ rest) = Some (b, rest)"
    by (rule lazyBody_extend)
  then show ?thesis by (simp add: matchAt_def startsWith_self)
qed

text \<open>A stretch of text in which no opening tag begins is kept, and adds no match.\<close>

lemma scan_plain:
  "(\<forall>i<length t. \<not> startsWith (drop i t @ s) (markerOpen k)) \<Longrightarrow>
   matchAll k (t @ s) = matchAll k s \<and> removeAll k (t @ s) = t @ removeAll k s"
proof (induction t)
  case Nil
  then show ?case by simp
next
  case (Cons c t)
  have "\<not> startsWith (drop 0 (c # t) @ s) (markerOpen k)" using Cons.prems by blast
  then have n: "matchAt k (c # t @ s) = None" by (simp add: matchAt_def)
  have "\<forall>i<length t. \<not> startsWith (drop i t @ s) (markerOpen k)"
  proof (intro allI impI)
    fix i assume "i < length t"
    then have "\<not> startsWith (drop (Suc i) (c # t) @ s) (markerOpen k)" using Cons.prems by auto
    then show "\<not> startsWith (drop i t @ s) (markerOpen k)" by simp
  qed
  then show ?case using Cons.IH n by (simp add: matchAll.simps(2) removeAll.simps(2))
qed

lemma scan_marker:
  assumes "whole k (Marker b)"
  shows "matchAll k (markerOpen k @ b @ markerClose k @ rest) = (''{'' @ b @ ''}'') # matchAll k rest \<and>
         removeAll k (markerOpen k @ b @ markerClose k @ rest) = removeAll k rest"
proof -
  obtain s where s: "markerOpen k @ b @ markerClose k @ rest = CHR ''['' # s"
    by (simp add: markerOpen_Cons)
  have m: "matchAt k (CHR ''['' # s) = Some (''{'' @ b @ ''}'', rest)"
    using matchAt_whole[OF assms, of rest] s by simp
  show ?thesis unfolding s using m by (simp add: matchAll.simps(2) removeAll.simps(2))
qed

lemma open_bracket_once: "CHR ''['' \<notin> set (tl (markerOpen k))"
  by (cases k) (simp_all add: markerOpen_def)

lemma startsWith_straddle:
  assumes "u \<noteq> []" "startsWith (u @ markerOpen k @ x) (markerOpen k)"
  shows "length (markerOpen k) \<le> length u"
proof (rule ccontr)
  assume "\<not> length (markerOpen k) \<le> length u"
  then have lt: "length u < length (markerOpen k)" by simp
  have t: "take (length (markerOpen k)) (u @ markerOpen k @ x) = markerOpen k"
    using assms(2) by (simp add: startsWith_def)
  have "take (length (markerOpen k)) (u @ markerOpen k @ x) ! length u = (u @ markerOpen k @ x) ! length u"
    using lt by (rule nth_take)
  also have "\<dots> = CHR ''[''" by (simp add: nth_append markerOpen_Cons)
  finally have "markerOpen k ! length u = CHR ''[''" using t by simp
  moreover have "0 < length u" using assms(1) by simp
  ultimately have "CHR ''['' \<in> set (tl (markerOpen k))"
    using lt by (metis Suc_pred in_set_conv_nth length_tl nth_tl less_diff_conv Suc_eq_plus1)
  then show False using open_bracket_once by blast
qed

lemma startsWith_render:
  "u \<noteq> [] \<Longrightarrow> startsWith (u @ render k ps) (markerOpen k) \<Longrightarrow>
   startsWith (u @ plainText ps) (markerOpen k)"
proof (induction ps arbitrary: u)
  case Nil
  then show ?case by simp
next
  case (Cons p ps)
  show ?case
  proof (cases p)
    case (Plain t)
    then show ?thesis using Cons.IH[of "u @ t"] Cons.prems by simp
  next
    case (Marker b)
    then have s: "startsWith (u @ markerOpen k @ (b @ markerClose k @ render k ps)) (markerOpen k)"
      using Cons.prems(2) by simp
    have le: "length (markerOpen k) \<le> length u"
      using startsWith_straddle[OF Cons.prems(1) s] .
    then have "startsWith u (markerOpen k)" using s startsWith_append_iff[OF le] by simp
    then show ?thesis using startsWith_append_iff[OF le] by simp
  qed
qed

lemma occursIn_drop: "i \<le> length s \<Longrightarrow> startsWith (drop i s) p \<Longrightarrow> occursIn p s"
proof (induction s arbitrary: i)
  case Nil
  then show ?case by (simp add: startsWith_def)
next
  case (Cons c cs)
  then show ?case by (cases i) auto
qed

lemma occursIn_append: "occursIn p s \<Longrightarrow> occursIn p (t @ s)"
  by (induction t) auto

lemma scan_render:
  "list_all (whole k) ps \<Longrightarrow> \<not> occursIn (markerOpen k) (plainText ps) \<Longrightarrow>
   matchAll k (render k ps) = payloads ps \<and> removeAll k (render k ps) = plainText ps"
proof (induction ps)
  case Nil
  then show ?case by simp
next
  case (Cons p ps)
  show ?case
  proof (cases p)
    case (Plain t)
    have no: "\<not> occursIn (markerOpen k) (t @ plainText ps)" using Cons.prems(2) Plain by simp
    then have "\<not> occursIn (markerOpen k) (plainText ps)" using occursIn_append by blast
    then have ih: "matchAll k (render k ps) = payloads ps \<and> removeAll k (render k ps) = plainText ps"
      using Cons.IH Cons.prems(1) by simp
    have "\<forall>i<length t. \<not> startsWith (drop i t @ render k ps) (markerOpen k)"
    proof (intro allI impI notI)
      fix i assume i: "i < length t" and s: "startsWith (drop i t @ render k ps) (markerOpen k)"
      have "startsWith (drop i t @ plainText ps) (markerOpen k)"
        using startsWith_render[OF _ s] i by simp
      then have "startsWith (drop i (t @ plainText ps)) (markerOpen k)" using i by simp
      then show False using occursIn_drop[of i "t @ plainText ps"] i no by simp
    qed
    then show ?thesis using scan_plain[of t "render k ps" k] ih Plain by simp
  next
    case (Marker b)
    then show ?thesis using Cons scan_marker[of k b "render k ps"] by simp
  qed
qed


lemma no_match_unchanged: "matchAll k s = [] \<Longrightarrow> removeAll k s = s"
proof (induction s rule: matchAll.induct)
  case (1 k)
  then show ?case by simp
next
  case (2 k c cs)
  show ?case
  proof (cases "matchAt k (c # cs)")
    case None
    then show ?thesis using 2 by (simp add: matchAll.simps(2) removeAll.simps(2))
  next
    case (Some a)
    then show ?thesis using 2(3) by (cases a) (simp add: matchAll.simps(2))
  qed
qed






subsection \<open>Status lines\<close>

lemma parsed_parses: "parsed parse m \<noteq> None \<longleftrightarrow> parses parse m"
  by (simp add: parsed_def parses_def split: option.splits)

lemma parsed_Some: "parsed parse m = Some v \<Longrightarrow> parse m = Some v"
  by (simp add: parsed_def split: option.splits if_splits)


lemma badPath_parsed:
  "badPath parse m =
     (case parsed parse m of
        None \<Rightarrow> False
      | Some info \<Rightarrow> truthy (getProp ''path'' info) \<and> \<not> isString (getProp ''path'' info))"
  by (simp add: badPath_def parsed_def split: option.splits)






lemma parseFileInfos_filter:
  "parseFileInfos parse (filter (parses parse) ms) = parseFileInfos parse ms"
  by (induction ms) (auto simp: parsed_parses[symmetric] split: option.splits)


lemma existsSyncValue_True: "existsSyncValue env v w = (True, w1) \<Longrightarrow> isString v"
  by (auto simp: existsSyncValue_def split: option.splits json.splits)

lemma isString_orElse: "truthy v \<Longrightarrow> isString (Some (orElse v d)) = isString v"
  by (cases v) (auto simp: orElse_def)

lemma orElse_falsy: "\<not> truthy v \<Longrightarrow> orElse v d = d"
  by (cases v) (auto simp: orElse_def)

text \<open>The first loop of the audio and video passes.\<close>

lemma parseAudioInfos_facts:
  "parseAudioInfos env ms (infos, invalid, w) = (infos', invalid', w') \<Longrightarrow>
   length infos' + length invalid' =
     length infos + length invalid + length (filter (parses (jsonParse env)) ms) \<and>
   (list_all (\<lambda>i. isString (getProp ''path'' i)) infos \<longrightarrow>
      list_all (\<lambda>i. isString (getProp ''path'' i)) infos') \<and>
   (list_all (\<lambda>v. isString (Some v)) invalid' \<longleftrightarrow>
      list_all (\<lambda>v. isString (Some v)) invalid \<and> \<not> list_ex (badPath (jsonParse env)) ms)"
proof (induction ms arbitrary: infos invalid w)
  case Nil
  then show ?case by simp
next
  case (Cons m ms)
  show ?case
  proof (cases "parsed (jsonParse env) m")
    case None
    then have "\<not> parses (jsonParse env) m" "\<not> badPath (jsonParse env) m"
      using parsed_parses[of "jsonParse env" m] by (simp_all add: badPath_parsed)
    then show ?thesis using Cons.IH[of infos invalid w] Cons.prems None by simp
  next
    case (Some info)
    then have p: "parses (jsonParse env) m" using parsed_parses[of "jsonParse env" m] by simp
    have bp: "badPath (jsonParse env) m =
        (truthy (getProp ''path'' info) \<and> \<not> isString (getProp ''path'' info))"
      using Some by (simp add: badPath_parsed)
    show ?thesis
    proof (cases "truthy (getProp ''path'' info)")
      case False
      have o: "orElse (getProp ''path'' info) (JStr ''unknown'') = JStr ''unknown''"
        using False by (rule orElse_falsy)
      show ?thesis
        using Cons.IH[of infos "invalid @ [JStr ''unknown'']" w] Cons.prems Some False p bp
        by (simp add: o)
    next
      case True
      obtain b w1 where e: "existsSyncValue env (getProp ''path'' info) w = (b, w1)"
        by (cases "existsSyncValue env (getProp ''path'' info) w")
      show ?thesis
      proof (cases b)
        case t: True
        then have "existsSyncValue env (getProp ''path'' info) w = (True, w1)" using e by simp
        then have s: "isString (getProp ''path'' info)" by (rule existsSyncValue_True)
        then show ?thesis
          using Cons.IH[of "infos @ [info]" invalid w1] Cons.prems Some True e t p bp by simp
      next
        case f: False
        have s: "isString (Some (orElse (getProp ''path'' info) (JStr ''unknown''))) =
            isString (getProp ''path'' info)"
          using True by (rule isString_orElse)
        show ?thesis
          using Cons.IH[of infos "invalid @ [orElse (getProp ''path'' info) (JStr ''unknown'')]" w1]
            Cons.prems Some True e f p bp s
          by auto
      qed
    qed
  qed
qed

lemma parseAudioInfos_filter:
  "parseAudioInfos env (filter (parses (jsonParse env)) ms) acc = parseAudioInfos env ms acc"
proof (induction ms arbitrary: acc)
  case Nil
  then show ?case by simp
next
  case (Cons m ms)
  obtain infos invalid w where acc: "acc = (infos, invalid, w)" by (cases acc)
  show ?case
  proof (cases "parsed (jsonParse env) m")
    case None
    then have "\<not> parses (jsonParse env) m" using parsed_parses[of "jsonParse env" m] by simp
    then show ?thesis using Cons.IH None by (simp add: acc)
  next
    case (Some info)
    then have "parses (jsonParse env) m" using parsed_parses[of "jsonParse env" m] by simp
    then show ?thesis using Cons.IH Some
      by (simp add: acc split: prod.splits bool.splits)
  qed
qed

lemma parseVideoInfos_eq: "parseVideoInfos env ms acc = parseAudioInfos env ms acc"
proof (induction ms arbitrary: acc)
  case Nil
  then show ?case by simp
next
  case (Cons m ms)
  obtain infos invalid w where acc: "acc = (infos, invalid, w)" by (cases acc)
  show ?case using Cons.IH
    by (simp add: acc split: option.splits prod.splits bool.splits)
qed


lemma invalidLines_Inl:
  "\<not> list_all (\<lambda>v. isString (Some v)) vs \<Longrightarrow> invalidLines env line vs = Inl ERR_INVALID_ARG_TYPE"
proof (induction vs)
  case Nil
  then show ?case by simp
next
  case (Cons v vs)
  show ?case
  proof (cases "isString (Some v)")
    case True
    then obtain p where "v = JStr p" by (cases v) auto
    then show ?thesis using Cons by (auto simp: basenameValue_def)
  next
    case False
    then show ?thesis by (cases v) (auto simp: basenameValue_def)
  qed
qed




lemma audioStatuses_throw:
  assumes "list_ex (badPath (jsonParse env)) ms"
  shows "fst (audioStatuses env tgt ms w) = Inl ERR_INVALID_ARG_TYPE"
proof -
  obtain infos invalid w1 where p: "parseAudioInfos env ms ([], [], w) = (infos, invalid, w1)"
    by (cases "parseAudioInfos env ms ([], [], w)")
  have "\<not> list_all (\<lambda>v. isString (Some v)) invalid"
    using parseAudioInfos_facts[OF p] assms by simp
  then have "invalidLines env AudioNotFound invalid = Inl ERR_INVALID_ARG_TYPE"
    by (rule invalidLines_Inl)
  then show ?thesis by (simp add: audioStatuses_def p)
qed


lemma videoStatuses_throw:
  assumes "list_ex (badPath (jsonParse env)) ms"
  shows "fst (videoStatuses env tgt ms w) = Inl ERR_INVALID_ARG_TYPE"
proof -
  obtain infos invalid w1 where p: "parseAudioInfos env ms ([], [], w) = (infos, invalid, w1)"
    by (cases "parseAudioInfos env ms ([], [], w)")
  have "\<not> list_all (\<lambda>v. isString (Some v)) invalid"
    using parseAudioInfos_facts[OF p] assms by simp
  then have "invalidLines env VideoNotFound invalid = Inl ERR_INVALID_ARG_TYPE"
    by (rule invalidLines_Inl)
  then show ?thesis by (simp add: videoStatuses_def parseVideoInfos_eq p)
qed


lemma statusesOf_throw:
  assumes "rejects k (jsonParse env) ms"
  shows "fst (statusesOf k env tgt ms w) = Inl ERR_INVALID_ARG_TYPE"
  using assms by (cases k) (simp_all add: rejects_def audioStatuses_throw videoStatuses_throw)

lemma statusesOf_filter:
  "statusesOf k env tgt (filter (parses (jsonParse env)) ms) w = statusesOf k env tgt ms w"
  by (cases k)
    (simp_all add: fileStatuses_def audioStatuses_def videoStatuses_def parseFileInfos_filter
      parseAudioInfos_filter parseVideoInfos_eq)

lemma statusesOf_nothing: "statusesOf k env tgt [] w = (Inr [], w)"
  by (cases k) (simp_all add: fileStatuses_def audioStatuses_def videoStatuses_def)

lemma processMarkers_result:
  "\<not> noToken oapiToken \<Longrightarrow>
   processMarkers k env oapiToken tgt content w =
     (case statusesOf k env tgt (matchAll k content) w of
        (Inl e, w1) \<Rightarrow> (Inl e, w1)
      | (Inr msgs, w1) \<Rightarrow>
          (Inr \<lparr>resultContent = trim (removeAll k content), mediaMessages = [],
                 statusMessages = msgs\<rparr>, w1))"
  by (cases k)
    (auto simp: processFileMarkers_def processAudioMarkers_def processVideoMarkers_def
      split: prod.splits sum.splits)

subsection \<open>The pieces of a text\<close>

lemma lazyBody_restrict:
  "close \<noteq> [] \<Longrightarrow> lazyBody close s = Some (b, r) \<Longrightarrow>
   lazyBody close (b @ close) = Some (b, []) \<and> list_all (\<lambda>c. \<not> isLineTerminator c) b"
proof (induction s arbitrary: b)
  case Nil
  then show ?case by simp
next
  case (Cons c cs)
  show ?case
  proof (cases "startsWith (c # cs) close")
    case True
    then have b: "b = []" using Cons.prems by simp
    obtain d ds where d: "close = d # ds" using Cons.prems(1) by (cases close) auto
    have "lazyBody close close = Some ([], [])"
      unfolding d by (simp add: startsWith_def)
    then show ?thesis by (simp add: b)
  next
    case False
    then obtain b' where l: "lazyBody close cs = Some (b', r)" and b: "b = c # b'"
      and nl: "\<not> isLineTerminator c"
      using Cons.prems by (auto split: if_splits option.splits)
    have cs: "cs = b' @ close @ r" using l by (rule lazyBody_Some)
    have le: "length close \<le> length (c # b' @ close)" by simp
    have "\<not> startsWith ((c # b' @ close) @ r) close" using False cs by simp
    then have ns: "\<not> startsWith (c # b' @ close) close"
      using startsWith_append_iff[OF le, of r] by simp
    have ih: "lazyBody close (b' @ close) = Some (b', []) \<and> list_all (\<lambda>c. \<not> isLineTerminator c) b'"
      using Cons.IH[OF Cons.prems(1) l] .
    show ?thesis using ns nl ih b by simp
  qed
qed

lemma matchAt_Some:
  assumes "matchAt k s = Some (g, rest)"
  shows "\<exists>b. g = ''{'' @ b @ ''}'' \<and> s = markerOpen k @ b @ markerClose k @ rest \<and>
             whole k (Marker b) \<and> list_all (\<lambda>c. \<not> isLineTerminator c) b"
proof -
  have st: "startsWith s (markerOpen k)" using assms by (simp add: matchAt_def split: if_splits)
  then obtain b where l: "lazyBody (markerClose k) (drop (length (markerOpen k)) s) = Some (b, rest)"
    and g: "g = ''{'' @ b @ ''}''"
    using assms by (auto simp: matchAt_def split: option.splits)
  have d: "drop (length (markerOpen k)) s = b @ markerClose k @ rest" using l by (rule lazyBody_Some)
  have s: "s = markerOpen k @ b @ markerClose k @ rest"
    using startsWith_split[OF st] d by simp
  have ne: "markerClose k \<noteq> []" by (simp add: markerClose_def)
  have r: "lazyBody (markerClose k) (b @ markerClose k) = Some (b, []) \<and>
      list_all (\<lambda>c. \<not> isLineTerminator c) b"
    using lazyBody_restrict[OF ne l] .
  then have "whole k (Marker b)" by (simp add: matchAt_def startsWith_self)
  then show ?thesis using g s r by blast
qed

lemma pieces_facts:
  "render k (pieces k s) = s \<and> list_all (whole k) (pieces k s) \<and>
   payloads (pieces k s) = matchAll k s \<and> plainText (pieces k s) = removeAll k s"
proof (induction k s rule: pieces.induct)
  case (1 k)
  then show ?case by simp
next
  case (2 k c cs)
  show ?case
  proof (cases "matchAt k (c # cs)")
    case None
    then show ?thesis using 2
      by (simp add: pieces.simps(2) matchAll.simps(2) removeAll.simps(2))
  next
    case (Some a)
    obtain g rest where a: "a = (g, rest)" by (cases a)
    obtain b where b: "g = ''{'' @ b @ ''}''" "c # cs = markerOpen k @ b @ markerClose k @ rest"
      "whole k (Marker b)"
      using matchAt_Some[of k "c # cs" g rest] Some a by auto
    have bl: "butlast (tl g) = b" using b(1) by (simp add: butlast_append)
    have ih: "render k (pieces k rest) = rest \<and> list_all (whole k) (pieces k rest) \<and>
        payloads (pieces k rest) = matchAll k rest \<and> plainText (pieces k rest) = removeAll k rest"
      using 2 Some a by simp
    have p: "pieces k (c # cs) = Marker b # pieces k rest"
      using Some a bl by (simp add: pieces.simps(2))
    have m: "matchAll k (c # cs) = g # matchAll k rest" "removeAll k (c # cs) = removeAll k rest"
      using Some a by (simp_all add: matchAll.simps(2) removeAll.simps(2))
    show ?thesis unfolding p m using ih b by simp
  qed
qed

lemma sound_filter:
  "plainText (filter (sound parse) ps) = plainText ps \<and>
   payloads (filter (sound parse) ps) = filter (parses parse) (payloads ps) \<and>
   (list_all (whole k) ps \<longrightarrow> list_all (whole k) (filter (sound parse) ps))"
proof (induction ps)
  case Nil
  then show ?case by simp
next
  case (Cons p ps)
  then show ?case by (cases p) auto
qed

lemmas scan_eval = matchAll.simps(2) removeAll.simps(2) matchAt_def startsWith_def
  markerOpen_def markerClose_def isLineTerminator_def trim_def isWhiteSpace_def

lemmas pass_eval = parsed_def existsSyncValue_def orElse_def basenameValue_def
  demo_media_env_def demo_media_parse_def noToken_def

subsection \<open>The outcome of a pass\<close>


lemma pass_throw:
  assumes "\<not> noToken oapiToken" "rejects k (jsonParse env) (matchAll k content)"
  shows "fst (processMarkers k env oapiToken tgt content w) = Inl ERR_INVALID_ARG_TYPE"
proof -
  have "fst (statusesOf k env tgt (matchAll k content) w) = Inl ERR_INVALID_ARG_TYPE"
    using assms(2) by (rule statusesOf_throw)
  then obtain w1 where "statusesOf k env tgt (matchAll k content) w = (Inl ERR_INVALID_ARG_TYPE, w1)"
    by (cases "statusesOf k env tgt (matchAll k content) w") simp
  then show ?thesis by (simp add: processMarkers_result[OF assms(1)])
qed

subsection \<open>Round trip\<close>



lemmas piece_eval = markerOpen_def markerClose_def matchAt_def startsWith_def isLineTerminator_def


subsection \<open>Malformed payloads\<close>

text \<open>
  A marker whose payload does not parse is deleted from the text, but no status line is
  produced for it: the parse error is only logged.
\<close>

theorem C8_no_status_line_counterexample:
  "matchAll AUDIO ''[DINGTALK_AUDIO]{junk}[/DINGTALK_AUDIO]'' = [''{junk}''] \<and>
   demo_media_parse ''{junk}'' = None \<and>
   processAudioMarkers demo_media_env (Some ''token'') demo_target
     ''[DINGTALK_AUDIO]{junk}[/DINGTALK_AUDIO]'' 0
   = (Inr \<lparr>resultContent = [], mediaMessages = [], statusMessages = []\<rparr>, 0)"
proof -
  have m: "matchAll AUDIO ''[DINGTALK_AUDIO]{junk}[/DINGTALK_AUDIO]'' = [''{junk}'']"
    "trim (removeAll AUDIO ''[DINGTALK_AUDIO]{junk}[/DINGTALK_AUDIO]'') = []"
    by (simp_all add: scan_eval)
  have p: "demo_media_parse ''{junk}'' = None" by (simp add: demo_media_parse_def)
  have s: "audioStatuses demo_media_env demo_target [''{junk}''] 0 = (Inr [], 0)"
    by (simp add: audioStatuses_def pass_eval)
  have "processAudioMarkers demo_media_env (Some ''token'') demo_target
     ''[DINGTALK_AUDIO]{junk}[/DINGTALK_AUDIO]'' 0
   = (Inr \<lparr>resultContent = [], mediaMessages = [], statusMessages = []\<rparr>, 0)"
    unfolding processAudioMarkers_def m s by (simp add: noToken_def)
  with m(1) p show ?thesis by (intro conjI)
qed

text \<open>
  Claim C8, as the code has it, for each kind and with a credential. A marker is a match
  of the pattern; its payload is malformed when it does not parse. (1) The outcome of
  the pass (what it returns or throws, and its effects on the world) is computed from the
  matches that parse alone, and the text returned is the input with every match deleted,
  whether its payload parses or not: a malformed payload adds no status line and touches
  nothing. (2) For a text made of whole markers and of plain text that, joined together,
  does not contain the opening tag with its brace, the outcome is that of the same text
  with the malformed markers taken out. (3) When no payload parses, there is no status
  line and the world is unchanged. (4) A text in which the pattern has no match comes
  back as it is, trimmed, without a status line. (5) Every text is a sequence of whole
  markers, which are its matches, and of other characters, which are the text returned:
  what the pattern does not match stays. (6) The audio and the video pass throw when
  some payload parses with a truthy path that is not a string.
\<close>

theorem C8_malformed_payloads:
  assumes "\<not> noToken oapiToken"
  shows
  "processMarkers k env oapiToken tgt content w =
     (case statusesOf k env tgt (filter (parses (jsonParse env)) (matchAll k content)) w of
        (Inl e, w1) \<Rightarrow> (Inl e, w1)
      | (Inr msgs, w1) \<Rightarrow>
          (Inr \<lparr>resultContent = trim (removeAll k content), mediaMessages = [],
                 statusMessages = msgs\<rparr>, w1)) \<and>
   (list_all (whole k) ps \<and> \<not> occursIn (markerOpen k) (plainText ps) \<longrightarrow>
      processMarkers k env oapiToken tgt (render k ps) w =
      processMarkers k env oapiToken tgt (render k (filter (sound (jsonParse env)) ps)) w) \<and>
   ((\<forall>m\<in>set (matchAll k content). \<not> parses (jsonParse env) m) \<longrightarrow>
      processMarkers k env oapiToken tgt content w =
        (Inr \<lparr>resultContent = trim (removeAll k content), mediaMessages = [],
               statusMessages = []\<rparr>, w)) \<and>
   (matchAll k content = [] \<longrightarrow>
      processMarkers k env oapiToken tgt content w =
        (Inr \<lparr>resultContent = trim content, mediaMessages = [], statusMessages = []\<rparr>, w)) \<and>
   (render k (pieces k content) = content \<and> list_all (whole k) (pieces k content) \<and>
    payloads (pieces k content) = matchAll k content \<and>
    plainText (pieces k content) = removeAll k content) \<and>
   (rejects k (jsonParse env) (matchAll k content) \<longrightarrow>
      fst (processMarkers k env oapiToken tgt content w) = Inl ERR_INVALID_ARG_TYPE)"
proof -
  have r: "processMarkers k env oapiToken tgt c w =
     (case statusesOf k env tgt (filter (parses (jsonParse env)) (matchAll k c)) w of
        (Inl e, w1) \<Rightarrow> (Inl e, w1)
      | (Inr msgs, w1) \<Rightarrow>
          (Inr \<lparr>resultContent = trim (removeAll k c), mediaMessages = [],
                 statusMessages = msgs\<rparr>, w1))" for c
    using processMarkers_result[OF assms, of k env tgt c w] by (simp add: statusesOf_filter)
  have c2: "list_all (whole k) ps \<and> \<not> occursIn (markerOpen k) (plainText ps) \<longrightarrow>
      processMarkers k env oapiToken tgt (render k ps) w =
      processMarkers k env oapiToken tgt (render k (filter (sound (jsonParse env)) ps)) w"
  proof
    assume h: "list_all (whole k) ps \<and> \<not> occursIn (markerOpen k) (plainText ps)"
    let ?qs = "filter (sound (jsonParse env)) ps"
    note f = sound_filter[of "jsonParse env" ps k]
    have s: "matchAll k (render k ps) = payloads ps" "removeAll k (render k ps) = plainText ps"
      using scan_render[of k ps] h by simp_all
    have hq: "list_all (whole k) ?qs" "\<not> occursIn (markerOpen k) (plainText ?qs)"
      using f h by simp_all
    have q: "matchAll k (render k ?qs) = filter (parses (jsonParse env)) (payloads ps)"
      "removeAll k (render k ?qs) = plainText ps"
      using scan_render[OF hq] f by simp_all
    show "processMarkers k env oapiToken tgt (render k ps) w =
      processMarkers k env oapiToken tgt (render k ?qs) w"
      unfolding r[of "render k ps"] r[of "render k ?qs"] s q by simp
  qed
  have c3: "(\<forall>m\<in>set (matchAll k content). \<not> parses (jsonParse env) m) \<longrightarrow>
      processMarkers k env oapiToken tgt content w =
        (Inr \<lparr>resultContent = trim (removeAll k content), mediaMessages = [],
               statusMessages = []\<rparr>, w)"
  proof
    assume "\<forall>m\<in>set (matchAll k content). \<not> parses (jsonParse env) m"
    then have "filter (parses (jsonParse env)) (matchAll k content) = []"
      by (simp add: filter_empty_conv)
    then show "processMarkers k env oapiToken tgt content w =
        (Inr \<lparr>resultContent = trim (removeAll k content), mediaMessages = [],
               statusMessages = []\<rparr>, w)"
      unfolding r[of content] by (simp add: statusesOf_nothing)
  qed
  have c4: "matchAll k content = [] \<longrightarrow>
      processMarkers k env oapiToken tgt content w =
        (Inr \<lparr>resultContent = trim content, mediaMessages = [], statusMessages = []\<rparr>, w)"
  proof
    assume m: "matchAll k content = []"
    then have "removeAll k content = content" by (rule no_match_unchanged)
    then show "processMarkers k env oapiToken tgt content w =
        (Inr \<lparr>resultContent = trim content, mediaMessages = [], statusMessages = []\<rparr>, w)"
      unfolding r[of content] m by (simp add: statusesOf_nothing)
  qed
  have c6: "rejects k (jsonParse env) (matchAll k content) \<longrightarrow>
      fst (processMarkers k env oapiToken tgt content w) = Inl ERR_INVALID_ARG_TYPE"
    using pass_throw[OF assms, of k env content tgt w] by blast
  show ?thesis
    by (rule conjI[OF r[of content] conjI[OF c2 conjI[OF c3 conjI[OF c4
        conjI[OF pieces_facts[of k content] c6]]]]])
qed

theorem C8_malformed_payloads_witness:
  \<open>processAudioMarkers demo_media_env (Some ''token'') demo_target
     ''A [DINGTALK_AUDIO]{junk}[/DINGTALK_AUDIO] B [DINGTALK_AUDIO]{"path":"/tmp/b.ogg"}[/DINGTALK_AUDIO]''
     0
   = (Inr \<lparr>resultContent = ''A  B'', mediaMessages = [], statusMessages = [AudioSent ''b.ogg'']\<rparr>, 3) \<and>
   processAudioMarkers demo_media_env (Some ''token'') demo_target
     ''A  B [DINGTALK_AUDIO]{"path":"/tmp/b.ogg"}[/DINGTALK_AUDIO]'' 0
   = (Inr \<lparr>resultContent = ''A  B'', mediaMessages = [], statusMessages = [AudioSent ''b.ogg'']\<rparr>, 3) \<and>
   processFileMarkers demo_media_env (Some ''token'') demo_target
     ''[DINGTALK_FILE]{junk}[/DINGTALK_FILE]'' 0
   = (Inr \<lparr>resultContent = [], mediaMessages = [], statusMessages = []\<rparr>, 0) \<and>
   processAudioMarkers demo_media_env (Some ''token'') demo_target
     ''[DINGTALK_AUDIO]junk[/DINGTALK_AUDIO]'' 0
   = (Inr \<lparr>resultContent = ''[DINGTALK_AUDIO]junk[/DINGTALK_AUDIO]'', mediaMessages = [],
            statusMessages = []\<rparr>, 0) \<and>
   processAudioMarkers demo_media_env (Some ''token'') demo_target
     ''[DINGTALK_AUDIO]{junk[/DINGTALK_AUDIO]'' 0
   = (Inr \<lparr>resultContent = ''[DINGTALK_AUDIO]{junk[/DINGTALK_AUDIO]'', mediaMessages = [],
            statusMessages = []\<rparr>, 0) \<and>
   processAudioMarkers demo_media_env (Some ''token'') demo_target
     (''[DINGTALK_AUDIO]{'' @ [CHR 0x0A] @ ''junk}[/DINGTALK_AUDIO]'') 0
   = (Inr \<lparr>resultContent = ''[DINGTALK_AUDIO]{'' @ [CHR 0x0A] @ ''junk}[/DINGTALK_AUDIO]'',
            mediaMessages = [], statusMessages = []\<rparr>, 0) \<and>
   fst (processAudioMarkers demo_media_env (Some ''token'') demo_target
     ''[DINGTALK_AUDIO]{junk}[/DINGTALK_AUDIO][DINGTALK_AUDIO]{"path":123}[/DINGTALK_AUDIO]'' 0)
   = Inl ERR_INVALID_ARG_TYPE\<close>
proof -
  let ?ps = \<open>[Plain ''A '', Marker ''junk'', Plain '' B '', Marker ''"path":"/tmp/b.ogg"'']\<close>
  let ?text = \<open>''A [DINGTALK_AUDIO]{junk}[/DINGTALK_AUDIO] B [DINGTALK_AUDIO]{"path":"/tmp/b.ogg"}[/DINGTALK_AUDIO]''\<close>
  let ?rest = \<open>''A  B [DINGTALK_AUDIO]{"path":"/tmp/b.ogg"}[/DINGTALK_AUDIO]''\<close>
  have tok: "\<not> noToken (Some ''token'')" by (simp add: noToken_def)
  have w1: \<open>whole AUDIO (Marker ''junk'')\<close> by (simp add: piece_eval)
  have w2: \<open>whole AUDIO (Marker ''"path":"/tmp/b.ogg"'')\<close> by (simp add: piece_eval)
  have h: "list_all (whole AUDIO) ?ps \<and> \<not> occursIn (markerOpen AUDIO) (plainText ?ps)"
    using w1 w2 by (simp add: markerOpen_def startsWith_def)
  have ren: "render AUDIO ?ps = ?text" by (simp add: markerOpen_def markerClose_def)
  have fl: \<open>filter (sound (jsonParse demo_media_env)) ?ps =
      [Plain ''A '', Plain '' B '', Marker ''"path":"/tmp/b.ogg"'']\<close>
    by (simp add: parses_def demo_media_env_def demo_media_parse_def)
  have ren2: \<open>render AUDIO [Plain ''A '', Plain '' B '', Marker ''"path":"/tmp/b.ogg"''] = ?rest\<close>
    by (simp add: markerOpen_def markerClose_def)
  have eq: "processAudioMarkers demo_media_env (Some ''token'') demo_target ?text 0 =
      processAudioMarkers demo_media_env (Some ''token'') demo_target ?rest 0"
    using C8_malformed_payloads [OF tok, where k = AUDIO and ps = ?ps and env = demo_media_env
        and tgt = demo_target and w = 0,
        THEN conjunct2, THEN conjunct1, THEN mp, OF h]
    unfolding fl ren ren2 processMarkers.simps .
  have m: "matchAll AUDIO ?rest = [''{\"path\":\"/tmp/b.ogg\"}'']"
    "trim (removeAll AUDIO ?rest) = ''A  B''"
    by (simp_all add: scan_eval)
  have st: "audioStatuses demo_media_env demo_target [''{\"path\":\"/tmp/b.ogg\"}''] 0 =
      (Inr [AudioSent ''b.ogg''], 3)"
    by (simp add: audioStatuses_def audioStep_def pass_eval)
  have b: "processAudioMarkers demo_media_env (Some ''token'') demo_target ?rest 0
     = (Inr \<lparr>resultContent = ''A  B'', mediaMessages = [], statusMessages = [AudioSent ''b.ogg'']\<rparr>, 3)"
    unfolding processAudioMarkers_def m st by (simp add: noToken_def)
  have a: "processAudioMarkers demo_media_env (Some ''token'') demo_target ?text 0
     = (Inr \<lparr>resultContent = ''A  B'', mediaMessages = [], statusMessages = [AudioSent ''b.ogg'']\<rparr>, 3)"
    using eq b by simp
  have mf: "matchAll FILE ''[DINGTALK_FILE]{junk}[/DINGTALK_FILE]'' = [''{junk}'']"
    "trim (removeAll FILE ''[DINGTALK_FILE]{junk}[/DINGTALK_FILE]'') = []"
    by (simp_all add: scan_eval)
  have bad: "\<forall>m\<in>set (matchAll FILE ''[DINGTALK_FILE]{junk}[/DINGTALK_FILE]'').
          \<not> parses (jsonParse demo_media_env) m"
    by (simp add: mf parses_def demo_media_env_def demo_media_parse_def)
  have c: "processFileMarkers demo_media_env (Some ''token'') demo_target
     ''[DINGTALK_FILE]{junk}[/DINGTALK_FILE]'' 0
   = (Inr \<lparr>resultContent = [], mediaMessages = [], statusMessages = []\<rparr>, 0)"
    using C8_malformed_payloads [OF tok, where k = FILE and env = demo_media_env
        and tgt = demo_target and w = 0 and content = "''[DINGTALK_FILE]{junk}[/DINGTALK_FILE]''",
        THEN conjunct2, THEN conjunct2, THEN conjunct1, THEN mp, OF bad]
    unfolding mf processMarkers.simps .
  note none = C8_malformed_payloads [OF tok, where k = AUDIO and env = demo_media_env
        and tgt = demo_target and w = 0,
        THEN conjunct2, THEN conjunct2, THEN conjunct2, THEN conjunct1, THEN mp,
        unfolded processMarkers.simps]
  have n1: "matchAll AUDIO ''[DINGTALK_AUDIO]junk[/DINGTALK_AUDIO]'' = []"
    by (simp add: scan_eval)
  have t1: "trim ''[DINGTALK_AUDIO]junk[/DINGTALK_AUDIO]'' = ''[DINGTALK_AUDIO]junk[/DINGTALK_AUDIO]''"
    by (simp add: trim_def isWhiteSpace_def)
  have d: "processAudioMarkers demo_media_env (Some ''token'') demo_target
     ''[DINGTALK_AUDIO]junk[/DINGTALK_AUDIO]'' 0
   = (Inr \<lparr>resultContent = ''[DINGTALK_AUDIO]junk[/DINGTALK_AUDIO]'', mediaMessages = [],
            statusMessages = []\<rparr>, 0)"
    using none[OF n1] unfolding t1 .
  have n2: "matchAll AUDIO ''[DINGTALK_AUDIO]{junk[/DINGTALK_AUDIO]'' = []"
    by (simp add: scan_eval)
  have t2: "trim ''[DINGTALK_AUDIO]{junk[/DINGTALK_AUDIO]'' = ''[DINGTALK_AUDIO]{junk[/DINGTALK_AUDIO]''"
    by (simp add: trim_def isWhiteSpace_def)
  have e: "processAudioMarkers demo_media_env (Some ''token'') demo_target
     ''[DINGTALK_AUDIO]{junk[/DINGTALK_AUDIO]'' 0
   = (Inr \<lparr>resultContent = ''[DINGTALK_AUDIO]{junk[/DINGTALK_AUDIO]'', mediaMessages = [],
            statusMessages = []\<rparr>, 0)"
    using none[OF n2] unfolding t2 .
  let ?two = "''[DINGTALK_AUDIO]{'' @ [CHR 0x0A] @ ''junk}[/DINGTALK_AUDIO]''"
  have n3: "matchAll AUDIO ?two = []"
    by (simp add: scan_eval)
  have t3: "trim ?two = ?two"
    by (simp add: trim_def isWhiteSpace_def)
  have f: "processAudioMarkers demo_media_env (Some ''token'') demo_target ?two 0
   = (Inr \<lparr>resultContent = ?two, mediaMessages = [], statusMessages = []\<rparr>, 0)"
    using none[OF n3] unfolding t3 .
  let ?thr = \<open>''[DINGTALK_AUDIO]{junk}[/DINGTALK_AUDIO][DINGTALK_AUDIO]{"path":123}[/DINGTALK_AUDIO]''\<close>
  have m4: "matchAll AUDIO ?thr = [''{junk}'', ''{\"path\":123}'']"
    by (simp add: scan_eval)
  have r4: "rejects AUDIO (jsonParse demo_media_env) (matchAll AUDIO ?thr)"
    unfolding m4 by (simp add: rejects_def badPath_def demo_media_env_def demo_media_parse_def)
  have g: "fst (processAudioMarkers demo_media_env (Some ''token'') demo_target ?thr 0)
      = Inl ERR_INVALID_ARG_TYPE"
    using C8_malformed_payloads [OF tok, where k = AUDIO and env = demo_media_env
        and tgt = demo_target and w = 0 and content = ?thr,
        THEN conjunct2, THEN conjunct2, THEN conjunct2, THEN conjunct2, THEN conjunct2,
        THEN mp, OF r4]
    unfolding processMarkers.simps .
  from a b c d e f g show ?thesis by (intro conjI)
qed

end
